(* ===== verification/WMS_Prelude.thy ===== *)
theory WMS_Prelude
  imports Main "HOL-Library.Multiset"
begin

text \<open>
  The shared base of the development: errors as values (the Go \<open>error\<close> results), programs as
  state transformers that either return a value or an error, their weakest-precondition
  calculus, signed 64-bit integers with Go's wrap-around, PostgreSQL's checked \<open>bigint\<close>, and
  the list lemmas the table models share.
\<close>

section \<open>Collections of rewrite rules\<close>

named_theorems wp_simps \<open>weakest-precondition equations of programs and SQL statements\<close>
named_theorems table_simps \<open>facts about the rows of a table after a statement\<close>
named_theorems f64_simps \<open>evaluation of binary64 operations\<close>

section \<open>Errors\<close>

text \<open>
  \<open>platform.Fault\<close> carries a code, a message and an HTTP status. Every other Go error (a
  PostgreSQL error, \<open>fmt.Errorf\<close>, a JSON error) is \<open>Internal\<close>.
\<close>

datatype err =
    Fault (fault_code: string) (fault_message: string) (fault_status: int)
  | Internal string

text \<open>\<open>errors.As(err, &fault)\<close> succeeds exactly on the first constructor.\<close>

definition is_fault :: "err \<Rightarrow> bool" where
  "is_fault e = (case e of Fault _ _ _ \<Rightarrow> True | Internal _ \<Rightarrow> False)"

lemma is_fault_simps [simp]:
  "is_fault (Fault c m s)" "\<not> is_fault (Internal x)"
  by (simp_all add: is_fault_def)

definition Fail :: "string \<Rightarrow> string \<Rightarrow> err" where
  "Fail code message = Fault code message 409"

definition fault_Error :: "err \<Rightarrow> string" where
  "fault_Error e = (case e of Fault c m _ \<Rightarrow> c @ '': '' @ m | Internal m \<Rightarrow> m)"

section \<open>Programs\<close>

text \<open>
  A Go function that works on the state and returns \<open>(value, error)\<close>: it maps a state to a
  value or an error, and to the state it leaves behind (also when it fails: undoing the
  database part is the business of the transaction that runs it).
\<close>

type_synonym ('s, 'a) prog = "'s \<Rightarrow> (err + 'a) \<times> 's"

definition ret :: "'a \<Rightarrow> ('s, 'a) prog" where
  "ret x = (\<lambda>s. (Inr x, s))"

definition throw :: "err \<Rightarrow> ('s, 'a) prog" where
  "throw e = (\<lambda>s. (Inl e, s))"

definition bnd :: "('s, 'a) prog \<Rightarrow> ('a \<Rightarrow> ('s, 'b) prog) \<Rightarrow> ('s, 'b) prog" where
  "bnd m f = (\<lambda>s. case m s of (Inl e, t) \<Rightarrow> (Inl e, t) | (Inr x, t) \<Rightarrow> f x t)"

definition andthen :: "('s, 'a) prog \<Rightarrow> ('s, 'b) prog \<Rightarrow> ('s, 'b) prog" where
  "andthen m k = bnd m (\<lambda>_. k)"

definition gets :: "('s \<Rightarrow> 'a) \<Rightarrow> ('s, 'a) prog" where
  "gets f = (\<lambda>s. (Inr (f s), s))"

definition modify :: "('s \<Rightarrow> 's) \<Rightarrow> ('s, unit) prog" where
  "modify f = (\<lambda>s. (Inr (), f s))"

text \<open>\<open>guard b e\<close> is the idiom \<open>if b { return e }\<close>.\<close>

definition stop_if :: "bool \<Rightarrow> err \<Rightarrow> ('s, unit) prog" where
  "stop_if b e = (if b then throw e else ret ())"

definition of_option :: "err \<Rightarrow> 'a option \<Rightarrow> ('s, 'a) prog" where
  "of_option e x = (case x of None \<Rightarrow> throw e | Some v \<Rightarrow> ret v)"

definition of_sum :: "err + 'a \<Rightarrow> ('s, 'a) prog" where
  "of_sum x = (case x of Inl e \<Rightarrow> throw e | Inr v \<Rightarrow> ret v)"

section \<open>Weakest preconditions\<close>

text \<open>
  \<open>wp m Q E s\<close>: from \<open>s\<close>, program \<open>m\<close> either returns a value and a state in \<open>Q\<close>, or fails
  with an error and a state in \<open>E\<close>. Programs are total functions, so with \<open>E\<close> false this
  states success, with \<open>E\<close> true it states the result of a successful run.
\<close>

definition wp :: "('s, 'a) prog \<Rightarrow> ('a \<Rightarrow> 's \<Rightarrow> bool) \<Rightarrow> (err \<Rightarrow> 's \<Rightarrow> bool) \<Rightarrow> 's \<Rightarrow> bool" where
  "wp m Q E s = (case m s of (Inl e, t) \<Rightarrow> E e t | (Inr x, t) \<Rightarrow> Q x t)"

abbreviation anyerr :: "err \<Rightarrow> 's \<Rightarrow> bool" where
  "anyerr \<equiv> \<lambda>_ _. True"

lemma wp_ret [wp_simps]: "wp (ret x) Q E s = Q x s"
  by (simp add: wp_def ret_def)

lemma wp_throw [wp_simps]: "wp (throw e) Q E s = E e s"
  by (simp add: wp_def throw_def)

lemma wp_bnd [wp_simps]: "wp (bnd m f) Q E s = wp m (\<lambda>x t. wp (f x) Q E t) E s"
  by (auto simp: wp_def bnd_def split: prod.splits sum.splits)

lemma wp_andthen [wp_simps]: "wp (andthen m k) Q E s = wp m (\<lambda>_ t. wp k Q E t) E s"
  by (simp add: andthen_def wp_bnd)

lemma wp_gets [wp_simps]: "wp (gets f) Q E s = Q (f s) s"
  by (simp add: wp_def gets_def)

lemma wp_modify [wp_simps]: "wp (modify f) Q E s = Q () (f s)"
  by (simp add: wp_def modify_def)

lemma wp_stop_if [wp_simps]:
  "wp (stop_if b e) Q E s = ((b \<longrightarrow> E e s) \<and> (\<not> b \<longrightarrow> Q () s))"
  by (simp add: stop_if_def wp_simps)

lemma wp_of_option [wp_simps]:
  "wp (of_option e x) Q E s = ((x = None \<longrightarrow> E e s) \<and> (\<forall>v. x = Some v \<longrightarrow> Q v s))"
  by (cases x) (simp_all add: of_option_def wp_simps)

lemma wp_of_sum [wp_simps]:
  "wp (of_sum x) Q E s = ((\<forall>e. x = Inl e \<longrightarrow> E e s) \<and> (\<forall>v. x = Inr v \<longrightarrow> Q v s))"
  by (cases x) (simp_all add: of_sum_def wp_simps)

lemma wp_if [wp_simps]:
  "wp (if b then m else k) Q E s = ((b \<longrightarrow> wp m Q E s) \<and> (\<not> b \<longrightarrow> wp k Q E s))"
  by simp

lemma wp_case_option [wp_simps]:
  "wp (case x of None \<Rightarrow> m | Some v \<Rightarrow> f v) Q E s =
     ((x = None \<longrightarrow> wp m Q E s) \<and> (\<forall>v. x = Some v \<longrightarrow> wp (f v) Q E s))"
  by (cases x) simp_all

lemma wp_case_sum [wp_simps]:
  "wp (case x of Inl a \<Rightarrow> g a | Inr v \<Rightarrow> f v) Q E s =
     ((\<forall>a. x = Inl a \<longrightarrow> wp (g a) Q E s) \<and> (\<forall>v. x = Inr v \<longrightarrow> wp (f v) Q E s))"
  by (cases x) simp_all

lemma wp_case_prod [wp_simps]:
  "wp (case x of (a, b) \<Rightarrow> f a b) Q E s = (\<forall>a b. x = (a, b) \<longrightarrow> wp (f a b) Q E s)"
  by (cases x) simp_all

lemma wp_Let [wp_simps]: "wp (let x = v in f x) Q E s = wp (f v) Q E s"
  by simp

lemma wp_mono:
  assumes "wp m Q E s"
    and "\<And>x t. Q x t \<Longrightarrow> Q' x t" and "\<And>e t. E e t \<Longrightarrow> E' e t"
  shows "wp m Q' E' s"
  using assms by (auto simp: wp_def split: prod.splits sum.splits)

lemma wp_conj:
  "wp m (\<lambda>x t. Q x t \<and> Q' x t) (\<lambda>e t. E e t \<and> E' e t) s \<longleftrightarrow> wp m Q E s \<and> wp m Q' E' s"
  by (auto simp: wp_def split: prod.splits sum.splits)

lemma wp_result: "wp m Q E s \<Longrightarrow> m s = (Inr x, t) \<Longrightarrow> Q x t"
  by (simp add: wp_def)

lemma wp_error: "wp m Q E s \<Longrightarrow> m s = (Inl e, t) \<Longrightarrow> E e t"
  by (simp add: wp_def)

lemma wpI:
  assumes "\<And>x t. m s = (Inr x, t) \<Longrightarrow> Q x t" and "\<And>e t. m s = (Inl e, t) \<Longrightarrow> E e t"
  shows "wp m Q E s"
  using assms by (auto simp: wp_def split: prod.splits sum.splits)

lemma wp_success: "wp m Q (\<lambda>_ _. False) s \<Longrightarrow> \<exists>x t. m s = (Inr x, t) \<and> Q x t"
  by (auto simp: wp_def split: prod.splits sum.splits)

section \<open>Kept predicates\<close>

text \<open>
  \<open>leads I m J\<close>: a successful run of \<open>m\<close> from \<open>I\<close> ends in \<open>J\<close>; \<open>keeps I m\<close> is the case of an
  invariant. What a value or a guard says is available to the rest of the program.
\<close>

definition leads :: "('s \<Rightarrow> bool) \<Rightarrow> ('s, 'a) prog \<Rightarrow> ('a \<Rightarrow> 's \<Rightarrow> bool) \<Rightarrow> bool" where
  "leads I m J = (\<forall>s. I s \<longrightarrow> wp m J anyerr s)"

abbreviation keeps :: "('s \<Rightarrow> bool) \<Rightarrow> ('s, 'a) prog \<Rightarrow> bool" where
  "keeps I m \<equiv> leads I m (\<lambda>_. I)"

lemma leadsI: "(\<And>s. I s \<Longrightarrow> wp m J anyerr s) \<Longrightarrow> leads I m J"
  by (simp add: leads_def)

lemma leadsD: "leads I m J \<Longrightarrow> I s \<Longrightarrow> wp m J anyerr s"
  by (simp add: leads_def)

lemma leads_result: "leads I m J \<Longrightarrow> I s \<Longrightarrow> m s = (Inr x, t) \<Longrightarrow> J x t"
  using wp_result [OF leadsD] .

lemma leads_bnd:
  assumes "leads I m J" "\<And>x. leads (J x) (f x) K"
  shows "leads I (bnd m f) K"
  using assms unfolding leads_def wp_bnd by (blast intro: wp_mono)

lemma leads_andthen:
  assumes "leads I m (\<lambda>_. J)" "leads J k K"
  shows "leads I (andthen m k) K"
  unfolding andthen_def by (rule leads_bnd [OF assms])

lemma leads_throw: "leads I (throw e) J"
  by (simp add: leads_def wp_throw)

lemma leads_guard:
  "(\<not> b \<Longrightarrow> leads I k K) \<Longrightarrow> leads I (andthen (stop_if b e) k) K"
  by (simp add: leads_def wp_simps)

lemma leads_check:
  "(x = None \<Longrightarrow> leads I k K) \<Longrightarrow>
     leads I (andthen (case x of None \<Rightarrow> ret () | Some e \<Rightarrow> throw e) k) K"
  by (cases x) (simp_all add: leads_def wp_simps)

lemma leads_of_option:
  "(\<And>v. x = Some v \<Longrightarrow> leads I (f v) K) \<Longrightarrow> leads I (bnd (of_option e x) f) K"
  by (simp add: leads_def wp_simps)

lemma leads_gets: "(\<And>v. leads (\<lambda>s. I s \<and> v = g s) (f v) K) \<Longrightarrow> leads I (bnd (gets g) f) K"
  by (simp add: leads_def wp_simps)

lemma leads_if:
  "(b \<Longrightarrow> leads I m J) \<Longrightarrow> (\<not> b \<Longrightarrow> leads I k J) \<Longrightarrow> leads I (if b then m else k) J"
  by simp

lemma leads_case_option:
  "(x = None \<Longrightarrow> leads I m J) \<Longrightarrow> (\<And>v. x = Some v \<Longrightarrow> leads I (f v) J) \<Longrightarrow>
     leads I (case x of None \<Rightarrow> m | Some v \<Rightarrow> f v) J"
  by (cases x) simp_all

lemma leads_case_sum:
  "(\<And>a. x = Inl a \<Longrightarrow> leads I (g a) J) \<Longrightarrow> (\<And>v. x = Inr v \<Longrightarrow> leads I (f v) J) \<Longrightarrow>
     leads I (case x of Inl a \<Rightarrow> g a | Inr v \<Rightarrow> f v) J"
  by (cases x) simp_all

lemma leads_case_prod:
  "(\<And>a b. x = (a, b) \<Longrightarrow> leads I (f a b) J) \<Longrightarrow> leads I (case x of (a, b) \<Rightarrow> f a b) J"
  by (cases x) simp_all

lemma leads_Let: "leads I (f v) J \<Longrightarrow> leads I (let x = v in f x) J"
  by simp

lemma leads_conj:
  assumes "leads I m J" "leads I' m J'"
  shows "leads (\<lambda>s. I s \<and> I' s) m (\<lambda>x s. J x s \<and> J' x s)"
  using assms unfolding leads_def by (auto simp: wp_def split: prod.splits sum.splits)

lemma leads_both: "leads I m J \<Longrightarrow> leads I m J' \<Longrightarrow> leads I m (\<lambda>x s. J x s \<and> J' x s)"
  unfolding leads_def by (auto simp: wp_def split: prod.splits sum.splits)

lemma leads_strengthen: "leads I m J \<Longrightarrow> (\<And>s. I' s \<Longrightarrow> I s) \<Longrightarrow> leads I' m J"
  by (simp add: leads_def)

lemma leads_weaken:
  assumes "leads I m J" "\<And>x s. J x s \<Longrightarrow> K x s"
  shows "leads I m K"
  using assms unfolding leads_def by (blast intro: wp_mono)

lemma keeps_ret: "keeps I (ret x)"
  by (simp add: leads_def wp_ret)

lemma keeps_stop_if: "keeps I (stop_if b e)"
  by (simp add: leads_def wp_stop_if)

lemma keeps_gets: "keeps I (gets g)"
  by (simp add: leads_def wp_gets)

lemma keeps_modify: "(\<And>s. I s \<Longrightarrow> I (f s)) \<Longrightarrow> keeps I (modify f)"
  by (simp add: leads_def wp_modify)

lemma keeps_of_option: "keeps I (of_option e x)"
  by (simp add: leads_def wp_of_option)

lemma keeps_of_sum: "keeps I (of_sum x)"
  by (simp add: leads_def wp_of_sum)

lemma keeps_bnd: "keeps I m \<Longrightarrow> (\<And>x. leads I (f x) K) \<Longrightarrow> leads I (bnd m f) K"
  by (rule leads_bnd)

lemma keeps_andthen: "keeps I m \<Longrightarrow> leads I k K \<Longrightarrow> leads I (andthen m k) K"
  by (rule leads_andthen)

lemma keeps_True: "leads I m (\<lambda>_ _. True)"
  by (simp add: leads_def wp_def split: prod.split sum.split)

lemma leads_ret: "(\<And>s. I s \<Longrightarrow> J x s) \<Longrightarrow> leads I (ret x) J"
  by (simp add: leads_def wp_ret)

lemma leads_ex: "(\<And>a. leads (I a) m K) \<Longrightarrow> leads (\<lambda>w. \<exists>a. I a w) m K"
  by (auto simp: leads_def)

lemma leads_fact: "(A \<Longrightarrow> leads I m K) \<Longrightarrow> leads (\<lambda>w. A \<and> I w) m K"
  by (auto simp: leads_def)

lemma of_sum_bnd: "bnd (of_sum x) f w = (case x of Inl e \<Rightarrow> (Inl e, w) | Inr v \<Rightarrow> f v w)"
  by (cases x) (simp_all add: of_sum_def bnd_def throw_def ret_def)

lemma bnd_ret: "bnd (ret x) f = f x"
  by (simp add: bnd_def ret_def)

lemma andthen_assoc: "andthen m (andthen k n) = andthen (andthen m k) n"
  by (rule ext) (simp add: andthen_def bnd_def split: prod.split sum.split)

text \<open>The rules in the order in which they are tried: guards before sequences.\<close>

lemmas keeps_rules = leads_guard leads_check leads_of_option leads_throw leads_if leads_case_option
  leads_case_sum leads_case_prod leads_Let keeps_ret keeps_stop_if keeps_gets keeps_of_option
  keeps_of_sum keeps_andthen keeps_bnd

section \<open>Machine integers\<close>

text \<open>Go's \<open>int64\<close>: two's complement with wrap-around.\<close>

definition i64 :: "int \<Rightarrow> int" where
  "i64 x = (x + 2 ^ 63) mod 2 ^ 64 - 2 ^ 63"

definition is_i64 :: "int \<Rightarrow> bool" where
  "is_i64 x = (- (2 ^ 63) \<le> x \<and> x < 2 ^ 63)"

lemma i64_id: "is_i64 x \<Longrightarrow> i64 x = x"
  by (simp add: i64_def is_i64_def)

lemma is_i64_i64 [simp]: "is_i64 (i64 x)"
proof -
  have "0 \<le> (x + 2 ^ 63) mod 2 ^ 64" "(x + 2 ^ 63) mod 2 ^ 64 < (2 ^ 64 :: int)"
    by simp_all
  then show ?thesis by (simp add: i64_def is_i64_def)
qed

lemma is_i64_bounds: "is_i64 x \<longleftrightarrow> - 9223372036854775808 \<le> x \<and> x < 9223372036854775808"
  by (simp add: is_i64_def)

text \<open>PostgreSQL's \<open>bigint\<close> arithmetic raises an error where Go wraps.\<close>

definition pg_int8 :: "int \<Rightarrow> int option" where
  "pg_int8 x = (if is_i64 x then Some x else None)"

lemma pg_int8_Some [simp]: "pg_int8 x = Some y \<longleftrightarrow> is_i64 x \<and> y = x"
  by (auto simp: pg_int8_def)

section \<open>Lists as tables\<close>

text \<open>The first row with a given key, as a \<open>select\<close> by primary key returns it.\<close>

definition find_row :: "('r \<Rightarrow> 'k) \<Rightarrow> 'k \<Rightarrow> 'r list \<Rightarrow> 'r option" where
  "find_row key k rs = find (\<lambda>r. key r = k) rs"

text \<open>\<open>update ... where key = k\<close>.\<close>

definition update_rows :: "('r \<Rightarrow> 'k) \<Rightarrow> 'k \<Rightarrow> ('r \<Rightarrow> 'r) \<Rightarrow> 'r list \<Rightarrow> 'r list" where
  "update_rows key k f rs = map (\<lambda>r. if key r = k then f r else r) rs"

lemma find_row_Nil [simp]: "find_row key k [] = None"
  by (simp add: find_row_def)

lemma find_row_Cons [simp]:
  "find_row key k (r # rs) = (if key r = k then Some r else find_row key k rs)"
  by (simp add: find_row_def)

lemma find_row_SomeD: "find_row key k rs = Some r \<Longrightarrow> r \<in> set rs \<and> key r = k"
  by (induction rs) (auto split: if_splits)

lemma find_row_None_iff: "find_row key k rs = None \<longleftrightarrow> k \<notin> key ` set rs"
  by (induction rs) auto

lemma find_row_append:
  "find_row key k (rs @ ss) = (case find_row key k rs of None \<Rightarrow> find_row key k ss | Some r \<Rightarrow> Some r)"
  by (induction rs) auto

lemma find_row_distinct:
  assumes "distinct (map key rs)" "r \<in> set rs"
  shows "find_row key (key r) rs = Some r"
  using assms by (induction rs) (auto simp: rev_image_eqI)

lemma update_rows_Nil [simp]: "update_rows key k f [] = []"
  by (simp add: update_rows_def)

lemma update_rows_Cons [simp]:
  "update_rows key k f (r # rs) = (if key r = k then f r else r) # update_rows key k f rs"
  by (simp add: update_rows_def)

lemma update_rows_append: "update_rows key k f (rs @ ss) = update_rows key k f rs @ update_rows key k f ss"
  by (simp add: update_rows_def)

lemma update_rows_keys:
  assumes "\<And>r. g (f r) = g r"
  shows "map g (update_rows key k f rs) = map g rs"
  using assms by (simp add: update_rows_def)

lemma find_row_update_rows:
  assumes "\<And>r. key (f r) = key r"
  shows "find_row key k (update_rows key j f rs) =
    (if k = j then map_option f (find_row key k rs) else find_row key k rs)"
  using assms by (induction rs) auto

lemma find_row_update_const:
  assumes "key v = k"
  shows "find_row key j (update_rows key k (\<lambda>_. v) rs) =
    (if j = k then map_option (\<lambda>_. v) (find_row key j rs) else find_row key j rs)"
  using assms by (induction rs) auto

lemma update_rows_absent: "k \<notin> key ` set rs \<Longrightarrow> update_rows key k f rs = rs"
  by (induction rs) auto

lemma update_rows_const:
  assumes "distinct (map key rs)" "find_row key k rs = Some r"
  shows "update_rows key k (\<lambda>_. f r) rs = update_rows key k f rs"
  using assms by (induction rs) (auto simp: update_rows_absent)

lemma set_update_rows:
  "set (update_rows key k f rs) = (\<lambda>r. if key r = k then f r else r) ` set rs"
  by (simp add: update_rows_def)

lemma length_update_rows [simp]: "length (update_rows key k f rs) = length rs"
  by (simp add: update_rows_def)

lemma sum_list_update_rows:
  fixes g :: "'r \<Rightarrow> int"
  assumes "distinct (map key rs)" "find_row key k rs = Some r"
  shows "(\<Sum>x\<leftarrow>update_rows key k f rs. g x) = (\<Sum>x\<leftarrow>rs. g x) - g r + g (f r)"
  using assms
proof (induction rs)
  case Nil
  then show ?case by simp
next
  case (Cons a rs)
  show ?case
  proof (cases "key a = k")
    case True
    with Cons.prems have "k \<notin> key ` set rs" and "a = r" by auto
    with True show ?thesis by (simp add: update_rows_absent)
  next
    case False
    with Cons show ?thesis by simp
  qed
qed

lemma sum_list_filter_update_other:
  assumes "\<And>r. r \<in> set rs \<Longrightarrow> key r = k \<Longrightarrow> h (f r) = (h r :: int)"
  shows "(\<Sum>x\<leftarrow>update_rows key k f rs. h x) = (\<Sum>x\<leftarrow>rs. h x)"
  using assms by (induction rs) auto

lemma sum_list_nonneg_int:
  "(\<And>x. x \<in> set xs \<Longrightarrow> 0 \<le> (f x :: int)) \<Longrightarrow> 0 \<le> (\<Sum>x\<leftarrow>xs. f x)"
  by (induction xs) auto

section \<open>Tables that only move forward\<close>

text \<open>
  \<open>grown R rs rs'\<close>: the rows of \<open>rs\<close> are still there, in place and each related by \<open>R\<close> to what it
  was; new rows come after them. For an order \<open>R\<close> on the rows this is kept by appending and by
  updates that move one row along \<open>R\<close>.
\<close>

definition grown :: "('r \<Rightarrow> 'r \<Rightarrow> bool) \<Rightarrow> 'r list \<Rightarrow> 'r list \<Rightarrow> bool" where
  "grown R rs rs' = (length rs \<le> length rs' \<and> list_all2 R rs (take (length rs) rs'))"

locale row_order =
  fixes R :: "'r \<Rightarrow> 'r \<Rightarrow> bool" and key :: "'r \<Rightarrow> 'k"
  assumes R_refl: "R r r"
    and R_trans: "R a b \<Longrightarrow> R b c \<Longrightarrow> R a c"
begin

lemma grown_refl: "grown R rs rs"
  by (simp add: grown_def list_all2_refl R_refl)

lemma grown_append: "grown R rs ss \<Longrightarrow> grown R rs (ss @ ts)"
  by (auto simp: grown_def)

lemma grown_trans:
  assumes "grown R a b" "list_all2 R b c"
  shows "grown R a c"
proof -
  have l: "length c = length b" using assms(2) by (simp add: list_all2_lengthD)
  have "list_all2 R (take (length a) b) (take (length a) c)"
    by (rule list_all2_takeI [OF assms(2)])
  then have "list_all2 R a (take (length a) c)"
    using assms(1) R_trans list_all2_trans [of R R R] unfolding grown_def by blast
  with assms(1) l show ?thesis by (simp add: grown_def)
qed

lemma grown_map:
  assumes "grown R rs ss" "\<And>r. r \<in> set ss \<Longrightarrow> R r (f r)"
  shows "grown R rs (map f ss)"
  by (rule grown_trans [OF assms(1)]) (simp add: list_all2_conv_all_nth assms(2))

lemma grown_update:
  assumes "grown R rs ss" "\<And>r. r \<in> set ss \<Longrightarrow> key r = k \<Longrightarrow> R r (f r)"
  shows "grown R rs (update_rows key k f ss)"
  unfolding update_rows_def by (rule grown_map [OF assms(1)]) (simp add: assms(2) R_refl)

lemma grown_found:
  assumes "grown R rs rs'" "r \<in> set rs"
  shows "\<exists>r' \<in> set rs'. R r r'"
  using assms unfolding grown_def list_all2_conv_all_nth
  by (metis in_set_conv_nth in_set_takeD nth_mem)

end

end
