(* ===== verification/Float64.thy ===== *)
theory Float64
  imports WMS_Prelude Complex_Main "HOL-Library.Log_Nat"
begin

text \<open>
  Go's \<open>float64\<close>: IEEE 754 binary64 with round-to-nearest-even, executable over the
  rationals. A finite value is the rational it denotes, so the two zeros are one value: the
  code never divides by a negative zero and never prints one, so it cannot tell them apart.
  The arithmetic of the weights, volumes, scores and occupancies of the services is this one.
\<close>

section \<open>Powers of two and binary logarithm\<close>

definition pow2 :: "int \<Rightarrow> rat" where
  "pow2 n = (if 0 \<le> n then 2 ^ nat n else 1 / 2 ^ nat (- n))"

lemma pow2_powi: "pow2 n = 2 powi n"
  by (simp add: pow2_def power_int_def inverse_eq_divide power_one_over)

lemma pow2_pos [simp]: "0 < pow2 n"
  by (simp add: pow2_def)

lemma pow2_nonzero [simp]: "pow2 n \<noteq> 0"
  using pow2_pos [of n] by linarith

lemma pow2_add: "pow2 (a + b) = pow2 a * pow2 b"
  by (simp add: pow2_powi power_int_add)

lemma pow2_0 [simp]: "pow2 0 = 1"
  by (simp add: pow2_def)

lemma pow2_nat: "pow2 (int n) = 2 ^ n"
  by (simp add: pow2_def)

lemma pow2_diff: "pow2 (a - b) = pow2 a / pow2 b"
  using pow2_add [of "a - b" b] by (simp add: field_simps)

lemma pow2_mono: "a \<le> b \<Longrightarrow> pow2 a \<le> pow2 b"
  by (simp add: pow2_powi power_int_increasing)

lemma pow2_less_iff: "pow2 a < pow2 b \<longleftrightarrow> a < b"
  by (metis linorder_not_le pow2_mono pow2_powi power_int_strict_increasing one_less_numeral_iff
      semiring_norm(76))

text \<open>Exponent of the leading binary digit of a positive rational.\<close>

definition ilog2 :: "rat \<Rightarrow> int" where
  "ilog2 x = (case quotient_of x of (p, q) \<Rightarrow>
     let k = bitlen p - bitlen q in if pow2 k \<le> x then k else k - 1)"

lemma bitlen_pow2:
  assumes "0 < p"
  shows "pow2 (bitlen p - 1) \<le> of_int p" and "of_int p < pow2 (bitlen p)"
proof -
  have b: "2 ^ nat (bitlen p - 1) \<le> p" "p < 2 ^ nat (bitlen p)"
    using bitlen_bounds [OF assms] by auto
  have pos: "1 \<le> bitlen p"
    using assms by (metis bitlen_eq_zero_iff bitlen_nonneg int_one_le_iff_zero_less
        le_less linorder_not_less)
  have "pow2 (bitlen p - 1) = of_int (2 ^ nat (bitlen p - 1))"
    using pos by (simp add: pow2_def)
  also have "\<dots> \<le> of_int p" using b(1) by (simp only: of_int_le_iff)
  finally show "pow2 (bitlen p - 1) \<le> of_int p" .
  have "of_int p < (of_int (2 ^ nat (bitlen p)) :: rat)" using b(2) by (simp only: of_int_less_iff)
  also have "\<dots> = pow2 (bitlen p)" using pos by (simp add: pow2_def)
  finally show "of_int p < pow2 (bitlen p)" .
qed

lemma ilog2_bounds:
  assumes "0 < x"
  shows "pow2 (ilog2 x) \<le> x" and "x < pow2 (ilog2 x + 1)"
proof -
  obtain p q where pq: "quotient_of x = (p, q)" by (cases "quotient_of x")
  have q: "0 < q" using quotient_of_denom_pos [OF pq] .
  have x: "x = of_int p / of_int q" using quotient_of_div [OF pq] .
  have p: "0 < p" using assms q by (simp add: x zero_less_divide_iff)
  let ?k = "bitlen p - bitlen q"
  have up: "x < pow2 (?k + 1)"
  proof -
    have "x < pow2 (bitlen p) / of_int q"
      using bitlen_pow2(2) [OF p] q by (simp add: x divide_strict_right_mono)
    also have "\<dots> \<le> pow2 (bitlen p) / pow2 (bitlen q - 1)"
      using bitlen_pow2(1) [OF q] q by (intro divide_left_mono) (auto simp: less_imp_le)
    also have "\<dots> = pow2 (bitlen p - (bitlen q - 1))"
      by (rule pow2_diff [symmetric])
    also have "bitlen p - (bitlen q - 1) = ?k + 1" by simp
    finally show ?thesis .
  qed
  have low: "pow2 (?k - 1) \<le> x"
  proof -
    have "pow2 (?k - 1) = pow2 ((bitlen p - 1) - bitlen q)" by (simp add: algebra_simps)
    also have "\<dots> = pow2 (bitlen p - 1) / pow2 (bitlen q)" by (rule pow2_diff)
    also have "\<dots> \<le> of_int p / of_int q"
      using bitlen_pow2(1) [OF p] bitlen_pow2(2) [OF q] q p
      by (intro frac_le) auto
    finally show ?thesis by (simp add: x)
  qed
  show "pow2 (ilog2 x) \<le> x" using low by (simp add: ilog2_def pq Let_def)
  show "x < pow2 (ilog2 x + 1)" using up by (simp add: ilog2_def pq Let_def)
qed

lemma ilog2_leI:
  assumes "0 < x" "x < pow2 (n + 1)"
  shows "ilog2 x \<le> n"
proof -
  have "pow2 (ilog2 x) < pow2 (n + 1)"
    using ilog2_bounds(1) [OF assms(1)] assms(2) by linarith
  then show ?thesis by (simp add: pow2_less_iff)
qed

lemma ilog2_mono:
  assumes "0 < x" "x \<le> y"
  shows "ilog2 x \<le> ilog2 y"
  using assms ilog2_bounds(2) [of y] by (intro ilog2_leI) auto

section \<open>Rounding to nearest, ties to even\<close>

definition rhe :: "rat \<Rightarrow> int" where
  "rhe x = (let f = \<lfloor>x\<rfloor>; d = x - of_int f in
     if d < 1 / 2 then f else if 1 / 2 < d then f + 1 else if even f then f else f + 1)"

lemma rhe_bounds: "\<lfloor>x\<rfloor> \<le> rhe x" "rhe x \<le> \<lfloor>x\<rfloor> + 1"
  by (simp_all add: rhe_def Let_def)

lemma rhe_of_int [simp]: "rhe (of_int n) = n"
  by (simp add: rhe_def Let_def)

lemma rhe_mono:
  assumes "x \<le> y" shows "rhe x \<le> rhe y"
proof (cases "\<lfloor>x\<rfloor> = \<lfloor>y\<rfloor>")
  case True
  then show ?thesis using assms by (auto simp: rhe_def Let_def)
next
  case False
  with assms have "\<lfloor>x\<rfloor> + 1 \<le> \<lfloor>y\<rfloor>" using floor_mono [OF assms] by linarith
  then show ?thesis using rhe_bounds(2) [of x] rhe_bounds(1) [of y] by linarith
qed

lemma rhe_error: "\<bar>of_int (rhe x) - x\<bar> \<le> 1 / 2"
proof -
  have "of_int \<lfloor>x\<rfloor> \<le> x" "x < of_int \<lfloor>x\<rfloor> + 1" by linarith+
  then show ?thesis unfolding rhe_def Let_def abs_le_iff
    by (simp split: if_splits) linarith?
qed

text \<open>
  The spacing of the binary64 numbers around a positive \<open>x\<close> is \<open>2\<close> to this exponent: 53
  significant bits, down to the subnormal spacing \<open>2\<close> to the \<open>-1074\<close>.
\<close>

definition quantum :: "rat \<Rightarrow> int" where
  "quantum x = max (ilog2 x) (- 1022) - 52"

definition rnd_pos :: "rat \<Rightarrow> rat" where
  "rnd_pos x = of_int (rhe (x / pow2 (quantum x))) * pow2 (quantum x)"

definition rnd :: "rat \<Rightarrow> rat" where
  "rnd x = (if x = 0 then 0 else if 0 < x then rnd_pos x else - rnd_pos (- x))"

lemma rnd_0 [simp]: "rnd 0 = 0"
  by (simp add: rnd_def)

lemma rnd_minus: "rnd (- x) = - rnd x"
  by (simp add: rnd_def)

lemma rhe_nonneg: "0 \<le> x \<Longrightarrow> 0 \<le> rhe x"
  using rhe_mono [of 0 x] rhe_of_int [of 0] by simp

lemma rnd_pos_nonneg: "0 < x \<Longrightarrow> 0 \<le> rnd_pos x"
  unfolding rnd_pos_def
  by (intro mult_nonneg_nonneg) (simp_all add: rhe_nonneg less_imp_le)

text \<open>Integers times a power of two not below the spacing are kept.\<close>

lemma rnd_pos_grid:
  assumes "0 < x" "x = of_int m * pow2 q" "quantum x \<le> q"
  shows "rnd_pos x = x"
proof -
  let ?g = "quantum x"
  have "x / pow2 ?g = of_int m * pow2 (q - ?g)"
    by (simp add: assms(2) pow2_diff)
  also have "pow2 (q - ?g) = of_int (2 ^ nat (q - ?g))"
    using assms(3) by (simp add: pow2_def)
  finally have i: "x / pow2 ?g = of_int (m * 2 ^ nat (q - ?g))" by simp
  have "rnd_pos x = of_int (m * 2 ^ nat (q - ?g)) * pow2 ?g"
    unfolding rnd_pos_def i rhe_of_int ..
  also have "\<dots> = x" using i by (metis nonzero_eq_divide_eq pow2_nonzero)
  finally show ?thesis .
qed

lemma quantum_le_pow2:
  assumes "- 1022 \<le> n" shows "quantum (pow2 n) \<le> n - 52"
proof -
  have "ilog2 (pow2 n) \<le> n"
    by (rule ilog2_leI) (simp_all add: pow2_less_iff)
  then show ?thesis using assms by (simp add: quantum_def)
qed

lemma rnd_pos_pow2: "- 1022 \<le> n \<Longrightarrow> rnd_pos (pow2 n) = pow2 n"
  using quantum_le_pow2 [of n]
  by (intro rnd_pos_grid [of _ 1 n]) auto

text \<open>Within one spacing the rounding is monotone.\<close>

lemma rnd_pos_mono_same:
  assumes "x \<le> y" "quantum x = quantum y"
  shows "rnd_pos x \<le> rnd_pos y"
proof -
  have "rhe (x / pow2 (quantum y)) \<le> rhe (y / pow2 (quantum y))"
    using assms(1) by (intro rhe_mono divide_right_mono) (auto simp: less_imp_le)
  then show ?thesis unfolding rnd_pos_def assms(2)
    by (intro mult_right_mono) (auto simp: less_imp_le)
qed

text \<open>Rounding stays below the next power of two, and above the last one.\<close>

lemma rnd_pos_le_pow2:
  assumes "0 < x" "x \<le> pow2 n" "quantum x \<le> n"
  shows "rnd_pos x \<le> pow2 n"
proof -
  let ?g = "quantum x"
  have "x / pow2 ?g \<le> pow2 n / pow2 ?g"
    using assms(2) by (intro divide_right_mono) (auto simp: less_imp_le)
  also have "pow2 n / pow2 ?g = of_int (2 ^ nat (n - ?g))"
    using assms(3) by (simp add: pow2_diff [symmetric]) (simp add: pow2_def)
  finally have "rhe (x / pow2 ?g) \<le> 2 ^ nat (n - ?g)"
    using rhe_mono rhe_of_int by metis
  then have "(of_int (rhe (x / pow2 ?g)) :: rat) \<le> of_int (2 ^ nat (n - ?g))"
    by (simp only: of_int_le_iff)
  also have "\<dots> = pow2 (n - ?g)" using assms(3) by (simp add: pow2_def)
  finally have "rnd_pos x \<le> pow2 (n - ?g) * pow2 ?g"
    unfolding rnd_pos_def by (intro mult_right_mono) (auto simp: less_imp_le)
  then show ?thesis by (simp add: pow2_add [symmetric])
qed

lemma rnd_pos_ge_pow2:
  assumes "0 < x" "pow2 n \<le> x" "quantum x \<le> n"
  shows "pow2 n \<le> rnd_pos x"
proof -
  let ?g = "quantum x"
  have "of_int (2 ^ nat (n - ?g)) = pow2 n / pow2 ?g"
    using assms(3) by (simp add: pow2_diff [symmetric]) (simp add: pow2_def)
  also have "\<dots> \<le> x / pow2 ?g"
    using assms(2) by (intro divide_right_mono) (auto simp: less_imp_le)
  finally have "2 ^ nat (n - ?g) \<le> rhe (x / pow2 ?g)"
    using rhe_mono rhe_of_int by metis
  then have "of_int (2 ^ nat (n - ?g)) \<le> (of_int (rhe (x / pow2 ?g)) :: rat)"
    by (simp only: of_int_le_iff)
  moreover have "(of_int (2 ^ nat (n - ?g)) :: rat) = pow2 (n - ?g)"
    using assms(3) by (simp add: pow2_def)
  ultimately have "pow2 (n - ?g) \<le> of_int (rhe (x / pow2 ?g))" by (simp only:)
  then have "pow2 (n - ?g) * pow2 ?g \<le> rnd_pos x"
    unfolding rnd_pos_def by (rule mult_right_mono) (simp add: less_imp_le)
  then show ?thesis by (simp add: pow2_add [symmetric])
qed

lemma rnd_pos_mono:
  assumes "0 < x" "x \<le> y" shows "rnd_pos x \<le> rnd_pos y"
proof (cases "quantum x = quantum y")
  case True
  with assms(2) show ?thesis by (rule rnd_pos_mono_same)
next
  case False
  have ly: "ilog2 x \<le> ilog2 y" using ilog2_mono [OF assms] .
  with False have e: "ilog2 x < ilog2 y" "- 1022 < ilog2 y"
    by (auto simp: quantum_def max_def split: if_splits)
  let ?n = "ilog2 y"
  have y: "pow2 ?n \<le> rnd_pos y"
    using assms e by (intro rnd_pos_ge_pow2 ilog2_bounds(1)) (auto simp: quantum_def)
  have "x < pow2 (ilog2 x + 1)" by (rule ilog2_bounds(2) [OF assms(1)])
  also have "\<dots> \<le> pow2 ?n" using e by (intro pow2_mono) simp
  finally have "x \<le> pow2 ?n" by simp
  then have "rnd_pos x \<le> pow2 ?n"
    using assms(1) e by (intro rnd_pos_le_pow2) (auto simp: quantum_def)
  with y show ?thesis by linarith
qed

lemma rnd_mono: assumes "x \<le> y" shows "rnd x \<le> rnd y"
proof -
  consider "0 < x" | "x \<le> 0" "0 \<le> y" | "y < 0" by linarith
  then show ?thesis
  proof cases
    case 1
    with assms show ?thesis by (simp add: rnd_def rnd_pos_mono)
  next
    case 2
    then show ?thesis
      using rnd_pos_nonneg [of "- x"] rnd_pos_nonneg [of y] by (auto simp: rnd_def)
  next
    case 3
    with assms show ?thesis by (simp add: rnd_def rnd_pos_mono)
  qed
qed

text \<open>A dyadic number with at most 53 significant bits above the subnormal spacing is kept.\<close>

lemma rnd_dyadic:
  assumes "\<bar>m\<bar> \<le> 2 ^ 53" "- 1074 \<le> q"
  shows "rnd (of_int m * pow2 q) = of_int m * pow2 q"
proof -
  have pos: "rnd_pos (of_int n * pow2 q) = of_int n * pow2 q" if n: "0 < n" "n \<le> 2 ^ 53" for n
  proof (cases "n = 2 ^ 53")
    case True
    then have "of_int n * pow2 q = pow2 (53 + q)"
      by (simp add: pow2_add) (simp add: pow2_def)
    then show ?thesis using assms(2) by (simp add: rnd_pos_pow2)
  next
    case False
    let ?x = "of_int n * pow2 q"
    have x: "0 < ?x" using n by simp
    have "n \<le> 2 ^ 53 - 1" using n False by linarith
    then have "of_int n < (of_int (2 ^ 53) :: rat)" by (simp only: of_int_less_iff)
    also have "\<dots> = pow2 53" by (simp add: pow2_def)
    finally have "?x < pow2 53 * pow2 q" by (intro mult_strict_right_mono) auto
    then have "?x < pow2 (q + 52 + 1)" by (simp add: pow2_add [symmetric] add.commute)
    with x have "ilog2 ?x \<le> q + 52" by (rule ilog2_leI)
    then have "quantum ?x \<le> q" using assms(2) by (simp add: quantum_def)
    with x show ?thesis by (intro rnd_pos_grid [of _ n q]) auto
  qed
  consider "m = 0" | "0 < m" | "m < 0" by linarith
  then show ?thesis
  proof cases
    case 1
    then show ?thesis by simp
  next
    case 2
    then show ?thesis using pos [of m] assms(1) by (simp add: rnd_def)
  next
    case 3
    then have "rnd_pos (of_int (- m) * pow2 q) = of_int (- m) * pow2 q"
      using assms(1) by (intro pos) auto
    moreover have "of_int m * pow2 q < 0" using 3 by (simp add: mult_neg_pos)
    ultimately show ?thesis by (simp add: rnd_def)
  qed
qed

lemma rnd_int: "\<bar>n\<bar> \<le> 2 ^ 53 \<Longrightarrow> rnd (of_int n) = of_int n"
  using rnd_dyadic [of n 0] by simp

text \<open>The rounding is idempotent: its results are on the grid of their own spacing.\<close>

lemma ilog2_rnd_bound:
  assumes "0 < x"
  shows "rhe (x / pow2 (quantum x)) \<le> 2 ^ 53" and "- 1074 \<le> quantum x"
proof -
  let ?g = "quantum x"
  have "x < pow2 (ilog2 x + 1)" by (rule ilog2_bounds(2) [OF assms])
  also have "\<dots> \<le> pow2 (?g + 53)" by (intro pow2_mono) (simp add: quantum_def)
  finally have "x / pow2 ?g \<le> pow2 (?g + 53) / pow2 ?g"
    by (intro divide_right_mono) (auto simp: less_imp_le)
  also have "\<dots> = of_int (2 ^ 53)" by (simp add: pow2_add) (simp add: pow2_def)
  finally show "rhe (x / pow2 ?g) \<le> 2 ^ 53" using rhe_mono rhe_of_int by metis
  show "- 1074 \<le> ?g" by (simp add: quantum_def)
qed

lemma rnd_idem: "rnd (rnd x) = rnd x"
proof -
  have pos: "rnd (rnd_pos y) = rnd_pos y" if "0 < y" for y
    unfolding rnd_pos_def using that ilog2_rnd_bound [OF that] rhe_nonneg [of "y / pow2 (quantum y)"]
    by (intro rnd_dyadic) (auto simp: less_imp_le)
  consider "x = 0" | "0 < x" | "x < 0" by linarith
  then show ?thesis
  proof cases
    case 3
    then show ?thesis using pos [of "- x"] rnd_minus [of "rnd_pos (- x)"] by (simp add: rnd_def)
  qed (simp_all add: rnd_def pos [unfolded rnd_def])
qed

section \<open>The interface of a rounding\<close>

text \<open>
  What the ledger and score arguments use of the rounding: it is monotone, odd and keeps zero.
  Everything they need about signs and bounds follows from that.
\<close>

locale rounding =
  fixes rd :: "rat \<Rightarrow> rat"
  assumes rd_mono: "x \<le> y \<Longrightarrow> rd x \<le> rd y"
    and rd_odd: "rd (- x) = - rd x"
    and rd_idem: "rd (rd x) = rd x"
begin

lemma rd_zero: "rd 0 = 0"
  using rd_odd [of 0] by simp

lemma rd_nonneg: "0 \<le> x \<Longrightarrow> 0 \<le> rd x"
  using rd_mono [of 0 x] by (simp add: rd_zero)

lemma rd_nonpos: "x \<le> 0 \<Longrightarrow> rd x \<le> 0"
  using rd_mono [of x 0] by (simp add: rd_zero)

lemma rd_add_ge: "rd w = w \<Longrightarrow> 0 \<le> p \<Longrightarrow> w \<le> rd (w + p)"
  using rd_mono [of w "w + p"] by simp

lemma rd_add_le: "rd w = w \<Longrightarrow> p \<le> 0 \<Longrightarrow> rd (w + p) \<le> w"
  using rd_mono [of "w + p" w] by simp

lemma rd_between: "rd a = a \<Longrightarrow> rd b = b \<Longrightarrow> a \<le> x \<Longrightarrow> x \<le> b \<Longrightarrow> a \<le> rd x \<and> rd x \<le> b"
  using rd_mono [of a x] rd_mono [of x b] by simp

end

text \<open>A rounding that keeps the integers of some range adds and multiplies them exactly.\<close>

locale exact_rounding = rounding +
  fixes bound :: int
  assumes rd_int: "\<bar>n\<bar> \<le> bound \<Longrightarrow> rd (of_int n) = of_int n"
begin

lemma rd_int_add: "\<bar>a + b\<bar> \<le> bound \<Longrightarrow> rd (of_int a + of_int b) = of_int (a + b)"
  using rd_int [of "a + b"] by simp

lemma rd_int_mult: "\<bar>a * b\<bar> \<le> bound \<Longrightarrow> rd (of_int a * of_int b) = of_int (a * b)"
  using rd_int [of "a * b"] by simp

end

interpretation f64r: exact_rounding rnd "2 ^ 53"
  by unfold_locales (auto simp: rnd_mono rnd_minus rnd_idem rnd_int)

section \<open>Values and operations\<close>

datatype f64 = NaN | PInf | NInf | Fin rat

text \<open>Rounding with overflow to an infinity.\<close>

definition rne :: "rat \<Rightarrow> f64" where
  "rne x = (let r = rnd x in
     if 2 ^ 1024 \<le> r then PInf else if r \<le> - (2 ^ 1024) then NInf else Fin r)"

definition fneg :: "f64 \<Rightarrow> f64" where
  "fneg a = (case a of NaN \<Rightarrow> NaN | PInf \<Rightarrow> NInf | NInf \<Rightarrow> PInf | Fin x \<Rightarrow> Fin (- x))"

fun fadd :: "f64 \<Rightarrow> f64 \<Rightarrow> f64" where
  "fadd (Fin x) (Fin y) = rne (x + y)"
| "fadd NaN _ = NaN"
| "fadd _ NaN = NaN"
| "fadd PInf NInf = NaN"
| "fadd NInf PInf = NaN"
| "fadd PInf _ = PInf"
| "fadd _ PInf = PInf"
| "fadd NInf _ = NInf"
| "fadd _ NInf = NInf"

definition fsub :: "f64 \<Rightarrow> f64 \<Rightarrow> f64" where
  "fsub a b = fadd a (fneg b)"

definition inf_of_sign :: "rat \<Rightarrow> f64" where
  "inf_of_sign x = (if x = 0 then NaN else if 0 < x then PInf else NInf)"

fun fmul :: "f64 \<Rightarrow> f64 \<Rightarrow> f64" where
  "fmul (Fin x) (Fin y) = rne (x * y)"
| "fmul NaN _ = NaN"
| "fmul _ NaN = NaN"
| "fmul PInf PInf = PInf"
| "fmul PInf NInf = NInf"
| "fmul NInf PInf = NInf"
| "fmul NInf NInf = PInf"
| "fmul PInf (Fin y) = inf_of_sign y"
| "fmul NInf (Fin y) = inf_of_sign (- y)"
| "fmul (Fin x) PInf = inf_of_sign x"
| "fmul (Fin x) NInf = inf_of_sign (- x)"

text \<open>Division; the zero divisor is the positive zero.\<close>

fun fdiv :: "f64 \<Rightarrow> f64 \<Rightarrow> f64" where
  "fdiv (Fin x) (Fin y) = (if y = 0 then inf_of_sign x else rne (x / y))"
| "fdiv NaN _ = NaN"
| "fdiv _ NaN = NaN"
| "fdiv PInf (Fin y) = (if y < 0 then NInf else PInf)"
| "fdiv NInf (Fin y) = (if y < 0 then PInf else NInf)"
| "fdiv (Fin _) _ = Fin 0"
| "fdiv _ _ = NaN"

text \<open>Comparisons are false on NaN.\<close>

fun flt :: "f64 \<Rightarrow> f64 \<Rightarrow> bool" where
  "flt (Fin x) (Fin y) = (x < y)"
| "flt NaN _ = False"
| "flt _ NaN = False"
| "flt PInf _ = False"
| "flt _ NInf = False"
| "flt _ _ = True"

fun feq :: "f64 \<Rightarrow> f64 \<Rightarrow> bool" where
  "feq NaN _ = False"
| "feq _ NaN = False"
| "feq a b = (a = b)"

definition fgt :: "f64 \<Rightarrow> f64 \<Rightarrow> bool" where
  "fgt a b = flt b a"

definition fle :: "f64 \<Rightarrow> f64 \<Rightarrow> bool" where
  "fle a b = (flt a b \<or> feq a b)"

text \<open>\<open>math.Max\<close> and \<open>math.Min\<close>, with Go's special cases in Go's order.\<close>

definition fmax :: "f64 \<Rightarrow> f64 \<Rightarrow> f64" where
  "fmax a b = (if a = PInf \<or> b = PInf then PInf else if a = NaN \<or> b = NaN then NaN
     else if flt b a then a else b)"

definition fmin :: "f64 \<Rightarrow> f64 \<Rightarrow> f64" where
  "fmin a b = (if a = NInf \<or> b = NInf then NInf else if a = NaN \<or> b = NaN then NaN
     else if flt a b then a else b)"

text \<open>\<open>float64(n)\<close> of an \<open>int64\<close>.\<close>

definition f64_of_int :: "int \<Rightarrow> f64" where
  "f64_of_int n = rne (of_int n)"

fun is_fin :: "f64 \<Rightarrow> bool" where
  "is_fin (Fin _) = True"
| "is_fin _ = False"

lemma is_fin_iff: "is_fin a \<longleftrightarrow> (\<exists>x. a = Fin x)"
  by (cases a) auto

text \<open>A stored value: finite and on the binary64 grid.\<close>

definition valid_f64 :: "f64 \<Rightarrow> bool" where
  "valid_f64 a = (case a of Fin x \<Rightarrow> rnd x = x \<and> \<bar>x\<bar> < 2 ^ 1024 | _ \<Rightarrow> False)"

subsection \<open>Facts about the operations\<close>

lemma rne_cases:
  obtains "rne x = PInf" "2 ^ 1024 \<le> rnd x"
  | "rne x = NInf" "rnd x \<le> - (2 ^ 1024)"
  | "rne x = Fin (rnd x)" "\<bar>rnd x\<bar> < 2 ^ 1024"
  by (cases "2 ^ 1024 \<le> rnd x"; cases "rnd x \<le> - (2 ^ 1024)")
    (auto simp: rne_def Let_def abs_less_iff)

lemma rne_Fin: "rne x = Fin r \<longleftrightarrow> r = rnd x \<and> \<bar>rnd x\<bar> < 2 ^ 1024"
  by (cases x rule: rne_cases) auto

lemma rne_not_NaN [simp]: "rne x \<noteq> NaN"
  by (cases x rule: rne_cases) auto

lemma rne_valid: "rne x = Fin r \<Longrightarrow> valid_f64 (Fin r)"
  by (auto simp: rne_Fin valid_f64_def rnd_idem)

lemma rne_int: "\<bar>n\<bar> \<le> 2 ^ 53 \<Longrightarrow> rne (of_int n) = Fin (of_int n)"
proof -
  assume n: "\<bar>n\<bar> \<le> 2 ^ 53"
  have "\<bar>n\<bar> < (2 ^ 1024 :: int)" using n by (rule le_less_trans) simp
  then have "\<bar>of_int n\<bar> < (of_int (2 ^ 1024) :: rat)" by (simp only: of_int_abs [symmetric] of_int_less_iff)
  then show ?thesis using n by (simp add: rne_Fin rnd_int)
qed

lemma rne_nonneg: "0 \<le> x \<Longrightarrow> rne x \<noteq> NInf"
proof
  assume "0 \<le> x" "rne x = NInf"
  then have "rnd x \<le> - (2 ^ 1024)" by (cases x rule: rne_cases) auto
  moreover have "(0 :: rat) < 2 ^ 1024" by simp
  ultimately show False using f64r.rd_nonneg [OF \<open>0 \<le> x\<close>] by linarith
qed

lemma rne_nonpos: "x \<le> 0 \<Longrightarrow> rne x \<noteq> PInf"
proof
  assume "x \<le> 0" "rne x = PInf"
  then have "2 ^ 1024 \<le> rnd x" by (cases x rule: rne_cases) auto
  moreover have "(0 :: rat) < 2 ^ 1024" by simp
  ultimately show False using f64r.rd_nonpos [OF \<open>x \<le> 0\<close>] by linarith
qed

lemma f64_of_int_small: "\<bar>n\<bar> \<le> 2 ^ 53 \<Longrightarrow> f64_of_int n = Fin (of_int n)"
  by (simp add: f64_of_int_def rne_int)

lemma rnd_i64_bound:
  assumes "\<bar>n\<bar> \<le> 2 ^ 63" shows "\<bar>rnd (of_int n)\<bar> \<le> 2 ^ 63"
proof -
  have g: "rnd (2 ^ 63) = 2 ^ 63"
    using rnd_dyadic [of 1 63] by (simp add: pow2_def)
  have "\<bar>of_int n\<bar> \<le> (of_int (2 ^ 63) :: rat)" using assms by (simp only: of_int_abs [symmetric] of_int_le_iff)
  then have "of_int n \<le> (2 ^ 63 :: rat)" "- (2 ^ 63) \<le> (of_int n :: rat)" by (auto simp: abs_le_iff)
  then show ?thesis
    using f64r.rd_between [of "- (2 ^ 63)" "2 ^ 63" "of_int n"] g rnd_minus [of "2 ^ 63"]
    by (simp add: abs_le_iff)
qed

lemma f64_of_int_fin:
  assumes "is_i64 n"
  shows "f64_of_int n = Fin (rnd (of_int n))"
proof -
  have "\<bar>n\<bar> \<le> 2 ^ 63" using assms by (auto simp: is_i64_def)
  then have "\<bar>rnd (of_int n)\<bar> \<le> (2 ^ 63 :: rat)" by (rule rnd_i64_bound)
  also have "(2 ^ 63 :: rat) < 2 ^ 1024" by simp
  finally show ?thesis by (simp add: f64_of_int_def rne_Fin)
qed

lemma valid_f64_of_int: "is_i64 n \<Longrightarrow> valid_f64 (f64_of_int n)"
  using f64_of_int_fin rne_valid unfolding f64_of_int_def by metis

lemma flt_irrefl [simp]: "\<not> flt a a"
  by (cases a) auto

lemma flt_trans: "flt a b \<Longrightarrow> flt b c \<Longrightarrow> flt a c"
  by (cases a; cases b; cases c) auto

lemma flt_total: "a \<noteq> NaN \<Longrightarrow> b \<noteq> NaN \<Longrightarrow> flt a b \<or> a = b \<or> flt b a"
  by (cases a; cases b) auto

lemma feq_iff: "feq a b \<longleftrightarrow> a \<noteq> NaN \<and> a = b"
  by (cases a; cases b) auto

lemma fle_Fin [simp]: "fle (Fin x) (Fin y) = (x \<le> y)"
  by (auto simp: fle_def)

lemma not_fgt: "a \<noteq> NaN \<Longrightarrow> b \<noteq> NaN \<Longrightarrow> \<not> fgt a b \<longleftrightarrow> fle a b"
  by (cases a; cases b) (auto simp: fle_def fgt_def)

lemma fmax_zero_fin: "fmax (Fin 0) (Fin x) = Fin (max 0 x)"
  by (auto simp: fmax_def)

lemma valid_f64_Fin: "valid_f64 (Fin x) \<longleftrightarrow> rnd x = x \<and> \<bar>x\<bar> < 2 ^ 1024"
  by (simp add: valid_f64_def)

lemma valid_f64_iff: "valid_f64 a \<longleftrightarrow> (\<exists>x. a = Fin x \<and> rnd x = x \<and> \<bar>x\<bar> < 2 ^ 1024)"
  by (cases a) (auto simp: valid_f64_def)

lemma valid_f64_zero [simp]: "valid_f64 (Fin 0)"
  by (simp add: valid_f64_Fin)

lemma valid_f64_max: "valid_f64 (Fin x) \<Longrightarrow> valid_f64 (Fin (max 0 x))"
  by (auto simp: max_def)

text \<open>A finite result is on the grid.\<close>

lemma fadd_valid: "fadd a b = Fin x \<Longrightarrow> valid_f64 (Fin x)"
  by (cases a; cases b) (auto dest: rne_valid)

text \<open>The largest binary64 number, and what it takes to overflow.\<close>

definition max_f64 :: rat where
  "max_f64 = of_int (2 ^ 53 - 1) * pow2 971"

lemma top_binade: "(2 :: rat) ^ 1024 = of_int (2 ^ 53) * pow2 971" "(2 :: rat) ^ 1024 = pow2 1024"
proof -
  show "(2 :: rat) ^ 1024 = pow2 1024" using pow2_nat [of 1024] by simp
  moreover have "pow2 1024 = pow2 53 * pow2 971" using pow2_add [of 53 971] by simp
  moreover have "pow2 53 = of_int (2 ^ 53)" using pow2_nat [of 53] by simp
  ultimately show "(2 :: rat) ^ 1024 = of_int (2 ^ 53) * pow2 971" by (simp only:)
qed

lemma quantum_top:
  assumes "pow2 1023 \<le> x" "x < pow2 1024"
  shows "quantum x = 971"
proof -
  have "0 < x" using pow2_pos [of 1023] assms(1) by linarith
  have "ilog2 x \<le> 1023" by (rule ilog2_leI) (use \<open>0 < x\<close> assms(2) in simp_all)
  moreover have "pow2 1023 < pow2 (ilog2 x + 1)" using ilog2_bounds(2) [OF \<open>0 < x\<close>] assms(1) by linarith
  ultimately have "ilog2 x = 1023" by (simp add: pow2_less_iff)
  then show ?thesis by (simp add: quantum_def)
qed

lemma max_f64_binade: "pow2 1023 \<le> max_f64" "max_f64 + 1 < pow2 1024"
proof -
  have a: "pow2 1023 = of_int (2 ^ 52) * pow2 971"
    using pow2_add [of 52 971] pow2_nat [of 52] by simp
  show "pow2 1023 \<le> max_f64" unfolding a max_f64_def
    by (intro mult_right_mono) (simp_all add: less_imp_le)
  have "pow2 0 < pow2 971" by (simp only: pow2_less_iff)
  then have "max_f64 + 1 < of_int (2 ^ 53) * pow2 971" unfolding max_f64_def
    by (simp add: algebra_simps)
  then show "max_f64 + 1 < pow2 1024" using top_binade by simp
qed

lemma valid_le_max:
  assumes "valid_f64 (Fin x)" shows "x \<le> max_f64"
proof (cases "pow2 1023 \<le> x")
  case True
  have x: "rnd x = x" "x < of_int (2 ^ 53) * pow2 971" "x < pow2 1024" "0 < x"
    using assms True pow2_pos [of 1023] unfolding valid_f64_Fin top_binade(1) [symmetric] top_binade(2) [symmetric] by linarith+
  let ?k = "rhe (x / pow2 971)"
  have k: "x = of_int ?k * pow2 971"
    using x(1,4) quantum_top [OF True x(3)] by (simp add: rnd_def rnd_pos_def)
  then have "?k < 2 ^ 53" using x(2) by (metis mult_less_cancel_right_pos of_int_less_iff pow2_pos)
  then have "of_int ?k \<le> (of_int (2 ^ 53 - 1) :: rat)" by (subst of_int_le_iff) simp
  then show ?thesis unfolding max_f64_def by (subst k) (intro mult_right_mono, simp_all add: less_imp_le)
next
  case False
  then show ?thesis using max_f64_binade(1) by linarith
qed

lemma rnd_max: "rnd (max_f64 + 1) = max_f64"
proof -
  let ?q = "pow2 971"
  have lt: "2 < ?q" using pow2_less_iff [of 1 971] by (simp add: pow2_def)
  have e: "(max_f64 + 1) / ?q = of_int (2 ^ 53 - 1) + 1 / ?q" by (simp add: max_f64_def field_simps)
  have d: "0 < 1 / ?q" "1 / ?q < 1 / 2" using lt by (simp_all add: field_simps)
  have f: "\<lfloor>(max_f64 + 1) / ?q\<rfloor> = 2 ^ 53 - 1" unfolding e using d by (intro floor_unique) auto
  have "rhe ((max_f64 + 1) / ?q) = 2 ^ 53 - 1"
    unfolding rhe_def Let_def f using d unfolding e by simp
  moreover have "0 < max_f64 + 1" "pow2 1023 \<le> max_f64 + 1" using max_f64_binade(1) pow2_pos [of 1023] by linarith+
  ultimately show ?thesis using quantum_top [OF _ max_f64_binade(2)] by (simp add: rnd_def rnd_pos_def max_f64_def)
qed

text \<open>Adding at most 1 to a stored value does not overflow.\<close>

lemma small_sum_finite:
  assumes "valid_f64 (Fin x)" "t \<le> 1" shows "rne (x + t) \<noteq> PInf"
proof -
  have "rnd (x + t) \<le> max_f64"
    using rnd_mono [of "x + t" "max_f64 + 1"] valid_le_max [OF assms(1)] assms(2) by (simp add: rnd_max)
  then have "rnd (x + t) < 2 ^ 1024" using max_f64_binade(2) top_binade(2) by linarith
  then show ?thesis by (cases "x + t" rule: rne_cases) auto
qed
section \<open>Evaluation\<close>

text \<open>
  The rounding on numerator and denominator, in integer arithmetic: the equations by which
  concrete runs are evaluated.
\<close>

definition two_pow :: "int \<Rightarrow> int" where
  "two_pow k = 2 ^ nat k"

lemma two_pow_code [code]: "two_pow k = (if k \<le> 0 then 1 else 2 * two_pow (k - 1))"
proof (cases "k \<le> 0")
  case False
  then have "nat k = Suc (nat (k - 1))" by simp
  then show ?thesis using False by (simp add: two_pow_def)
qed (simp add: two_pow_def)

lemma two_pow_pos [simp]: "0 < two_pow k"
  by (simp add: two_pow_def)

lemma two_pow_add: "0 \<le> a \<Longrightarrow> q < 0 \<Longrightarrow> two_pow (a - q) = two_pow a * two_pow (- q)"
  using nat_add_distrib [of a "- q"] by (simp add: two_pow_def power_add)

lemma pow2_two_pow: "pow2 k = (if 0 \<le> k then of_int (two_pow k) else 1 / of_int (two_pow (- k)))"
  by (simp add: pow2_def two_pow_def)

definition round_even :: "int \<Rightarrow> int \<Rightarrow> int" where
  "round_even a b = (let f = a div b; r = 2 * (a mod b) in
     if r < b then f else if b < r then f + 1 else if even f then f else f + 1)"

lemma round_even_rhe:
  assumes "0 < b"
  shows "rhe (of_int a / of_int b) = round_even a b"
proof -
  have f: "\<lfloor>of_int a / of_int b :: rat\<rfloor> = a div b"
    by (simp add: floor_divide_of_int_eq)
  have d: "of_int a / of_int b - of_int (a div b) = (of_int (a mod b) / of_int b :: rat)"
    using assms by (simp add: field_simps minus_mult_div_eq_mod flip: of_int_mult of_int_diff of_int_add)
  have "of_int (a mod b) / of_int b < (1 / 2 :: rat) \<longleftrightarrow> of_int (2 * (a mod b)) < (of_int b :: rat)"
    "(1 / 2 :: rat) < of_int (a mod b) / of_int b \<longleftrightarrow> of_int b < (of_int (2 * (a mod b)) :: rat)"
    using assms by (auto simp: field_simps)
  then show ?thesis
    unfolding rhe_def round_even_def Let_def f d of_int_less_iff by simp
qed

definition exponent_of :: "int \<Rightarrow> int \<Rightarrow> int" where
  "exponent_of n d = (let k = bitlen n - bitlen d in
     if (if 0 \<le> k then two_pow k * d \<le> n else d \<le> n * two_pow (- k)) then k else k - 1)"

lemma exponent_of_ilog2:
  assumes "quotient_of x = (n, d)"
  shows "ilog2 x = exponent_of n d"
proof -
  have d: "0 < d" using quotient_of_denom_pos [OF assms] .
  have x: "x = of_int n / of_int d" using quotient_of_div [OF assms] .
  have "pow2 k \<le> x \<longleftrightarrow> (if 0 \<le> k then two_pow k * d \<le> n else d \<le> n * two_pow (- k))" for k
  proof (cases "0 \<le> k")
    case True
    have "pow2 k \<le> x \<longleftrightarrow> of_int (two_pow k * d) \<le> (of_int n :: rat)"
      using d True by (simp add: x pow2_two_pow field_simps)
    then show ?thesis using True by (simp only: of_int_le_iff if_True)
  next
    case False
    have "pow2 k \<le> x \<longleftrightarrow> of_int d \<le> (of_int (n * two_pow (- k)) :: rat)"
      using d False by (simp add: x pow2_two_pow field_simps)
    then show ?thesis using False by (simp only: of_int_le_iff if_False)
  qed
  then show ?thesis by (simp add: ilog2_def exponent_of_def assms Let_def)
qed

definition rne_parts :: "int \<Rightarrow> int \<Rightarrow> int \<times> int" where
  "rne_parts n d = (let q = max (exponent_of n d) (- 1022) - 52 in
     (if 0 \<le> q then round_even n (d * two_pow q) else round_even (n * two_pow (- q)) d, q))"

lemma rnd_pos_parts:
  assumes "quotient_of x = (n, d)" "0 < x" "rne_parts n d = (m, q)"
  shows "rnd_pos x = of_int m * pow2 q"
proof -
  have d: "0 < d" using quotient_of_denom_pos [OF assms(1)] .
  have x: "x = of_int n / of_int d" using quotient_of_div [OF assms(1)] .
  have q: "quantum x = q"
    using assms(3) by (simp add: quantum_def rne_parts_def Let_def exponent_of_ilog2 [OF assms(1)])
  have "rhe (x / pow2 q) = m"
  proof (cases "0 \<le> q")
    case True
    then have "x / pow2 q = of_int n / of_int (d * two_pow q)" by (simp add: x pow2_two_pow)
    then show ?thesis using True assms(3) d round_even_rhe [of "d * two_pow q" n]
      by (auto simp: rne_parts_def Let_def)
  next
    case False
    then have "x / pow2 q = of_int (n * two_pow (- q)) / of_int d" by (simp add: x pow2_two_pow)
    then show ?thesis using False assms(3) round_even_rhe [OF d, of "n * two_pow (- q)"]
      by (auto simp: rne_parts_def Let_def)
  qed
  then show ?thesis by (simp add: rnd_pos_def q)
qed

definition rne_of_parts :: "bool \<Rightarrow> int \<times> int \<Rightarrow> f64" where
  "rne_of_parts neg p = (case p of (m, q) \<Rightarrow>
     let s = (if neg then - m else m) in
     if 0 \<le> q then (let v = m * two_pow q in
       if two_pow 1024 \<le> v then (if neg then NInf else PInf) else Fin (of_int (if neg then - v else v)))
     else if two_pow (1024 - q) \<le> m then (if neg then NInf else PInf)
     else Fin (of_int s / of_int (two_pow (- q))))"

lemma rne_code [code]:
  "rne x = (case quotient_of x of (n, d) \<Rightarrow>
     if d = 1 \<and> \<bar>n\<bar> \<le> 9007199254740992 then Fin (of_int n)
     else rne_of_parts (n < 0) (rne_parts \<bar>n\<bar> d))"
proof -
  obtain n d where nd: "quotient_of x = (n, d)" by (cases "quotient_of x")
  have d: "0 < d" using quotient_of_denom_pos [OF nd] .
  have x: "x = of_int n / of_int d" using quotient_of_div [OF nd] .
  show ?thesis
  proof (cases "d = 1 \<and> \<bar>n\<bar> \<le> 9007199254740992")
    case True
    then show ?thesis using rne_int [of n] by (simp add: nd x)
  next
    case False
    have n0: "n \<noteq> 0"
    proof
      assume "n = 0"
      then have "x = 0" by (simp add: x)
      then have "d = 1" using nd by simp
      with False \<open>n = 0\<close> show False by simp
    qed
    obtain m q where mq: "rne_parts \<bar>n\<bar> d = (m, q)" by force
    have abs: "quotient_of \<bar>x\<bar> = (\<bar>n\<bar>, d)" using nd by (simp add: rat_abs_code)
    have r: "rnd_pos \<bar>x\<bar> = of_int m * pow2 q"
      using n0 d by (intro rnd_pos_parts [OF abs _ mq]) (simp add: x)
    have neg: "x < 0 \<longleftrightarrow> n < 0" using d by (simp add: x divide_less_0_iff)
    have rnd: "rnd x = (if n < 0 then - (of_int m * pow2 q) else of_int m * pow2 q)"
      using r neg n0 d by (auto simp: rnd_def x abs_if)
    have p1024: "(2 :: rat) ^ 1024 = of_int (two_pow 1024)" by (simp add: two_pow_def)
    have v: "of_int m * pow2 q = (if 0 \<le> q then of_int (m * two_pow q) else of_int m / of_int (two_pow (- q)))"
      by (simp add: pow2_two_pow)
    have "0 \<le> rnd \<bar>x\<bar>" by (rule f64r.rd_nonneg) simp
    then have v0: "0 \<le> of_int m * pow2 q" using r n0 x d by (simp add: rnd_def split: if_splits)
    have big: "of_int (two_pow 1024) \<le> of_int m * pow2 q \<longleftrightarrow>
        (if 0 \<le> q then two_pow 1024 \<le> m * two_pow q else two_pow (1024 - q) \<le> m)"
    proof (cases "0 \<le> q")
      case True
      then show ?thesis unfolding v by (simp only: if_True of_int_le_iff)
    next
      case False
      then have e: "two_pow (1024 - q) = two_pow 1024 * two_pow (- q)"
        by (intro two_pow_add) simp_all
      have "of_int (two_pow 1024) \<le> (of_int m / of_int (two_pow (- q)) :: rat) \<longleftrightarrow>
          of_int (two_pow 1024 * two_pow (- q)) \<le> (of_int m :: rat)"
        by (simp add: pos_le_divide_eq)
      then show ?thesis unfolding v e using False by (simp only: if_False of_int_le_iff)
    qed
    have pos: "(0 :: rat) < of_int (two_pow 1024)" by simp
    have parts: "rne_of_parts neg (m, q) = (if of_int (two_pow 1024) \<le> of_int m * pow2 q
        then (if neg then NInf else PInf)
        else Fin (if neg then - (of_int m * pow2 q) else of_int m * pow2 q))" for neg
      unfolding rne_of_parts_def prod.case Let_def big by (cases "0 \<le> q") (simp_all add: v)
    have small: "\<not> of_int (two_pow 1024) \<le> - (of_int m * pow2 q)"
      "\<not> of_int m * pow2 q \<le> - of_int (two_pow 1024)"
      using v0 pos by linarith+
    have "rne x = rne_of_parts (n < 0) (m, q)"
      unfolding rne_def rnd p1024 parts Let_def using small
      by (cases "n < 0"; cases "of_int (two_pow 1024) \<le> of_int m * pow2 q") auto
    then show ?thesis by (simp only: nd mq prod.case if_not_P [OF False])
  qed
qed

end
