(* ===== verification/Go_Json.thy ===== *)
theory Go_Json
  imports Float64 "HOL-Library.List_Lexorder" "HOL-Library.Char_ord"
begin

text \<open>
  The values the services exchange. \<open>gov\<close> is what a Go \<open>any\<close> holds in an event payload
  (\<open>map[string]any\<close>), \<open>json\<close> a JSON document; \<open>marshal\<close> and \<open>unmarshal\<close> are
  \<open>encoding/json\<close> between the two, and the struct decoders are \<open>encoding/json\<close> on the structs
  of the code. A JSON number keeps what a decoder can observe of its text: an integer literal is
  its value, a literal with a fraction or an exponent is the float64 it denotes (infinite when
  out of range). Strings are the byte strings PostgreSQL can store (valid UTF-8 without NUL).
\<close>

datatype gov =
    GNil
  | GBool bool
  | GF64 f64
  | GI64 int
  | GStr string
  | GArr "gov list"
  | GObj "(string \<times> gov) list"

datatype json =
    JNull
  | JBool bool
  | JInt int
  | JFlt f64
  | JStr string
  | JArr "json list"
  | JObj "(string \<times> json) list"

type_synonym gobj = "(string \<times> gov) list"
type_synonym jobj = "(string \<times> json) list"

text \<open>Assignment to a key of a map.\<close>

fun obj_put :: "string \<Rightarrow> 'v \<Rightarrow> (string \<times> 'v) list \<Rightarrow> (string \<times> 'v) list" where
  "obj_put k v [] = [(k, v)]"
| "obj_put k v ((j, w) # m) = (if j = k then (k, v) # m else (j, w) # obj_put k v m)"

lemma map_of_obj_put [simp]: "map_of (obj_put k v m) = (map_of m)(k \<mapsto> v)"
  by (induction k v m rule: obj_put.induct) auto

lemma keys_obj_put: "fst ` set (obj_put k v m) = insert k (fst ` set m)"
  by (induction k v m rule: obj_put.induct) auto

lemma distinct_obj_put: "distinct (map fst m) \<Longrightarrow> distinct (map fst (obj_put k v m))"
proof (induction k v m rule: obj_put.induct)
  case (2 k v j w m)
  have "fst ` set (obj_put k v m) = insert k (fst ` set m)" by (rule keys_obj_put)
  with 2 show ?case by auto
qed simp

section \<open>Payload accessors\<close>

definition p_String :: "gobj \<Rightarrow> string \<Rightarrow> string" where
  "p_String p k = (case map_of p k of Some (GStr s) \<Rightarrow> s | _ \<Rightarrow> [])"

definition p_Number :: "gobj \<Rightarrow> string \<Rightarrow> f64" where
  "p_Number p k = (case map_of p k of
      Some (GF64 v) \<Rightarrow> v
    | Some (GI64 n) \<Rightarrow> f64_of_int n
    | _ \<Rightarrow> Fin 0)"

lemma p_String_obj_put [simp]:
  "p_String (obj_put k v p) j =
     (if j = k then (case v of GStr s \<Rightarrow> s | _ \<Rightarrow> []) else p_String p j)"
  by (simp add: p_String_def)

lemma p_String_Cons [simp]:
  "p_String ((k, v) # p) j = (if j = k then (case v of GStr s \<Rightarrow> s | _ \<Rightarrow> []) else p_String p j)"
  by (simp add: p_String_def)

lemma p_String_Nil [simp]: "p_String [] j = []"
  by (simp add: p_String_def)

section \<open>Marshal\<close>

text \<open>
  The integer digits \<open>encoding/json\<close> prints for an integral float64 below \<open>1e21\<close>: the fewest
  significant digits that read back as the same float64, the nearest such number, padded with
  zeros. Up to \<open>2 ^ 53\<close> this is the number itself.
\<close>

fun shortest_from :: "nat \<Rightarrow> int \<Rightarrow> int" where
  "shortest_from 0 n = n"
| "shortest_from (Suc k) n =
     (let u = 10 ^ Suc k; lo = n div u * u; hi = lo + u;
          lo_ok = (rne (of_int lo) = Fin (of_int n)); hi_ok = (rne (of_int hi) = Fin (of_int n))
      in if lo_ok \<and> (\<not> hi_ok \<or> n - lo \<le> hi - n) then lo
         else if hi_ok then hi
         else shortest_from k n)"

definition shortest_int :: "int \<Rightarrow> int" where
  "shortest_int n =
     (if \<bar>n\<bar> \<le> 2 ^ 53 then n else if 0 \<le> n then shortest_from 20 n else - shortest_from 20 (- n))"

definition json_of_f64 :: "f64 \<Rightarrow> json option" where
  "json_of_f64 v = (case v of
      Fin x \<Rightarrow> if of_int \<lfloor>x\<rfloor> = x \<and> \<bar>x\<bar> < 10 ^ 21 then Some (JInt (shortest_int \<lfloor>x\<rfloor>)) else Some (JFlt v)
    | _ \<Rightarrow> None)"

text \<open>Infinities and NaN are an error; map keys are sorted.\<close>

fun marshal :: "gov \<Rightarrow> json option"
  and marshal_list :: "gov list \<Rightarrow> json list option"
  and marshal_fields :: "(string \<times> gov) list \<Rightarrow> (string \<times> json) list option" where
  "marshal GNil = Some JNull"
| "marshal (GBool b) = Some (JBool b)"
| "marshal (GF64 v) = json_of_f64 v"
| "marshal (GI64 n) = Some (JInt n)"
| "marshal (GStr s) = Some (JStr s)"
| "marshal (GArr vs) = map_option JArr (marshal_list vs)"
| "marshal (GObj kvs) = map_option (\<lambda>js. JObj (sort_key fst js)) (marshal_fields kvs)"
| "marshal_list [] = Some []"
| "marshal_list (v # vs) =
     (case marshal v of None \<Rightarrow> None | Some j \<Rightarrow> map_option ((#) j) (marshal_list vs))"
| "marshal_fields [] = Some []"
| "marshal_fields ((k, v) # kvs) =
     (case marshal v of None \<Rightarrow> None | Some j \<Rightarrow> map_option ((#) (k, j)) (marshal_fields kvs))"

section \<open>Unmarshal into any\<close>

text \<open>The float64 a number denotes; out of range is an error.\<close>

definition f64_literal :: "json \<Rightarrow> f64 option" where
  "f64_literal j = (case j of
      JInt n \<Rightarrow> (if is_fin (rne (of_int n)) then Some (rne (of_int n)) else None)
    | JFlt v \<Rightarrow> (if valid_f64 v then Some v else None)
    | _ \<Rightarrow> None)"

lemma f64_literal_valid: "f64_literal j = Some v \<Longrightarrow> valid_f64 v"
  by (auto simp: f64_literal_def is_fin_iff split: json.splits if_splits)
    (metis rne_valid)

text \<open>Numbers become float64; of equal keys the last one wins.\<close>

fun unmarshal :: "json \<Rightarrow> gov option"
  and unmarshal_list :: "json list \<Rightarrow> gov list option"
  and unmarshal_fields :: "(string \<times> json) list \<Rightarrow> gobj \<Rightarrow> gobj option" where
  "unmarshal JNull = Some GNil"
| "unmarshal (JBool b) = Some (GBool b)"
| "unmarshal (JInt n) = map_option GF64 (f64_literal (JInt n))"
| "unmarshal (JFlt v) = map_option GF64 (f64_literal (JFlt v))"
| "unmarshal (JStr s) = Some (GStr s)"
| "unmarshal (JArr js) = map_option GArr (unmarshal_list js)"
| "unmarshal (JObj kvs) = map_option GObj (unmarshal_fields kvs [])"
| "unmarshal_list [] = Some []"
| "unmarshal_list (j # js) =
     (case unmarshal j of None \<Rightarrow> None | Some v \<Rightarrow> map_option ((#) v) (unmarshal_list js))"
| "unmarshal_fields [] m = Some m"
| "unmarshal_fields ((k, j) # kvs) m =
     (case unmarshal j of None \<Rightarrow> None | Some v \<Rightarrow> unmarshal_fields kvs (obj_put k v m))"

text \<open>Unmarshal into \<open>map[string]any\<close>, which adds to the map it is given.\<close>

definition decode_map :: "json \<Rightarrow> gobj \<Rightarrow> gobj option" where
  "decode_map j m = (case j of
      JNull \<Rightarrow> Some []
    | JObj kvs \<Rightarrow> unmarshal_fields kvs m
    | _ \<Rightarrow> None)"

section \<open>Unmarshal into structs\<close>

text \<open>
  Field names match up to case folding; the Kelvin sign and the long s fold to \<open>k\<close> and \<open>s\<close>.
\<close>

definition fold_char :: "char \<Rightarrow> char" where
  "fold_char c = (if 65 \<le> (of_char c :: nat) \<and> (of_char c :: nat) \<le> 90
     then char_of ((of_char c :: nat) + 32) else c)"

text \<open>The same on the bits of the character, for evaluation.\<close>

lemma fold_char_bits [code]:
  "fold_char (Char b0 b1 b2 b3 b4 b5 b6 b7) =
     (if b6 \<and> \<not> b5 \<and> \<not> b7 \<and> (b0 \<or> b1 \<or> b2 \<or> b3 \<or> b4) \<and> \<not> (b4 \<and> b3 \<and> (b2 \<or> b1 \<and> b0))
      then Char b0 b1 b2 b3 b4 True b6 b7 else Char b0 b1 b2 b3 b4 b5 b6 b7)"
  by (cases b0; cases b1; cases b2; cases b3; cases b4; cases b5; cases b6; cases b7)
    (simp_all add: fold_char_def of_char_Char char_of_def bit_iff_odd)

fun fold_name :: "string \<Rightarrow> string" where
  "fold_name [] = []"
| "fold_name (a # r) =
     (if a = CHR 0xC5 \<and> take 1 r = [CHR 0xBF] then CHR ''s'' # fold_name (drop 1 r)
      else if a = CHR 0xE2 \<and> take 2 r = [CHR 0x84, CHR 0xAA] then CHR ''k'' # fold_name (drop 2 r)
      else fold_char a # fold_name r)"

text \<open>A field: its name, and how a JSON value is stored into it (\<open>None\<close>: a type error).\<close>

type_synonym 'r field = "string \<times> (json \<Rightarrow> 'r \<Rightarrow> 'r option)"

definition str_field :: "string \<Rightarrow> (string \<Rightarrow> 'r \<Rightarrow> 'r) \<Rightarrow> 'r field" where
  "str_field name upd = (name, \<lambda>j r. case j of JNull \<Rightarrow> Some r | JStr s \<Rightarrow> Some (upd s r) | _ \<Rightarrow> None)"

definition bool_field :: "string \<Rightarrow> (bool \<Rightarrow> 'r \<Rightarrow> 'r) \<Rightarrow> 'r field" where
  "bool_field name upd = (name, \<lambda>j r. case j of JNull \<Rightarrow> Some r | JBool b \<Rightarrow> Some (upd b r) | _ \<Rightarrow> None)"

definition int64_field :: "string \<Rightarrow> (int \<Rightarrow> 'r \<Rightarrow> 'r) \<Rightarrow> 'r field" where
  "int64_field name upd = (name, \<lambda>j r. case j of
      JNull \<Rightarrow> Some r
    | JInt n \<Rightarrow> (if is_i64 n then Some (upd n r) else None)
    | _ \<Rightarrow> None)"

definition f64_field :: "string \<Rightarrow> (f64 \<Rightarrow> 'r \<Rightarrow> 'r) \<Rightarrow> 'r field" where
  "f64_field name upd = (name, \<lambda>j r. case j of
      JNull \<Rightarrow> Some r
    | _ \<Rightarrow> map_option (\<lambda>v. upd v r) (f64_literal j))"

text \<open>Unknown keys are skipped, or an error under \<open>DisallowUnknownFields\<close>.\<close>

fun decode_fields :: "bool \<Rightarrow> 'r field list \<Rightarrow> (string \<times> json) list \<Rightarrow> 'r \<Rightarrow> 'r option" where
  "decode_fields strict fs [] r = Some r"
| "decode_fields strict fs ((k, j) # kvs) r =
     (case find (\<lambda>f. fold_name (fst f) = fold_name k) fs of
        None \<Rightarrow> (if strict then None else decode_fields strict fs kvs r)
      | Some f \<Rightarrow> (case snd f j r of None \<Rightarrow> None | Some r' \<Rightarrow> decode_fields strict fs kvs r'))"

definition decode_struct :: "bool \<Rightarrow> 'r field list \<Rightarrow> json \<Rightarrow> 'r \<Rightarrow> 'r option" where
  "decode_struct strict fs j r = (case j of
      JNull \<Rightarrow> Some r
    | JObj kvs \<Rightarrow> decode_fields strict fs kvs r
    | _ \<Rightarrow> None)"

text \<open>What every field decoder keeps, the struct decoder keeps.\<close>

lemma decode_fields_inv:
  assumes "\<And>f j r r'. f \<in> set fs \<Longrightarrow> snd f j r = Some r' \<Longrightarrow> P r \<Longrightarrow> P r'"
    and "decode_fields strict fs kvs r = Some r'" and "P r"
  shows "P r'"
  using assms
proof (induction strict fs kvs r rule: decode_fields.induct)
  case (2 strict fs k j kvs r)
  show ?case
  proof (cases "find (\<lambda>f. fold_name (fst f) = fold_name k) fs")
    case None
    have "decode_fields strict fs kvs r = Some r'" and "\<not> strict"
      using "2.prems"(2) None by (auto split: if_splits)
    then show ?thesis using "2.IH"(1) [OF None] "2.prems"(1,3) by blast
  next
    case (Some f)
    then have f: "f \<in> set fs" by (auto simp: find_Some_iff)
    obtain r1 where r1: "snd f j r = Some r1" "decode_fields strict fs kvs r1 = Some r'"
      using "2.prems"(2) Some by (auto split: option.splits)
    have "P r1" using f r1(1) "2.prems"(3) by (rule "2.prems"(1))
    with "2.IH"(2) [OF Some r1(1) _ r1(2)] "2.prems"(1) show ?thesis by blast
  qed
qed simp

lemma decode_struct_inv:
  assumes "\<And>f j r r'. f \<in> set fs \<Longrightarrow> snd f j r = Some r' \<Longrightarrow> P r \<Longrightarrow> P r'"
    and "decode_struct strict fs j r = Some r'" and "P r"
  shows "P r'"
  using assms(2,3) decode_fields_inv [where P = P, OF assms(1)]
  by (auto simp: decode_struct_def split: json.splits)

text \<open>A slice of structs: every element is decoded into a zero value.\<close>

fun decode_elems :: "(json \<Rightarrow> 'r \<Rightarrow> 'r option) \<Rightarrow> 'r \<Rightarrow> json list \<Rightarrow> 'r list option" where
  "decode_elems d z [] = Some []"
| "decode_elems d z (j # js) =
     (case d j z of None \<Rightarrow> None | Some r \<Rightarrow> map_option ((#) r) (decode_elems d z js))"

definition decode_slice :: "(json \<Rightarrow> 'r \<Rightarrow> 'r option) \<Rightarrow> 'r \<Rightarrow> json \<Rightarrow> 'r list option" where
  "decode_slice d z j = (case j of JNull \<Rightarrow> Some [] | JArr js \<Rightarrow> decode_elems d z js | _ \<Rightarrow> None)"

text \<open>\<open>Decode[T]\<close>: marshal the value and unmarshal the text into a \<open>T\<close>.\<close>

definition Decode :: "(json \<Rightarrow> 'r option) \<Rightarrow> gov \<Rightarrow> 'r option" where
  "Decode d v = (case marshal v of None \<Rightarrow> None | Some j \<Rightarrow> d j)"

section \<open>Round trip of payloads\<close>

text \<open>What a payload becomes on its way through JSON: integers turn into float64.\<close>

fun as_read :: "gov \<Rightarrow> gov"
  and as_read_list :: "gov list \<Rightarrow> gov list"
  and as_read_fields :: "gobj \<Rightarrow> gobj" where
  "as_read (GI64 n) = GF64 (f64_of_int n)"
| "as_read (GArr vs) = GArr (as_read_list vs)"
| "as_read (GObj kvs) = GObj (sort_key fst (as_read_fields kvs))"
| "as_read v = v"
| "as_read_list [] = []"
| "as_read_list (v # vs) = as_read v # as_read_list vs"
| "as_read_fields [] = []"
| "as_read_fields ((k, v) # kvs) = (k, as_read v) # as_read_fields kvs"

text \<open>
  The payloads the code builds: finite floats on the binary64 grid, 64-bit integers, maps with
  distinct keys.
\<close>

fun wf_gov :: "gov \<Rightarrow> bool"
  and wf_govs :: "gov list \<Rightarrow> bool"
  and wf_fields :: "gobj \<Rightarrow> bool" where
  "wf_gov (GF64 v) = valid_f64 v"
| "wf_gov (GI64 n) = is_i64 n"
| "wf_gov (GArr vs) = wf_govs vs"
| "wf_gov (GObj kvs) = (distinct (map fst kvs) \<and> wf_fields kvs)"
| "wf_gov _ = True"
| "wf_govs [] = True"
| "wf_govs (v # vs) = (wf_gov v \<and> wf_govs vs)"
| "wf_fields [] = True"
| "wf_fields ((k, v) # kvs) = (wf_gov v \<and> wf_fields kvs)"

lemma rne_valid_f64: "valid_f64 (Fin x) \<Longrightarrow> rne x = Fin x"
  by (simp add: valid_f64_Fin rne_Fin)

lemma shortest_from_rne: "rne (of_int n) = Fin (of_int n) \<Longrightarrow> rne (of_int (shortest_from k n)) = Fin (of_int n)"
  by (induction k n rule: shortest_from.induct) (auto simp: Let_def simp del: power_Suc)

lemma rne_minus: "rne (- x) = fneg (rne x)"
proof -
  have "(0::rat) < 2 ^ 1024" by simp
  then show ?thesis
    by (auto simp: rne_def Let_def rnd_minus fneg_def)
qed

lemma shortest_int_rne: "rne (of_int n) = Fin (of_int n) \<Longrightarrow> rne (of_int (shortest_int n)) = Fin (of_int n)"
proof -
  assume r: "rne (of_int n) = Fin (of_int n)"
  then have m: "rne (of_int (- n)) = Fin (of_int (- n))"
    by (simp add: rne_minus fneg_def)
  then have "rne (- of_int (shortest_from 20 (- n))) = Fin (of_int n)"
    by (simp only: rne_minus shortest_from_rne [OF m]) (simp add: fneg_def)
  with r show ?thesis by (simp add: shortest_int_def shortest_from_rne)
qed

lemma json_of_f64_roundtrip:
  assumes "valid_f64 v"
  obtains j where "json_of_f64 v = Some j" "unmarshal j = Some (GF64 v)"
proof -
  obtain x where v: "v = Fin x" using assms by (auto simp: valid_f64_iff)
  have r: "rne x = Fin x" using assms by (simp add: v rne_valid_f64)
  show thesis
  proof (cases "of_int \<lfloor>x\<rfloor> = x \<and> \<bar>x\<bar> < 10 ^ 21")
    case True
    then have i: "of_int \<lfloor>x\<rfloor> = x" by simp
    have "rne (of_int \<lfloor>x\<rfloor>) = Fin (of_int \<lfloor>x\<rfloor>)" using r by (simp only: i)
    then have "rne (of_int (shortest_int \<lfloor>x\<rfloor>)) = Fin (of_int \<lfloor>x\<rfloor>)" by (rule shortest_int_rne)
    then have "unmarshal (JInt (shortest_int \<lfloor>x\<rfloor>)) = Some (GF64 v)"
      by (simp add: f64_literal_def v i)
    moreover have "json_of_f64 v = Some (JInt (shortest_int \<lfloor>x\<rfloor>))"
      using True by (simp add: json_of_f64_def v)
    ultimately show thesis by (rule that [rotated])
  next
    case False
    then have "json_of_f64 v = Some (JFlt v)" by (auto simp: json_of_f64_def v)
    moreover have "unmarshal (JFlt v) = Some (GF64 v)"
      using assms by (simp add: f64_literal_def)
    ultimately show thesis by (rule that)
  qed
qed

lemma marshal_fields_keys: "marshal_fields kvs = Some js \<Longrightarrow> map fst js = map fst kvs"
  by (induction kvs arbitrary: js) (auto split: option.splits)

lemma obj_put_fresh: "k \<notin> fst ` set m \<Longrightarrow> obj_put k v m = m @ [(k, v)]"
  by (induction k v m rule: obj_put.induct) auto

text \<open>Key-sorting and decoding act on the keys alone, so they preserve the pointwise relation.\<close>

definition reads_as :: "string \<times> json \<Rightarrow> string \<times> gov \<Rightarrow> bool" where
  "reads_as a b = (fst a = fst b \<and> unmarshal (snd a) = Some (snd b))"

lemma insort_reads_as:
  "list_all2 reads_as js vs \<Longrightarrow> reads_as a b \<Longrightarrow>
   list_all2 reads_as (insort_key fst a js) (insort_key fst b vs)"
proof (induction rule: list_all2_induct)
  case (Cons x xs y ys)
  then have "fst a = fst b" "fst x = fst y" by (simp_all add: reads_as_def)
  with Cons show ?case by simp
qed simp

lemma sort_reads_as:
  "list_all2 reads_as js vs \<Longrightarrow> list_all2 reads_as (sort_key fst js) (sort_key fst vs)"
  by (induction rule: list_all2_induct) (auto simp: insort_reads_as)

lemma unmarshal_fields_reads_as:
  assumes "list_all2 reads_as js vs" "distinct (map fst vs)" "fst ` set vs \<inter> fst ` set m = {}"
  shows "unmarshal_fields js m = Some (m @ vs)"
  using assms
proof (induction js vs arbitrary: m rule: list_all2_induct)
  case Nil
  then show ?case by simp
next
  case (Cons a js b vs)
  obtain k j v where ab: "a = (k, j)" "b = (k, v)" "unmarshal j = Some v"
    using Cons.hyps(1) by (cases a; cases b) (auto simp: reads_as_def)
  have "obj_put k v m = m @ [(k, v)]"
    using Cons.prems(2) by (intro obj_put_fresh) (auto simp: ab)
  moreover have "unmarshal_fields js (m @ [(k, v)]) = Some ((m @ [(k, v)]) @ vs)"
    using Cons.prems by (intro Cons.IH) (auto simp: ab)
  ultimately show ?case by (simp add: ab)
qed

lemma marshal_reads:
  "wf_gov v \<Longrightarrow> \<exists>j. marshal v = Some j \<and> unmarshal j = Some (as_read v)"
  "wf_govs vs \<Longrightarrow> \<exists>js. marshal_list vs = Some js \<and> unmarshal_list js = Some (as_read_list vs)"
  "wf_fields kvs \<Longrightarrow> \<exists>js. marshal_fields kvs = Some js \<and> list_all2 reads_as js (as_read_fields kvs)"
proof (induction v and vs and kvs rule: as_read_as_read_list_as_read_fields.induct)
  case (1 n)
  then show ?case by (simp add: f64_literal_def f64_of_int_fin flip: f64_of_int_def)
next
  case (3 kvs)
  then obtain js where js: "marshal_fields kvs = Some js" "list_all2 reads_as js (as_read_fields kvs)"
    by auto
  have "map fst (as_read_fields kvs) = map fst kvs" for kvs
    by (induction kvs) auto
  then have "distinct (map fst (sort_key fst (as_read_fields kvs)))"
    using 3 by (simp add: distinct_map distinct_sort)
      (metis distinct_map)
  with sort_reads_as [OF js(2)] have "unmarshal_fields (sort_key fst js) []
      = Some ([] @ sort_key fst (as_read_fields kvs))"
    by (intro unmarshal_fields_reads_as) auto
  then show ?case by (simp add: js)
qed (auto simp: reads_as_def elim: json_of_f64_roundtrip)

text \<open>What is read from JSON is well formed, so it can be written again.\<close>

lemma wf_fields_put: "wf_gov v \<Longrightarrow> wf_fields m \<Longrightarrow> wf_fields (obj_put k v m)"
  by (induction k v m rule: obj_put.induct) auto

lemma unmarshal_wf:
  "unmarshal j = Some v \<Longrightarrow> wf_gov v"
  "unmarshal_list js = Some vs \<Longrightarrow> wf_govs vs"
  "unmarshal_fields kvs m = Some p \<Longrightarrow> wf_gov (GObj m) \<Longrightarrow> wf_gov (GObj p)"
proof (induction j and js and kvs m arbitrary: v and vs and p
    rule: unmarshal_unmarshal_list_unmarshal_fields.induct)
  case (11 k j kvs m)
  then show ?case by (auto simp: wf_fields_put distinct_obj_put split: option.splits)
qed (auto simp: f64_literal_valid split: option.splits)

lemma decode_map_wf: "decode_map j [] = Some p \<Longrightarrow> wf_gov (GObj p)"
  using unmarshal_wf(3) [of _ "[]" p] by (auto simp: decode_map_def split: json.splits)

lemma marshal_wf: "wf_gov v \<Longrightarrow> \<exists>j. marshal v = Some j"
  using marshal_reads(1) by blast

end
