(* ===== verification/Go_Time.thy ===== *)
theory Go_Time
  imports WMS_Prelude
begin

text \<open>
  The parts of Go's \<open>time\<close> package the services use: instants as nanoseconds since the Unix
  epoch, calendar days as days since it, \<open>time.Parse\<close> for the two layouts of the code, the
  truncation to a UTC day, and the microsecond resolution of PostgreSQL's \<open>timestamptz\<close>.
\<close>

section \<open>Calendar\<close>

definition leap_year :: "int \<Rightarrow> bool" where
  "leap_year y = (y mod 4 = 0 \<and> (y mod 100 \<noteq> 0 \<or> y mod 400 = 0))"

definition days_in :: "int \<Rightarrow> int \<Rightarrow> int" where
  "days_in m y = (if m = 2 then (if leap_year y then 29 else 28)
     else if m = 4 \<or> m = 6 \<or> m = 9 \<or> m = 11 then 30 else 31)"

text \<open>Days since 1970-01-01 of a proleptic Gregorian date.\<close>

definition civil_day :: "int \<Rightarrow> int \<Rightarrow> int \<Rightarrow> int" where
  "civil_day y m d =
     (let y' = (if m \<le> 2 then y - 1 else y);
          era = y' div 400;
          yoe = y' - era * 400;
          doy = (153 * (if 2 < m then m - 3 else m + 9) + 2) div 5 + d - 1;
          doe = yoe * 365 + yoe div 4 - yoe div 100 + doy
      in era * 146097 + doe - 719468)"

definition day_ns :: int where
  "day_ns = 86400 * 10 ^ 9"

text \<open>\<open>t.UTC().Truncate(24*time.Hour)\<close>.\<close>

definition truncate_day :: "int \<Rightarrow> int" where
  "truncate_day t = t - t mod day_ns"

text \<open>A \<open>date\<close> column scanned into a \<open>time.Time\<close> is midnight UTC.\<close>

definition day_start :: "int \<Rightarrow> int" where
  "day_start d = d * day_ns"

lemma day_ns_pos: "0 < day_ns"
  by (simp add: day_ns_def)

lemma day_start_after_truncate: "truncate_day t < day_start d \<longleftrightarrow> t div day_ns < d"
proof -
  have "truncate_day t = day_start (t div day_ns)"
    by (simp add: truncate_day_def day_start_def minus_mod_eq_div_mult)
  then show ?thesis using day_ns_pos by (simp add: day_start_def)
qed

text \<open>\<open>timestamptz\<close> keeps microseconds.\<close>

definition to_pg_time :: "int \<Rightarrow> int" where
  "to_pg_time t = t div 1000"

definition of_pg_time :: "int \<Rightarrow> int" where
  "of_pg_time u = u * 1000"

lemma pg_time_floor: "of_pg_time (to_pg_time t) \<le> t" "t < of_pg_time (to_pg_time t) + 1000"
  by (simp_all add: of_pg_time_def to_pg_time_def)

section \<open>Parsing\<close>

definition is_digit :: "char \<Rightarrow> bool" where
  "is_digit c = (48 \<le> (of_char c :: nat) \<and> (of_char c :: nat) \<le> 57)"

definition digit_val :: "char \<Rightarrow> int" where
  "digit_val c = int (of_char c :: nat) - 48"

definition digits_val :: "string \<Rightarrow> int" where
  "digits_val s = foldl (\<lambda>a c. 10 * a + digit_val c) 0 s"

text \<open>A number of exactly \<open>n\<close> digits, and the rest of the text.\<close>

definition fixed_num :: "nat \<Rightarrow> string \<Rightarrow> (int \<times> string) option" where
  "fixed_num n s = (if length (take n s) = n \<and> list_all is_digit (take n s)
     then Some (digits_val (take n s), drop n s) else None)"

text \<open>\<open>getnum(value, false)\<close>: one digit, or two.\<close>

definition loose_num :: "string \<Rightarrow> (int \<times> string) option" where
  "loose_num s = (case fixed_num 2 s of Some r \<Rightarrow> Some r | None \<Rightarrow> fixed_num 1 s)"

definition expect :: "char \<Rightarrow> string \<Rightarrow> string option" where
  "expect c s = (case s of [] \<Rightarrow> None | d # r \<Rightarrow> if d = c then Some r else None)"

text \<open>The date part \<open>2006-01-02\<close>: a day number and the rest; the day is checked at the end.\<close>

definition parse_ymd :: "string \<Rightarrow> ((int \<times> int \<times> int) \<times> string) option" where
  "parse_ymd s =
     (case fixed_num 4 s of None \<Rightarrow> None | Some (y, s1) \<Rightarrow>
      case expect CHR ''-'' s1 of None \<Rightarrow> None | Some s2 \<Rightarrow>
      case fixed_num 2 s2 of None \<Rightarrow> None | Some (m, s3) \<Rightarrow>
      if m < 1 \<or> 12 < m then None else
      case expect CHR ''-'' s3 of None \<Rightarrow> None | Some s4 \<Rightarrow>
      case fixed_num 2 s4 of None \<Rightarrow> None | Some (d, s5) \<Rightarrow>
      if d < 1 \<or> days_in m y < d then None else Some ((y, m, d), s5))"

text \<open>\<open>time.Parse("2006-01-02", s)\<close>, as a day number.\<close>

definition parse_date :: "string \<Rightarrow> int option" where
  "parse_date s = (case parse_ymd s of
      Some ((y, m, d), []) \<Rightarrow> Some (civil_day y m d)
    | _ \<Rightarrow> None)"

text \<open>The optional fraction: a period or comma and digits, of which nine count.\<close>

definition parse_fraction :: "string \<Rightarrow> int \<times> string" where
  "parse_fraction s = (case s of
      c # d # r \<Rightarrow>
        (if (c = CHR ''.'' \<or> c = CHR '','') \<and> is_digit d
         then (let ds = takeWhile is_digit (d # r); n = take 9 ds
               in (digits_val n * 10 ^ (9 - length n), dropWhile is_digit (d # r)))
         else (0, s))
    | _ \<Rightarrow> (0, s))"

text \<open>The zone \<open>Z07:00\<close>: \<open>Z\<close>, or a signed offset; the result is in seconds.\<close>

definition parse_zone :: "string \<Rightarrow> (int \<times> string) option" where
  "parse_zone s = (case s of
      [] \<Rightarrow> None
    | c # r \<Rightarrow>
       if c = CHR ''Z'' then Some (0, r) else
       case fixed_num 2 r of None \<Rightarrow> None | Some (h, r1) \<Rightarrow>
       case expect CHR '':'' r1 of None \<Rightarrow> None | Some r2 \<Rightarrow>
       case fixed_num 2 r2 of None \<Rightarrow> None | Some (m, r3) \<Rightarrow>
       if 24 < h \<or> 60 < m then None
       else if c = CHR ''+'' then Some ((h * 60 + m) * 60, r3)
       else if c = CHR ''-'' then Some (- ((h * 60 + m) * 60), r3)
       else None)"

text \<open>\<open>time.Parse(time.RFC3339Nano, s)\<close>, in nanoseconds since the epoch.\<close>

definition parse_rfc3339 :: "string \<Rightarrow> int option" where
  "parse_rfc3339 s =
     (case parse_ymd s of None \<Rightarrow> None | Some ((y, mo, d), s1) \<Rightarrow>
      case expect CHR ''T'' s1 of None \<Rightarrow> None | Some s2 \<Rightarrow>
      case loose_num s2 of None \<Rightarrow> None | Some (h, s3) \<Rightarrow>
      if 24 \<le> h then None else
      case expect CHR '':'' s3 of None \<Rightarrow> None | Some s4 \<Rightarrow>
      case fixed_num 2 s4 of None \<Rightarrow> None | Some (mi, s5) \<Rightarrow>
      if 60 \<le> mi then None else
      case expect CHR '':'' s5 of None \<Rightarrow> None | Some s6 \<Rightarrow>
      case fixed_num 2 s6 of None \<Rightarrow> None | Some (sec, s7) \<Rightarrow>
      if 60 \<le> sec then None else
      case parse_fraction s7 of (ns, s8) \<Rightarrow>
      case parse_zone s8 of
        Some (off, []) \<Rightarrow>
          Some ((civil_day y mo d * 86400 + h * 3600 + mi * 60 + sec - off) * 10 ^ 9 + ns)
      | _ \<Rightarrow> None)"

section \<open>Formatting\<close>

text \<open>Year, month and day of a day number.\<close>

definition civil_of_day :: "int \<Rightarrow> int \<times> int \<times> int" where
  "civil_of_day n =
     (let z = n + 719468;
          era = z div 146097;
          doe = z - era * 146097;
          yoe = (doe - doe div 1460 + doe div 36524 - doe div 146096) div 365;
          doy = doe - (365 * yoe + yoe div 4 - yoe div 100);
          mp = (5 * doy + 2) div 153;
          d = doy - (153 * mp + 2) div 5 + 1;
          m = (if mp < 10 then mp + 3 else mp - 9)
      in (yoe + era * 400 + (if m \<le> 2 then 1 else 0), m, d))"

fun show_digits :: "nat \<Rightarrow> int \<Rightarrow> string" where
  "show_digits 0 n = []"
| "show_digits (Suc k) n = show_digits k (n div 10) @ [char_of (nat (n mod 10) + 48 :: nat)]"

definition format_date :: "int \<Rightarrow> string" where
  "format_date n = (case civil_of_day n of (y, m, d) \<Rightarrow>
     show_digits 4 y @ ''-'' @ show_digits 2 m @ ''-'' @ show_digits 2 d)"

text \<open>A \<open>time.Time\<close> at midnight UTC as \<open>encoding/json\<close> prints it.\<close>

definition format_midnight :: "int \<Rightarrow> string" where
  "format_midnight n = format_date n @ ''T00:00:00Z''"

lemma parse_date_epoch: "parse_date ''1970-01-01'' = Some 0"
  by code_simp

lemma parse_date_rejects: "parse_date ''2023-02-29'' = None" "parse_date ''2024-02-29x'' = None"
  by code_simp+

lemma parse_rfc3339_zone:
  "parse_rfc3339 ''2026-09-17T10:00:00.5+02:00'' = parse_rfc3339 ''2026-09-17T08:00:00.500Z''"
  by code_simp

lemma format_date_example: "format_date 20712 = ''2026-09-16''" "format_date 19782 = ''2024-02-29''"
  by code_simp+

end
