(* ===== verification/Platform.thy ===== *)
theory Platform
  imports Go_Json Go_Time
begin

text \<open>
  \<open>libs/platform\<close>: the runtime every Go service shares. A service's state is its database
  (extended by each service with its own tables), the advisory locks its transaction holds, and
  what is not transactional: metrics, sequence numbers, consumed clock readings and UUIDs, the
  Kafka log and the Redis store. What lies outside the repository (PostgreSQL's and Go's UUID
  parsers, the clocks, the random UUIDs, the HTTP peers, SHA-256, whether a commit or a Kafka
  write succeeds) is the environment \<open>env\<close>, an argument of every definition.
\<close>

section \<open>Environment\<close>

datatype http_reply = NoReply string | Reply int "json option"

record env =
  svc_name :: string
  uuid_ok :: "string \<Rightarrow> bool"             \<comment> \<open>\<open>uuid.Parse\<close> accepts the text\<close>
  pg_uuid :: "string \<Rightarrow> string option"    \<comment> \<open>a text as a \<open>uuid\<close> parameter, read back by \<open>::text\<close>\<close>
  new_uuid :: "nat \<Rightarrow> string"             \<comment> \<open>the successive \<open>uuid.NewString()\<close>\<close>
  go_now :: "nat \<Rightarrow> int"                  \<comment> \<open>the successive \<open>time.Now()\<close>, nanoseconds\<close>
  pg_now :: int                           \<comment> \<open>\<open>now()\<close> of the transaction, microseconds\<close>
  begin_ok :: bool
  commit_ok :: bool
  kafka_ok :: "nat \<Rightarrow> bool"               \<comment> \<open>the successive \<open>WriteMessages\<close> succeed\<close>
  ctx_corr :: "string option"             \<comment> \<open>correlation id in the context\<close>
  ctx_trace :: string                     \<comment> \<open>\<open>traceparent\<close> injected for the current span\<close>
  http_get :: "string \<Rightarrow> http_reply"
  fingerprint :: "json \<Rightarrow> string"         \<comment> \<open>hexadecimal SHA-256 of the request text\<close>
  pg_ts_text :: "int \<Rightarrow> string"           \<comment> \<open>\<open>to_jsonb\<close> of a \<open>timestamptz\<close>\<close>

text \<open>\<open>current_date\<close>, in the UTC session time zone of the deployment.\<close>

definition pg_today :: "env \<Rightarrow> int" where
  "pg_today E = pg_now E div (86400 * 10 ^ 6)"

section \<open>Events, tables and the service state\<close>

record 'p event =
  ev_id :: string
  ev_type :: string
  ev_version :: int
  ev_time :: int
  ev_source :: string
  ev_correlation :: string
  ev_traceparent :: string
  ev_payload :: 'p

text \<open>
  An event as a handler gets it: whether its payload is the nil map, which reads like an empty one
  but is sent to the database as NULL.
\<close>

record 'p delivered = "'p event" +
  ev_nil :: bool

record outbox_row =
  ob_seq :: nat
  ob_id :: string
  ob_key :: string
  ob_type :: string
  ob_body :: "json event"
  ob_published :: "int option"

record command_row =
  cmd_id :: string
  cmd_fingerprint :: string
  cmd_response :: json

record pdb =
  outbox :: "outbox_row list"
  processed :: "(string \<times> string) list"
  commands :: "command_row list"

record kafka_msg =
  km_topic :: string
  km_key :: string
  km_value :: "json event option"   \<comment> \<open>\<open>None\<close>: not a JSON event\<close>
  km_headers :: "(string \<times> string) list"

record 'd world =
  db :: 'd
  held :: "(string \<times> nat) list"
  metrics :: "(string \<times> string) list"
  uuids :: nat
  ticks :: nat
  seqno :: nat
  sends :: nat
  kafka :: "kafka_msg list"
  redis :: "(string \<times> string \<times> int) list"

type_synonym ('d, 'a) wprog = "('d world, 'a) prog"

section \<open>Small operations\<close>

definition Count :: "string \<Rightarrow> string \<Rightarrow> ('d, unit) wprog" where
  "Count op outcome = modify (\<lambda>w. w\<lparr>metrics := (op, outcome) # metrics w\<rparr>)"

definition NewString :: "env \<Rightarrow> ('d, string) wprog" where
  "NewString E = bnd (gets (\<lambda>w. new_uuid E (uuids w))) (\<lambda>u.
     andthen (modify (\<lambda>w. w\<lparr>uuids := Suc (uuids w)\<rparr>)) (ret u))"

definition Now :: "env \<Rightarrow> ('d, int) wprog" where
  "Now E = bnd (gets (\<lambda>w. go_now E (ticks w))) (\<lambda>t.
     andthen (modify (\<lambda>w. w\<lparr>ticks := Suc (ticks w)\<rparr>)) (ret t))"

definition Env :: "(string \<Rightarrow> string) \<Rightarrow> string \<Rightarrow> string \<Rightarrow> string" where
  "Env getenv k d = (let v = getenv k in if v \<noteq> [] then v else d)"

definition ID :: "env \<Rightarrow> string \<Rightarrow> ('s, unit) prog" where
  "ID E v = stop_if (\<not> uuid_ok E v) (Fault ''VALIDATION_ERROR'' (''Invalid UUID: '' @ v) 400)"

definition Correlation :: "env \<Rightarrow> ('d, string) wprog" where
  "Correlation E = (case ctx_corr E of Some v \<Rightarrow> ret v | None \<Rightarrow> NewString E)"

text \<open>A text passed for a \<open>uuid\<close> column; PostgreSQL refuses what is not one.\<close>

definition sql_uuid :: "env \<Rightarrow> string \<Rightarrow> ('s, string) prog" where
  "sql_uuid E s = of_option (Internal ''invalid input syntax for type uuid'') (pg_uuid E s)"

text \<open>What PostgreSQL reads back is the canonical form, which reads back as itself.\<close>

definition uuid_law :: "(string \<Rightarrow> string option) \<Rightarrow> bool" where
  "uuid_law P = (\<forall>s c. P s = Some c \<longrightarrow> P c = Some c)"

lemma wp_Count [wp_simps]: "wp (Count a b) Q R w = Q () (w\<lparr>metrics := (a, b) # metrics w\<rparr>)"
  by (simp add: Count_def wp_simps)

lemma wp_NewString [wp_simps]:
  "wp (NewString E) Q R w = Q (new_uuid E (uuids w)) (w\<lparr>uuids := Suc (uuids w)\<rparr>)"
  by (simp add: NewString_def wp_simps)

lemma wp_Now [wp_simps]:
  "wp (Now E) Q R w = Q (go_now E (ticks w)) (w\<lparr>ticks := Suc (ticks w)\<rparr>)"
  by (simp add: Now_def wp_simps)

lemma wp_ID [wp_simps]:
  "wp (ID E v) Q R s = ((\<not> uuid_ok E v \<longrightarrow>
       R (Fault ''VALIDATION_ERROR'' (''Invalid UUID: '' @ v) 400) s) \<and> (uuid_ok E v \<longrightarrow> Q () s))"
  by (auto simp: ID_def wp_simps)

lemma wp_sql_uuid [wp_simps]:
  "wp (sql_uuid E u) Q R s = ((pg_uuid E u = None \<longrightarrow>
       R (Internal ''invalid input syntax for type uuid'') s) \<and> (\<forall>v. pg_uuid E u = Some v \<longrightarrow> Q v s))"
  by (simp add: sql_uuid_def wp_simps)

lemma wp_Correlation [wp_simps]:
  "wp (Correlation E) Q R w = ((\<forall>v. ctx_corr E = Some v \<longrightarrow> Q v w) \<and>
     (ctx_corr E = None \<longrightarrow> Q (new_uuid E (uuids w)) (w\<lparr>uuids := Suc (uuids w)\<rparr>)))"
  by (simp add: Correlation_def wp_simps conj_commute)

section \<open>Transactions\<close>

text \<open>
  The deferred rollback undoes every change of the database unless the commit succeeded; the
  advisory locks of the transaction end with it.
\<close>

definition Transaction :: "env \<Rightarrow> ('d, 'a) wprog \<Rightarrow> ('d, 'a) wprog" where
  "Transaction E fn w =
     (if \<not> begin_ok E then (Inl (Internal ''begin''), w)
      else case fn w of
        (Inl e, t) \<Rightarrow> (Inl e, t\<lparr>db := db w, held := held w\<rparr>)
      | (Inr x, t) \<Rightarrow>
          if commit_ok E then (Inr x, t\<lparr>held := held w\<rparr>)
          else (Inl (Internal ''commit''), t\<lparr>db := db w, held := held w\<rparr>))"

text \<open>\<open>tx.Begin\<close> inside a transaction: a savepoint, released on success, rolled back on error.\<close>

definition Savepoint :: "('d, 'a) wprog \<Rightarrow> ('d, err + 'a) wprog" where
  "Savepoint fn w = (case fn w of
      (Inl e, t) \<Rightarrow> (Inr (Inl e), t\<lparr>db := db w\<rparr>)
    | (Inr x, t) \<Rightarrow> (Inr (Inr x), t))"

lemma wp_Savepoint [wp_simps]:
  "wp (Savepoint fn) Q R w =
     wp fn (\<lambda>x t. Q (Inr x) t) (\<lambda>e t. Q (Inl e) (t\<lparr>db := db w\<rparr>)) w"
  by (auto simp: wp_def Savepoint_def split: prod.splits sum.splits)

lemma wp_Transaction:
  "wp (Transaction E fn) Q R w =
     (if \<not> begin_ok E then R (Internal ''begin'') w
      else wp fn
        (\<lambda>x t. if commit_ok E then Q x (t\<lparr>held := held w\<rparr>)
               else R (Internal ''commit'') (t\<lparr>db := db w, held := held w\<rparr>))
        (\<lambda>e t. R e (t\<lparr>db := db w, held := held w\<rparr>)) w)"
  by (auto simp: wp_def Transaction_def split: prod.splits sum.splits)

definition Lock :: "env \<Rightarrow> string \<Rightarrow> ('d, unit) wprog" where
  "Lock E warehouse = andthen (ID E warehouse)
     (modify (\<lambda>w. w\<lparr>held := (warehouse, 0) # held w\<rparr>))"

lemma wp_Lock [wp_simps]:
  "wp (Lock E u) Q R w = ((\<not> uuid_ok E u \<longrightarrow>
       R (Fault ''VALIDATION_ERROR'' (''Invalid UUID: '' @ u) 400) w) \<and>
     (uuid_ok E u \<longrightarrow> Q () (w\<lparr>held := (u, 0) # held w\<rparr>)))"
  by (simp add: Lock_def wp_simps)

section \<open>The outbox\<close>

definition insert_outbox ::
  "env \<Rightarrow> string \<Rightarrow> string \<Rightarrow> string \<Rightarrow> json event \<Rightarrow> ('a pdb_scheme, unit) wprog" where
  "insert_outbox E oid key kind body =
     bnd (sql_uuid E oid) (\<lambda>u.
     bnd (gets seqno) (\<lambda>n.
     andthen (modify (\<lambda>w. w\<lparr>seqno := Suc n\<rparr>))
     (bnd (gets (\<lambda>w. outbox (db w))) (\<lambda>rows.
     andthen (stop_if (find_row ob_id u rows \<noteq> None) (Internal ''duplicate key outbox_events''))
     (modify (\<lambda>w. w\<lparr>db := (db w)\<lparr>outbox := rows @
        [\<lparr>ob_seq = n, ob_id = u, ob_key = key, ob_type = kind, ob_body = body,
          ob_published = None\<rparr>]\<rparr>\<rparr>))))))"

definition Emit :: "env \<Rightarrow> string \<Rightarrow> gobj \<Rightarrow> ('a pdb_scheme, unit) wprog" where
  "Emit E kind payload =
     bnd (NewString E) (\<lambda>eid.
     bnd (Now E) (\<lambda>t.
     bnd (Correlation E) (\<lambda>c.
     bnd (of_option (Internal ''json: unsupported value'') (marshal (GObj payload))) (\<lambda>body.
     let event = \<lparr>ev_id = eid, ev_type = kind, ev_version = 1, ev_time = t,
                  ev_source = svc_name E, ev_correlation = c, ev_traceparent = ctx_trace E,
                  ev_payload = body\<rparr>;
         key = p_String payload ''warehouseId''
     in insert_outbox E eid (if key = [] then eid else key) kind event))))"

text \<open>
  The effect of a successful emission: one unpublished row of the given type at the end of the
  outbox, keyed by the warehouse of the payload; nothing else of the database changes.
\<close>

definition emitted ::
  "env \<Rightarrow> string \<Rightarrow> gobj \<Rightarrow> 'a pdb_scheme world \<Rightarrow> 'a pdb_scheme world \<Rightarrow> bool" where
  "emitted E kind payload w w' =
     (\<exists>row. db w' = (db w)\<lparr>outbox := outbox (db w) @ [row]\<rparr>
        \<and> ob_type row = kind \<and> ev_type (ob_body row) = kind \<and> ob_published row = None
        \<and> ob_seq row = seqno w \<and> ev_version (ob_body row) = 1
        \<and> ob_id row \<notin> ob_id ` set (outbox (db w)) \<and> (\<exists>n. pg_uuid E (new_uuid E n) = Some (ob_id row))
        \<and> (p_String payload ''warehouseId'' \<noteq> [] \<longrightarrow> ob_key row = p_String payload ''warehouseId'')
        \<and> marshal (GObj payload) = Some (ev_payload (ob_body row))
      \<and> seqno w' = Suc (seqno w) \<and> held w' = held w \<and> metrics w' = metrics w
      \<and> sends w' = sends w \<and> kafka w' = kafka w \<and> redis w' = redis w)"

lemma emittedI:
  assumes "db w' = (db w)\<lparr>outbox := outbox (db w) @ [row]\<rparr>"
    and "ob_type row = kind \<and> ev_type (ob_body row) = kind \<and> ob_published row = None
        \<and> ob_seq row = seqno w \<and> ev_version (ob_body row) = 1
        \<and> ob_id row \<notin> ob_id ` set (outbox (db w)) \<and> (\<exists>n. pg_uuid E (new_uuid E n) = Some (ob_id row))
        \<and> (p_String payload ''warehouseId'' \<noteq> [] \<longrightarrow> ob_key row = p_String payload ''warehouseId'')
        \<and> marshal (GObj payload) = Some (ev_payload (ob_body row))"
    and "seqno w' = Suc (seqno w) \<and> held w' = held w \<and> metrics w' = metrics w
      \<and> sends w' = sends w \<and> kafka w' = kafka w \<and> redis w' = redis w"
  shows "emitted E kind payload w w'"
  unfolding emitted_def using assms by blast

lemma wp_insert_outbox:
  "wp (insert_outbox E oid key kind body) Q R w =
     ((pg_uuid E oid = None \<longrightarrow> R (Internal ''invalid input syntax for type uuid'') w) \<and>
      (\<forall>u. pg_uuid E oid = Some u \<longrightarrow>
        (u \<in> ob_id ` set (outbox (db w)) \<longrightarrow>
           R (Internal ''duplicate key outbox_events'') (w\<lparr>seqno := Suc (seqno w)\<rparr>)) \<and>
        (u \<notin> ob_id ` set (outbox (db w)) \<longrightarrow>
           Q () (w\<lparr>seqno := Suc (seqno w), db := (db w)\<lparr>outbox := outbox (db w) @
             [\<lparr>ob_seq = seqno w, ob_id = u, ob_key = key, ob_type = kind, ob_body = body,
               ob_published = None\<rparr>]\<rparr>\<rparr>))))"
  by (auto simp: insert_outbox_def wp_simps find_row_None_iff)

lemma wp_EmitI:
  assumes "\<And>w'. emitted E kind payload w w' \<Longrightarrow> Q () w'"
    and "\<And>e w'. db w' = db w \<Longrightarrow> \<not> is_fault e \<Longrightarrow> R e w'"
  shows "wp (Emit E kind payload) Q R w"
proof -
  have Q: "Q () w'" if "db w' = (db w)\<lparr>outbox := outbox (db w) @
      [\<lparr>ob_seq = seqno w, ob_id = u,
        ob_key = (if p_String payload ''warehouseId'' = [] then k else p_String payload ''warehouseId''),
        ob_type = kind,
        ob_body = \<lparr>ev_id = new_uuid E n, ev_type = kind, ev_version = 1, ev_time = t, ev_source = src,
          ev_correlation = c, ev_traceparent = tr, ev_payload = v\<rparr>, ob_published = None\<rparr>]\<rparr>"
    and "u \<notin> ob_id ` set (outbox (db w))" "pg_uuid E (new_uuid E n) = Some u" "marshal (GObj payload) = Some v"
    and "seqno w' = Suc (seqno w) \<and> held w' = held w \<and> metrics w' = metrics w
      \<and> sends w' = sends w \<and> kafka w' = kafka w \<and> redis w' = redis w"
    for w' u k n t src c tr v
    by (rule assms(1), rule emittedI [OF that(1) _ that(5)]) (use that in auto)
  show ?thesis
    unfolding Emit_def
    by (simp only: wp_simps wp_insert_outbox Let_def)
      (intro conjI allI impI; ((rule assms(2); simp; fail) | (rule Q; simp; fail)))
qed

lemma emittedE:
  assumes "emitted E kind payload w w'"
  obtains row where "db w' = (db w)\<lparr>outbox := outbox (db w) @ [row]\<rparr>"
    "ob_type row = kind" "ob_published row = None"
    "held w' = held w" "metrics w' = metrics w" "kafka w' = kafka w" "redis w' = redis w"
  using assms by (auto simp: emitted_def)

section \<open>Idempotent commands\<close>

definition save_command :: "string \<Rightarrow> string \<Rightarrow> json \<Rightarrow> ('a pdb_scheme, unit) wprog" where
  "save_command key hash body =
     bnd (gets (\<lambda>w. commands (db w))) (\<lambda>rows.
     andthen (stop_if (find_row cmd_id key rows \<noteq> None) (Internal ''duplicate key http_commands''))
     (modify (\<lambda>w. w\<lparr>db := (db w)\<lparr>commands := rows @
        [\<lparr>cmd_id = key, cmd_fingerprint = hash, cmd_response = body\<rparr>]\<rparr>\<rparr>)))"

text \<open>The transaction of a command: replay the saved reply, or run the command and save its reply.\<close>

definition command_tx ::
  "env \<Rightarrow> string \<Rightarrow> string \<Rightarrow> ('a pdb_scheme, gov) wprog \<Rightarrow> ('a pdb_scheme, gov) wprog" where
  "command_tx E key hash fn =
     andthen (modify (\<lambda>w. w\<lparr>held := (key, 1) # held w\<rparr>))
     (bnd (gets (\<lambda>w. find_row cmd_id key (commands (db w)))) (\<lambda>previous.
      case previous of
        Some row \<Rightarrow>
          andthen (stop_if (cmd_fingerprint row \<noteq> hash)
            (Fail ''IDEMPOTENCY_CONFLICT'' ''Key reused with different request''))
          (of_option (Internal ''json: cannot unmarshal'') (unmarshal (cmd_response row)))
      | None \<Rightarrow>
          bnd fn (\<lambda>result.
          bnd (of_option (Internal ''json: unsupported value'') (marshal result)) (\<lambda>body.
          andthen (save_command key hash body) (ret result)))))"

definition Command ::
  "env \<Rightarrow> string \<Rightarrow> gov \<Rightarrow> ('a pdb_scheme, gov) wprog \<Rightarrow> ('a pdb_scheme, gov) wprog" where
  "Command E key request fn =
     andthen (stop_if (length key = 0 \<or> 128 < length key)
       (Fault ''VALIDATION_ERROR'' ''Idempotency-Key is required (1-128 characters)'' 400))
     (bnd (of_option (Internal ''json: unsupported value'') (marshal request)) (\<lambda>raw.
      Transaction E (command_tx E key (fingerprint E raw) fn)))"

text \<open>\<open>Query\<close>: every row is a JSON document, read into a map.\<close>

fun Query :: "json list \<Rightarrow> gobj list option" where
  "Query [] = Some []"
| "Query (row # rows) = (case decode_map row [] of
      None \<Rightarrow> None
    | Some x \<Rightarrow> map_option ((#) x) (Query rows))"

definition read_rows :: "json list \<Rightarrow> ('s, gobj list) prog" where
  "read_rows rows = of_option (Internal ''json: cannot unmarshal'') (Query rows)"

section \<open>Consuming events\<close>

text \<open>The inbox marker; the result is the number of rows inserted.\<close>

definition insert_processed :: "env \<Rightarrow> string \<Rightarrow> ('a pdb_scheme, nat) wprog" where
  "insert_processed E eid =
     bnd (sql_uuid E eid) (\<lambda>u.
     bnd (gets (\<lambda>w. processed (db w))) (\<lambda>rows.
     if (u, svc_name E) \<in> set rows then ret 0
     else andthen (modify (\<lambda>w. w\<lparr>db := (db w)\<lparr>processed := rows @ [(u, svc_name E)]\<rparr>\<rparr>)) (ret 1)))"

lemma wp_insert_processed [wp_simps]:
  "wp (insert_processed E eid) Q R w =
     ((pg_uuid E eid = None \<longrightarrow> R (Internal ''invalid input syntax for type uuid'') w) \<and>
      (\<forall>u. pg_uuid E eid = Some u \<longrightarrow>
        ((u, svc_name E) \<in> set (processed (db w)) \<longrightarrow> Q 0 w) \<and>
        ((u, svc_name E) \<notin> set (processed (db w)) \<longrightarrow>
           Q 1 (w\<lparr>db := (db w)\<lparr>processed := processed (db w) @ [(u, svc_name E)]\<rparr>\<rparr>))))"
  by (auto simp: insert_processed_def wp_simps)

text \<open>What a \<open>NOT NULL\<close> column says to the payload of an event that has none.\<close>

definition not_null_payload :: err where
  "not_null_payload = Internal ''null value in column payload violates not-null constraint''"

type_synonym ('a) handler = "env \<Rightarrow> gobj delivered \<Rightarrow> ('a pdb_scheme, unit) wprog"

definition Process :: "env \<Rightarrow> gobj delivered \<Rightarrow> 'a handler \<Rightarrow> ('a pdb_scheme, unit) wprog" where
  "Process E event handler = Transaction E
     (bnd (insert_processed E (ev_id event)) (\<lambda>affected.
      if affected = 0 then ret () else handler E event))"

text \<open>
  Reading a message: the envelope must be version 1 with a UUID, its payload an object, or null or
  absent (\<open>JNull\<close>), which leaves the map nil.
\<close>

definition parse_message :: "env \<Rightarrow> json event option \<Rightarrow> err + gobj delivered" where
  "parse_message E value =
     (case value of
        None \<Rightarrow> Inl (Internal ''invalid character'')
      | Some m \<Rightarrow>
        (case decode_map (ev_payload m) [] of
           None \<Rightarrow> Inl (Internal ''json: cannot unmarshal'')
         | Some p \<Rightarrow>
            if ev_version m \<noteq> 1 \<or> \<not> uuid_ok E (ev_id m)
            then Inl (Internal ''invalid event envelope'')
            else Inr \<lparr>ev_id = ev_id m, ev_type = ev_type m, ev_version = ev_version m,
                   ev_time = ev_time m, ev_source = ev_source m,
                   ev_correlation = ev_correlation m, ev_traceparent = ev_traceparent m,
                   ev_payload = p, ev_nil = (ev_payload m = JNull)\<rparr>))"

definition WriteMessages :: "env \<Rightarrow> kafka_msg \<Rightarrow> ('d, unit) wprog" where
  "WriteMessages E m =
     bnd (gets sends) (\<lambda>n.
     andthen (modify (\<lambda>w. w\<lparr>sends := Suc n\<rparr>))
     (if kafka_ok E n then modify (\<lambda>w. w\<lparr>kafka := kafka w @ [m]\<rparr>)
      else throw (Internal ''kafka write'')))"

lemma wp_WriteMessages [wp_simps]:
  "wp (WriteMessages E m) Q R w =
     ((kafka_ok E (sends w) \<longrightarrow> Q () (w\<lparr>sends := Suc (sends w), kafka := kafka w @ [m]\<rparr>)) \<and>
      (\<not> kafka_ok E (sends w) \<longrightarrow> R (Internal ''kafka write'') (w\<lparr>sends := Suc (sends w)\<rparr>)))"
  by (auto simp: WriteMessages_def wp_simps)

text \<open>
  The retry loop on one message, on what reading it returned once and for all. Each attempt happens
  in its own environment; the list ends when the context is cancelled. From the fifth attempt on a
  failure is sent to the dead-letter topic. The result tells whether \<open>err\<close> is \<open>nil\<close> after the loop, so
  that the offset is committed: before the first attempt \<open>err\<close> is what reading the message returned.
\<close>

definition dead_letter :: "env \<Rightarrow> kafka_msg \<Rightarrow> err \<Rightarrow> kafka_msg" where
  "dead_letter E m e = \<lparr>km_topic = ''wms.events.DLT'', km_key = km_key m, km_value = km_value m,
     km_headers = [(''consumer'', svc_name E), (''error'', fault_Error e)]\<rparr>"

definition attempt_read ::
  "env \<Rightarrow> 'a handler \<Rightarrow> err + gobj delivered \<Rightarrow> ('a pdb_scheme, unit) wprog" where
  "attempt_read E handler value =
     (case value of
        Inl e \<Rightarrow> throw e
      | Inr event \<Rightarrow>
          Process (E\<lparr>ctx_corr := Some (ev_correlation event)\<rparr>) event handler)"

definition attempt_event ::
  "env \<Rightarrow> 'a handler \<Rightarrow> kafka_msg \<Rightarrow> ('a pdb_scheme, unit) wprog" where
  "attempt_event E handler m = attempt_read E handler (parse_message E (km_value m))"

fun consume_message ::
  "'a handler \<Rightarrow> kafka_msg \<Rightarrow> err + gobj delivered \<Rightarrow> nat \<Rightarrow> env list \<Rightarrow> 'a pdb_scheme world \<Rightarrow> bool \<times> 'a pdb_scheme world" where
  "consume_message handler m value attempt [] w =
     (attempt = 0 \<and> (case value of Inr _ \<Rightarrow> True | Inl _ \<Rightarrow> False), w)"
| "consume_message handler m value attempt (E # Es) w =
     (case attempt_read E handler value w of
        (Inr _, w1) \<Rightarrow> (True, snd (Count ''kafka'' ''success'' w1))
      | (Inl e, w1) \<Rightarrow>
          (let w2 = snd (Count ''kafka'' ''failure'' w1) in
           if 4 \<le> attempt then
             (case WriteMessages E (dead_letter E m e) w2 of
                (Inr _, w3) \<Rightarrow> (True, w3)
              | (Inl _, w3) \<Rightarrow> consume_message handler m value (Suc attempt) Es w3)
           else consume_message handler m value (Suc attempt) Es w2))"

text \<open>
  The fetch loop on a partition, from offset \<open>pos\<close>: for each fetched message the environment in
  which it is read, those of its attempts, and whether the commit reaches the broker (its failure
  is logged only). The result is the committed offset. The loop ends when the context is cancelled:
  inside the retry loop, before the next fetch, or between a fetch and the first attempt (no
  attempts: what was fetched after it is not reached).
\<close>

fun Consume ::
  "'a handler \<Rightarrow> nat \<Rightarrow> nat \<Rightarrow> (kafka_msg \<times> env \<times> env list \<times> bool) list \<Rightarrow> 'a pdb_scheme world \<Rightarrow> nat \<times> 'a pdb_scheme world" where
  "Consume handler pos committed [] w = (committed, w)"
| "Consume handler pos committed ((m, E, Es, commits) # rest) w =
     (case consume_message handler m (parse_message E (km_value m)) 0 Es w of
        (True, w1) \<Rightarrow>
          (let committed' = (if commits then Suc pos else committed)
           in if Es = [] then (committed', w1) else Consume handler (Suc pos) committed' rest w1)
      | (False, w1) \<Rightarrow> (committed, w1))"

section \<open>Publishing the outbox\<close>

definition pending_batch :: "outbox_row list \<Rightarrow> outbox_row list" where
  "pending_batch rows = take 50 (sort_key ob_seq (filter (\<lambda>r. ob_published r = None) rows))"

definition outbox_message :: "outbox_row \<Rightarrow> kafka_msg" where
  "outbox_message r = \<lparr>km_topic = ''wms.events'', km_key = ob_key r, km_value = Some (ob_body r),
     km_headers = []\<rparr>"

definition mark_published :: "env \<Rightarrow> string \<Rightarrow> ('a pdb_scheme, unit) wprog" where
  "mark_published E i = modify (\<lambda>w. w\<lparr>db := (db w)\<lparr>outbox :=
     update_rows ob_id i (\<lambda>r. r\<lparr>ob_published := Some (pg_now E)\<rparr>) (outbox (db w))\<rparr>\<rparr>)"

fun publish_rows :: "env \<Rightarrow> outbox_row list \<Rightarrow> ('a pdb_scheme, unit) wprog" where
  "publish_rows E [] = ret ()"
| "publish_rows E (r # rs) =
     andthen (WriteMessages E (outbox_message r))
     (andthen (mark_published E (ob_id r)) (publish_rows E rs))"

text \<open>One tick of the publisher; an error is logged and the loop goes on.\<close>

definition Outbox_batch :: "env \<Rightarrow> ('a pdb_scheme, unit) wprog" where
  "Outbox_batch E = Transaction E
     (bnd (gets (\<lambda>w. pending_batch (outbox (db w)))) (publish_rows E))"

definition Outbox_tick :: "env \<Rightarrow> 'a pdb_scheme world \<Rightarrow> 'a pdb_scheme world" where
  "Outbox_tick E w = snd (Outbox_batch E w)"

section \<open>HTTP\<close>

text \<open>\<open>http.StatusText\<close>.\<close>

definition status_texts :: "(int \<times> string) list" where
  "status_texts =
    [(100, ''Continue''), (101, ''Switching Protocols''), (102, ''Processing''),
     (103, ''Early Hints''), (200, ''OK''), (201, ''Created''), (202, ''Accepted''),
     (203, ''Non-Authoritative Information''), (204, ''No Content''), (205, ''Reset Content''),
     (206, ''Partial Content''), (207, ''Multi-Status''), (208, ''Already Reported''),
     (226, ''IM Used''), (300, ''Multiple Choices''), (301, ''Moved Permanently''),
     (302, ''Found''), (303, ''See Other''), (304, ''Not Modified''), (305, ''Use Proxy''),
     (307, ''Temporary Redirect''), (308, ''Permanent Redirect''), (400, ''Bad Request''),
     (401, ''Unauthorized''), (402, ''Payment Required''), (403, ''Forbidden''),
     (404, ''Not Found''), (405, ''Method Not Allowed''), (406, ''Not Acceptable''),
     (407, ''Proxy Authentication Required''), (408, ''Request Timeout''), (409, ''Conflict''),
     (410, ''Gone''), (411, ''Length Required''), (412, ''Precondition Failed''),
     (413, ''Request Entity Too Large''), (414, ''Request URI Too Long''),
     (415, ''Unsupported Media Type''), (416, ''Requested Range Not Satisfiable''),
     (417, ''Expectation Failed''), (418, ''I'' @ [CHR 0x27] @ ''m a teapot''),
     (421, ''Misdirected Request''), (422, ''Unprocessable Entity''), (423, ''Locked''),
     (424, ''Failed Dependency''), (425, ''Too Early''), (426, ''Upgrade Required''),
     (428, ''Precondition Required''), (429, ''Too Many Requests''),
     (431, ''Request Header Fields Too Large''), (451, ''Unavailable For Legal Reasons''),
     (500, ''Internal Server Error''), (501, ''Not Implemented''), (502, ''Bad Gateway''),
     (503, ''Service Unavailable''), (504, ''Gateway Timeout''),
     (505, ''HTTP Version Not Supported''), (506, ''Variant Also Negotiates''),
     (507, ''Insufficient Storage''), (508, ''Loop Detected''), (510, ''Not Extended''),
     (511, ''Network Authentication Required'')]"

definition StatusText :: "int \<Rightarrow> string" where
  "StatusText n = (case map_of status_texts n of Some t \<Rightarrow> t | None \<Rightarrow> [])"

definition fmtStatus :: "int \<Rightarrow> err" where
  "fmtStatus status = Fault ''DEPENDENCY_UNAVAILABLE'' (StatusText status) 503"

text \<open>
  \<open>Get[T]\<close>: the data of the envelope, decoded by \<open>d\<close> into the zero value \<open>z\<close>; the request
  carries the correlation id, which may draw a UUID.
\<close>

definition Get :: "env \<Rightarrow> (json \<Rightarrow> 'r \<Rightarrow> 'r option) \<Rightarrow> 'r \<Rightarrow> string \<Rightarrow> ('d, 'r) wprog" where
  "Get E d z url =
     andthen (Correlation E)
     (case http_get E url of
        NoReply e \<Rightarrow> throw (Internal e)
      | Reply status body \<Rightarrow>
          if status = 404 then throw (Fault ''NOT_FOUND'' ''Referenced resource not found'' 404)
          else if status \<noteq> 200 then throw (fmtStatus status)
          else (case body of
              None \<Rightarrow> throw (Internal ''invalid JSON'')
            | Some j \<Rightarrow> of_option (Internal ''json: cannot unmarshal'')
                (decode_struct False [(''data'', d)] j z)))"

text \<open>The value a \<open>Get\<close> yields, as a pure function of the peer's reply.\<close>

definition reply_value :: "(json \<Rightarrow> 'r \<Rightarrow> 'r option) \<Rightarrow> 'r \<Rightarrow> http_reply \<Rightarrow> err + 'r" where
  "reply_value d z reply = (case reply of
      NoReply e \<Rightarrow> Inl (Internal e)
    | Reply status body \<Rightarrow>
        if status = 404 then Inl (Fault ''NOT_FOUND'' ''Referenced resource not found'' 404)
        else if status \<noteq> 200 then Inl (fmtStatus status)
        else (case body of None \<Rightarrow> Inl (Internal ''invalid JSON'')
          | Some j \<Rightarrow> (case decode_struct False [(''data'', d)] j z of
              None \<Rightarrow> Inl (Internal ''json: cannot unmarshal'') | Some r \<Rightarrow> Inr r)))"

definition after_correlation :: "env \<Rightarrow> 'd world \<Rightarrow> 'd world" where
  "after_correlation E w = (case ctx_corr E of Some _ \<Rightarrow> w | None \<Rightarrow> w\<lparr>uuids := Suc (uuids w)\<rparr>)"

lemma after_correlation_frame [simp]:
  "db (after_correlation E w) = db w" "held (after_correlation E w) = held w"
  "metrics (after_correlation E w) = metrics w" "kafka (after_correlation E w) = kafka w"
  "redis (after_correlation E w) = redis w" "seqno (after_correlation E w) = seqno w"
  "ticks (after_correlation E w) = ticks w" "sends (after_correlation E w) = sends w"
  by (simp_all add: after_correlation_def split: option.split)

lemma wp_Get [wp_simps]:
  "wp (Get E d z url) Q R w =
     ((\<forall>e. reply_value d z (http_get E url) = Inl e \<longrightarrow> R e (after_correlation E w)) \<and>
      (\<forall>v. reply_value d z (http_get E url) = Inr v \<longrightarrow> Q v (after_correlation E w)))"
proof -
  have "wp (Get E d z url) Q R w = wp (of_sum (reply_value d z (http_get E url))) Q R (after_correlation E w)"
    by (auto simp: Get_def reply_value_def after_correlation_def wp_simps
        split: http_reply.splits option.splits)
  then show ?thesis by (simp add: wp_simps)
qed

text \<open>\<open>Wrap\<close>: the correlation id of a request, and the reply for the endpoint's result.\<close>

definition request_correlation :: "env \<Rightarrow> string \<Rightarrow> ('d, string) wprog" where
  "request_correlation E header =
     (if length header = 0 \<or> 80 < length header then NewString E else ret header)"

datatype http_response =
    DataEnvelope gov
  | ErrorEnvelope (resp_status: int) (resp_code: string) (resp_message: string)

definition respond :: "err + gov \<Rightarrow> http_response" where
  "respond r = (case r of
      Inr v \<Rightarrow> DataEnvelope v
    | Inl (Fault code message status) \<Rightarrow> ErrorEnvelope status code message
    | Inl (Internal _) \<Rightarrow> ErrorEnvelope 500 ''INTERNAL_ERROR'' ''Unexpected server error'')"

definition Wrap :: "env \<Rightarrow> string \<Rightarrow> (env \<Rightarrow> ('d, gov) wprog) \<Rightarrow> 'd world \<Rightarrow> http_response \<times> 'd world" where
  "Wrap E header endpoint w =
     (case request_correlation E header w of
        (Inr c, w1) \<Rightarrow>
          (case endpoint (E\<lparr>ctx_corr := Some c\<rparr>) w1 of (r, w2) \<Rightarrow> (respond r, w2))
      | (Inl e, w1) \<Rightarrow> (respond (Inl e), w1))"

text \<open>\<open>Body[T]\<close>: one JSON value of at most a megabyte without unknown fields, and nothing else.\<close>

datatype http_body =
    BadBody string
  | JsonBody json bool   \<comment> \<open>the first value, and whether more follows it\<close>

definition Body :: "(json \<Rightarrow> 'r \<Rightarrow> 'r option) \<Rightarrow> 'r \<Rightarrow> http_body \<Rightarrow> err + 'r" where
  "Body d z body = (case body of
      BadBody e \<Rightarrow> Inl (Fault ''VALIDATION_ERROR'' e 400)
    | JsonBody j trailing \<Rightarrow>
       (case d j z of
          None \<Rightarrow> Inl (Fault ''VALIDATION_ERROR'' ''json: cannot unmarshal'' 400)
        | Some v \<Rightarrow>
            if trailing then Inl (Fault ''VALIDATION_ERROR'' ''Expected a single JSON value'' 400)
            else Inr v))"

definition health :: "bool \<Rightarrow> bool \<Rightarrow> bool \<Rightarrow> err + gov" where
  "health db_up redis_up kafka_up =
     (if \<not> db_up then Inl (Fault ''UNAVAILABLE'' ''PostgreSQL unavailable'' 503)
      else if \<not> redis_up then Inl (Fault ''UNAVAILABLE'' ''Redis unavailable'' 503)
      else if \<not> kafka_up then Inl (Fault ''UNAVAILABLE'' ''Kafka unavailable'' 503)
      else Inr (GObj [(''status'', GStr ''UP'')]))"

end
