(* ===== verification/Delivery.thy ===== *)
theory Delivery
  imports Platform
begin

text \<open>
  What the runtime promises about delivery: consumer transactions are atomic and run the handler
  at most once per event, the retry loop commits an offset only for a message it has processed
  or dead-lettered, the outbox publishes every row at least once and in order, and HTTP commands
  are idempotent per key. The contract a service must keep for that is the locale
  \<open>inbox_handler\<close> (its handler never forgets inbox markers) and the locale \<open>command_body\<close> (its
  commands never touch the saved replies); each service interprets them on its own handlers.
\<close>

section \<open>Consumer transactions\<close>

lemma Transaction_error_db:
  "Transaction E fn w = (Inl e, w') \<Longrightarrow> db w' = db w"
  by (auto simp: Transaction_def split: if_splits prod.splits sum.splits)

lemma Transaction_held: "snd (Transaction E fn w) = w' \<Longrightarrow> held w' = held w"
  by (auto simp: Transaction_def split: if_splits prod.splits sum.splits)

lemma Transaction_success:
  "Transaction E fn w = (Inr x, w') \<longleftrightarrow>
     begin_ok E \<and> commit_ok E \<and> (\<exists>t. fn w = (Inr x, t) \<and> w' = t\<lparr>held := held w\<rparr>)"
  by (auto simp: Transaction_def split: if_splits prod.splits sum.splits)

lemma Command_run:
  "Command E key request fn w =
     (if length key = 0 \<or> 128 < length key
      then (Inl (Fault ''VALIDATION_ERROR'' ''Idempotency-Key is required (1-128 characters)'' 400), w)
      else case marshal request of
        None \<Rightarrow> (Inl (Internal ''json: unsupported value''), w)
      | Some raw \<Rightarrow> Transaction E (command_tx E key (fingerprint E raw) fn) w)"
  by (simp add: Command_def andthen_def bnd_def stop_if_def of_option_def throw_def ret_def split: option.split)

fun deliveries :: "'a handler \<Rightarrow> (env \<times> gobj delivered) list \<Rightarrow> 'a pdb_scheme world \<Rightarrow> 'a pdb_scheme world" where
  "deliveries h [] w = w"
| "deliveries h ((E, ev) # xs) w = deliveries h xs (snd (Process E ev h w))"

lemma insert_processed_run:
  "insert_processed E eid w = (case pg_uuid E eid of
      None \<Rightarrow> (Inl (Internal ''invalid input syntax for type uuid''), w)
    | Some u \<Rightarrow> if (u, svc_name E) \<in> set (processed (db w)) then (Inr 0, w)
        else (Inr 1, w\<lparr>db := (db w)\<lparr>processed := processed (db w) @ [(u, svc_name E)]\<rparr>\<rparr>))"
  by (simp add: insert_processed_def bnd_def gets_def sql_uuid_def of_option_def ret_def throw_def
      andthen_def modify_def split: option.split)

text \<open>The state a handler starts from: its event is already marked in the inbox.\<close>

definition marked :: "env \<Rightarrow> string \<Rightarrow> 'a pdb_scheme world \<Rightarrow> 'a pdb_scheme world" where
  "marked E u w = w\<lparr>db := (db w)\<lparr>processed := processed (db w) @ [(u, svc_name E)]\<rparr>\<rparr>"

lemma Process_body:
  "bnd (insert_processed E (ev_id ev)) (\<lambda>n. if n = 0 then ret () else h E ev) w =
     (case pg_uuid E (ev_id ev) of
        None \<Rightarrow> (Inl (Internal ''invalid input syntax for type uuid''), w)
      | Some u \<Rightarrow> if (u, svc_name E) \<in> set (processed (db w)) then (Inr (), w) else h E ev (marked E u w))"
  by (simp add: bnd_def insert_processed_run ret_def marked_def split: option.split)

lemma Process_seen:
  assumes "pg_uuid E (ev_id ev) = Some u" "(u, svc_name E) \<in> set (processed (db w))"
    and "begin_ok E" "commit_ok E"
  shows "Process E ev h w = (Inr (), w)"
  unfolding Process_def Transaction_def Process_body using assms by simp

lemma Process_fresh:
  assumes "pg_uuid E (ev_id ev) = Some u" "(u, svc_name E) \<notin> set (processed (db w))"
  shows "Process E ev h w = (Inr x, w') \<longleftrightarrow> begin_ok E \<and> commit_ok E \<and>
    (\<exists>t. h E ev (marked E u w) = (Inr x, t) \<and> w' = t\<lparr>held := held w\<rparr>)"
  unfolding Process_def Transaction_success Process_body using assms by simp

lemma Process_InrE:
  assumes "Process E ev h w = (Inr x, w')"
  obtains u where "pg_uuid E (ev_id ev) = Some u" "begin_ok E" "commit_ok E"
    "(u, svc_name E) \<in> set (processed (db w))" "w' = w"
  | u t where "pg_uuid E (ev_id ev) = Some u" "begin_ok E" "commit_ok E"
    "(u, svc_name E) \<notin> set (processed (db w))" "h E ev (marked E u w) = (Inr x, t)"
    "w' = t\<lparr>held := held w\<rparr>"
proof -
  from assms have ok: "begin_ok E" "commit_ok E" and
    r: "\<exists>t. bnd (insert_processed E (ev_id ev)) (\<lambda>n. if n = 0 then ret () else h E ev) w = (Inr x, t)
        \<and> w' = t\<lparr>held := held w\<rparr>"
    unfolding Process_def Transaction_success by blast+
  obtain t where t: "bnd (insert_processed E (ev_id ev)) (\<lambda>n. if n = 0 then ret () else h E ev) w = (Inr x, t)"
    "w' = t\<lparr>held := held w\<rparr>" using r by blast
  obtain u where u: "pg_uuid E (ev_id ev) = Some u"
    using t(1) unfolding Process_body by (cases "pg_uuid E (ev_id ev)") auto
  show thesis
  proof (cases "(u, svc_name E) \<in> set (processed (db w))")
    case True
    then have "t = w" using t(1) unfolding Process_body u by simp
    then have "w' = w" using t(2) by simp
    with True u ok that(1) show thesis by blast
  next
    case False
    then have "h E ev (marked E u w) = (Inr x, t)" using t(1) unfolding Process_body u by simp
    with False u ok t(2) that(2) show thesis by blast
  qed
qed

locale inbox_handler =
  fixes h :: "'a handler"
  assumes keeps_inbox: "h E ev w = (Inr (), w') \<Longrightarrow> set (processed (db w)) \<subseteq> set (processed (db w'))"
begin

lemma process_marks:
  assumes "Process E ev h w = (Inr (), w')"
  shows "\<exists>u. pg_uuid E (ev_id ev) = Some u \<and> (u, svc_name E) \<in> set (processed (db w'))
    \<and> set (processed (db w)) \<subseteq> set (processed (db w'))"
  using assms
proof (cases rule: Process_InrE)
  case (2 u t)
  then show ?thesis using keeps_inbox [OF 2(5)] by (auto simp: marked_def)
qed auto

lemma process_keeps:
  assumes "(u, c) \<in> set (processed (db w))"
  shows "(u, c) \<in> set (processed (db (snd (Process E ev h w))))"
proof (cases "Process E ev h w")
  case (Pair r w')
  show ?thesis
  proof (cases r)
    case (Inl e)
    with Pair have "db w' = db w" by (auto simp: Process_def dest: Transaction_error_db)
    with assms Pair show ?thesis by simp
  next
    case (Inr x)
    with Pair have "Process E ev h w = (Inr (), w')" by simp
    from process_marks [OF this] assms Pair show ?thesis by auto
  qed
qed

lemma deliveries_keep:
  "(u, c) \<in> set (processed (db w)) \<Longrightarrow> (u, c) \<in> set (processed (db (deliveries h xs w)))"
proof (induction xs arbitrary: w)
  case (Cons x xs)
  then show ?case by (cases x) (simp add: process_keeps)
qed simp

lemma redelivery_ignored:
  assumes "Process E ev h w = (Inr (), w1)"
    and "w2 = deliveries h xs w1"
    and "pg_uuid E' (ev_id ev') = pg_uuid E (ev_id ev)" "svc_name E' = svc_name E"
    and "begin_ok E'" "commit_ok E'"
  shows "Process E' ev' h w2 = (Inr (), w2)"
proof -
  obtain u where u: "pg_uuid E (ev_id ev) = Some u" "(u, svc_name E) \<in> set (processed (db w1))"
    using process_marks [OF assms(1)] by blast
  have "(u, svc_name E) \<in> set (processed (db w2))"
    unfolding assms(2) by (rule deliveries_keep) (rule u(2))
  with u(1) assms(3-6) show ?thesis by (intro Process_seen) simp_all
qed

end

section \<open>The retry loop\<close>

lemma attempt_read_error_db:
  "attempt_read E h v w = (Inl e, w') \<Longrightarrow> db w' = db w"
  by (auto simp: attempt_read_def throw_def Process_def dest: Transaction_error_db
      split: sum.splits)

lemma Count_run: "Count a b w = (Inr (), w\<lparr>metrics := (a, b) # metrics w\<rparr>)"
  by (simp add: Count_def modify_def)

lemma WriteMessages_run:
  "WriteMessages E m w =
     (if kafka_ok E (sends w) then (Inr (), w\<lparr>sends := Suc (sends w), kafka := kafka w @ [m]\<rparr>)
      else (Inl (Internal ''kafka write''), w\<lparr>sends := Suc (sends w)\<rparr>))"
  by (simp add: WriteMessages_def bnd_def gets_def andthen_def modify_def throw_def)

lemma WriteMessages_db [simp]: "db (snd (WriteMessages E m w)) = db w"
  by (simp add: WriteMessages_run)

text \<open>How a message left the loop.\<close>

definition handled ::
  "'a handler \<Rightarrow> err + gobj delivered \<Rightarrow> env list \<Rightarrow> 'a pdb_scheme world \<Rightarrow> 'a pdb_scheme world \<Rightarrow> bool" where
  "handled h v Es w w' = (\<exists>E w0 w1. E \<in> set Es \<and> db w0 = db w \<and>
     attempt_read E h v w0 = (Inr (), w1) \<and> db w' = db w1)"

definition dead_lettered ::
  "kafka_msg \<Rightarrow> env list \<Rightarrow> 'a pdb_scheme world \<Rightarrow> 'a pdb_scheme world \<Rightarrow> bool" where
  "dead_lettered m Es w w' = (\<exists>E e ms. E \<in> set Es \<and> db w' = db w \<and>
     kafka w' = ms @ [dead_letter E m e])"

text \<open>The third way: no attempt was made, and the message could be read.\<close>

definition skipped ::
  "err + gobj delivered \<Rightarrow> env list \<Rightarrow> 'a pdb_scheme world \<Rightarrow> 'a pdb_scheme world \<Rightarrow> bool" where
  "skipped v Es w w' = (Es = [] \<and> w' = w \<and> (\<exists>event. v = Inr event))"

lemma consume_message_outcome:
  assumes "consume_message h m v n Es w = (committed, w')"
  shows "if committed then handled h v Es w w' \<or> dead_lettered m Es w w' \<or> n = 0 \<and> skipped v Es w w' else db w' = db w"
  using assms
proof (induction Es arbitrary: n w)
  case Nil
  then show ?case by (auto simp: skipped_def split: sum.splits)
next
  case (Cons E Es)
  obtain r w1 where a: "attempt_read E h v w = (r, w1)" by fastforce
  show ?case
  proof (cases r)
    case (Inr x)
    with a Cons.prems have "committed" "db w' = db w1" by (auto simp: Count_run)
    with a Inr show ?thesis by (auto simp: handled_def)
  next
    case (Inl e)
    then have d: "db w1 = db w" using a attempt_read_error_db by blast
    have lift: ?thesis if "consume_message h m v (Suc n) Es x = (committed, w')" "db x = db w" for x
    proof -
      have "if committed then handled h v Es x w' \<or> dead_lettered m Es x w' else db w' = db x"
        using Cons.IH [OF that(1)] by (auto split: if_splits)
      then show ?thesis using that(2)
        unfolding handled_def dead_lettered_def list.set(2) by (metis insert_iff)
    qed
    let ?w2 = "w1\<lparr>metrics := (''kafka'', ''failure'') # metrics w1\<rparr>"
    show ?thesis
    proof (cases "4 \<le> n \<and> kafka_ok E (sends ?w2)")
      case True
      with a Inl Cons.prems have "committed" "db w' = db w1" "kafka w' = kafka w1 @ [dead_letter E m e]"
        by (auto simp: Count_run WriteMessages_run Let_def)
      with d show ?thesis by (auto simp: dead_lettered_def)
    next
      case False
      then have "consume_message h m v (Suc n) Es
          (if 4 \<le> n then ?w2\<lparr>sends := Suc (sends ?w2)\<rparr> else ?w2) = (committed, w')"
        using a Inl Cons.prems by (auto simp: Count_run WriteMessages_run Let_def split: if_splits)
      then show ?thesis by (rule lift) (simp add: d)
    qed
  qed
qed

lemma consume_message_commits:
  assumes "i < length Es" "4 \<le> n + i" "\<And>k. kafka_ok (Es ! i) k"
  shows "fst (consume_message h m v n Es w)"
  using assms
proof (induction Es arbitrary: n i w)
  case Nil
  then show ?case by simp
next
  case (Cons E Es)
  obtain r w1 where a: "attempt_read E h v w = (r, w1)" by fastforce
  show ?case
  proof (cases i)
    case 0
    with Cons.prems a show ?thesis
      by (cases r) (simp_all add: Count_run WriteMessages_run Let_def)
  next
    case (Suc j)
    have "fst (consume_message h m v (Suc n) Es x)" for x
      using Cons.prems Suc by (intro Cons.IH [of j]) auto
    with a show ?thesis
      by (cases r) (simp_all add: Count_run WriteMessages_run Let_def)
  qed
qed

section \<open>Publishing\<close>

definition publish_row :: "env \<Rightarrow> outbox_row list \<Rightarrow> outbox_row \<Rightarrow> outbox_row" where
  "publish_row E batch r =
     (if ob_id r \<in> ob_id ` set batch then r\<lparr>ob_published := Some (pg_now E)\<rparr> else r)"

lemma publish_row_simps [simp]:
  "ob_id (publish_row E b r) = ob_id r" "ob_body (publish_row E b r) = ob_body r"
  "ob_key (publish_row E b r) = ob_key r" "ob_seq (publish_row E b r) = ob_seq r"
  by (simp_all add: publish_row_def)

lemma publish_rows_Inr:
  "publish_rows E rs w = (Inr (), w') \<Longrightarrow>
     kafka w' = kafka w @ map outbox_message rs \<and>
     db w' = (db w)\<lparr>outbox := map (publish_row E rs) (outbox (db w))\<rparr>"
proof (induction rs arbitrary: w)
  case Nil
  then show ?case by (simp add: ret_def publish_row_def)
next
  case (Cons r rs)
  have p: "publish_row E rs (if ob_id x = ob_id r then x\<lparr>ob_published := Some (pg_now E)\<rparr> else x)
      = publish_row E (r # rs) x" for x
    by (simp add: publish_row_def)
  from Cons.prems show ?case
    by (auto simp: andthen_def bnd_def WriteMessages_run mark_published_def modify_def
        update_rows_def p comp_def split: if_splits dest!: Cons.IH)
qed

lemma publish_rows_Inl:
  "publish_rows E rs w = (Inl e, w') \<Longrightarrow>
     (\<exists>k < length rs. kafka w' = kafka w @ map outbox_message (take k rs))"
proof (induction rs arbitrary: w)
  case Nil
  then show ?case by (simp add: ret_def)
next
  case (Cons r rs)
  show ?case
  proof (cases "kafka_ok E (sends w)")
    case True
    with Cons.prems obtain v where "publish_rows E rs v = (Inl e, w')"
      "kafka v = kafka w @ [outbox_message r]"
      by (auto simp: andthen_def bnd_def WriteMessages_run mark_published_def modify_def)
    from Cons.IH [OF this(1)] this(2) obtain k where "k < length rs"
      "kafka w' = kafka w @ map outbox_message (take (Suc k) (r # rs))" by auto
    then show ?thesis by (metis Suc_less_eq length_Cons)
  next
    case False
    with Cons.prems have "kafka w' = kafka w"
      by (auto simp: andthen_def bnd_def WriteMessages_run)
    then show ?thesis by (intro exI [of _ 0]) simp
  qed
qed

lemma publish_rows_ok:
  assumes "\<And>n. kafka_ok E n"
  shows "\<exists>w'. publish_rows E rs w = (Inr (), w')"
proof (induction rs arbitrary: w)
  case (Cons r rs)
  then show ?case using assms
    by (simp add: andthen_def bnd_def WriteMessages_run mark_published_def modify_def)
qed (simp add: ret_def)

definition pending :: "outbox_row list \<Rightarrow> outbox_row list" where
  "pending rows = filter (\<lambda>r. ob_published r = None) rows"

lemma pending_batch_set: "set (pending_batch rows) \<subseteq> set (pending rows)"
  unfolding pending_batch_def pending_def using set_take_subset by fastforce

lemma pending_batch_length: "length (pending_batch rows) = min (length (pending rows)) 50"
  by (simp add: pending_batch_def pending_def min.commute)

lemma pending_batch_sorted: "sorted (map ob_seq (pending_batch rows))"
  by (simp add: pending_batch_def take_map [symmetric] sorted_wrt_take)

lemma distinct_pending_batch:
  "distinct (map ob_id rows) \<Longrightarrow> distinct (map ob_id (pending_batch rows))"
  by (simp add: pending_batch_def distinct_map distinct_take inj_on_subset [OF _ set_take_subset]
      inj_on_filter_key_eq) (metis (no_types, lifting) filter_is_subset inj_on_subset set_sort
      set_take_subset)

lemma pending_after_publish:
  assumes "distinct (map ob_id rows)" "set batch \<subseteq> set (pending rows)" "distinct (map ob_id batch)"
  shows "length (pending (map (publish_row E batch) rows)) = length (pending rows) - length batch"
proof -
  have "pending (map (publish_row E batch) rows) =
      filter (\<lambda>r. ob_id r \<notin> ob_id ` set batch) (pending rows)"
    by (induction rows) (auto simp: pending_def publish_row_def)
  then have "length (pending (map (publish_row E batch) rows)) =
      card (set (pending rows) - set batch)"
  proof -
    have d: "distinct (pending rows)" "inj_on ob_id (set (pending rows))"
      using assms(1) by (auto simp: pending_def distinct_map intro: inj_on_subset)
    have s: "set (filter (\<lambda>r. ob_id r \<notin> ob_id ` set batch) (pending rows)) = set (pending rows) - set batch"
      using d(2) assms(2) by (auto dest: inj_onD)
    show ?thesis using d(1) s
      by (metis \<open>pending (map (publish_row E batch) rows) = _\<close> distinct_card distinct_filter)
  qed
  also have "\<dots> = card (set (pending rows)) - card (set batch)"
    using assms(2) by (intro card_Diff_subset) auto
  also have "card (set (pending rows)) = length (pending rows)"
    using assms(1) by (intro distinct_card) (simp add: pending_def distinct_map)
  also have "card (set batch) = length batch"
    using assms(3) by (intro distinct_card) (simp add: distinct_map)
  finally show ?thesis .
qed

lemma Outbox_batch_run:
  "Outbox_batch E w = (Inr (), w') \<Longrightarrow>
     kafka w' = kafka w @ map outbox_message (pending_batch (outbox (db w))) \<and>
     db w' = (db w)\<lparr>outbox := map (publish_row E (pending_batch (outbox (db w)))) (outbox (db w))\<rparr>"
  by (auto simp: Outbox_batch_def Transaction_success bnd_def gets_def dest!: publish_rows_Inr)

lemma Outbox_batch_ok:
  assumes "begin_ok E" "commit_ok E" "\<And>n. kafka_ok E n"
  shows "\<exists>w'. Outbox_batch E w = (Inr (), w')"
  using publish_rows_ok [of E "pending_batch (outbox (db w))" w] assms
  by (auto simp: Outbox_batch_def Transaction_success bnd_def gets_def)

fun outbox_ticks :: "env list \<Rightarrow> 'a pdb_scheme world \<Rightarrow> 'a pdb_scheme world" where
  "outbox_ticks [] w = w"
| "outbox_ticks (E # Es) w = outbox_ticks Es (Outbox_tick E w)"

section \<open>Invariants of the business tables\<close>

text \<open>Whatever a transaction ends with, it ends in the invariant.\<close>

lemma Transaction_keeps:
  assumes "keeps (\<lambda>w. J (db w)) fn" "J (db w)"
  shows "J (db (snd (Transaction E fn w)))"
  using assms(2) leads_result [where I = "\<lambda>w. J (db w)", OF assms]
  by (auto simp: Transaction_def split: prod.split sum.split)

text \<open>An endpoint is wrapped without touching the database.\<close>

lemma Wrap_keeps_any:
  assumes "\<And>c w. J (db w) \<Longrightarrow> J (db (snd (endpoint (E\<lparr>ctx_corr := c\<rparr>) w)))" "J (db w)"
  shows "J (db (snd (Wrap E header endpoint w)))"
proof -
  have "db (snd (request_correlation E header w)) = db w"
    by (simp add: request_correlation_def NewString_def bnd_def gets_def andthen_def modify_def ret_def)
  then show ?thesis using assms
    by (auto simp: Wrap_def split: prod.split sum.split) (metis prod.sel(2))+
qed

text \<open>
  A predicate of the database the runtime keeps as soon as the code it runs does: the publisher
  keeps what does not read when a row was published (an \<open>outbox_invariant\<close> does not read the outbox at
  all), a consumer also needs it not to read the inbox, a command
  not to read the saved replies (the frames tell these apart). A \<open>business_invariant\<close> reads the
  business tables only.
\<close>

locale publish_frame =
  fixes J :: "'a pdb_scheme \<Rightarrow> bool"
  assumes published: "J d \<Longrightarrow> J (d\<lparr>outbox := update_rows ob_id i (\<lambda>r. r\<lparr>ob_published := t\<rparr>) (outbox d)\<rparr>)"
begin

lemma keeps_publish_rows: "keeps (\<lambda>w. J (db w)) (publish_rows E rs)"
proof (induction rs)
  case (Cons r rs)
  have "keeps (\<lambda>w. J (db w)) (WriteMessages E m)" "keeps (\<lambda>w. J (db w)) (mark_published E i)" for m i
    by (simp_all add: leads_def wp_simps mark_published_def published)
  then show ?case unfolding publish_rows.simps by (intro keeps_andthen Cons)
qed (simp add: keeps_ret)

lemma Outbox_tick_keeps: "J (db w) \<Longrightarrow> J (db (Outbox_tick E w))"
  unfolding Outbox_tick_def Outbox_batch_def
  by (erule Transaction_keeps [where J = J, rotated]) (rule keeps_rules keeps_publish_rows)+

end

locale outbox_invariant =
  fixes J :: "'a pdb_scheme \<Rightarrow> bool"
  assumes reads_no_outbox: "J (d\<lparr>outbox := a\<rparr>) = J d"
begin

lemma Wrap_keeps:
  assumes "\<And>c w. J (db w) \<Longrightarrow> J (db (snd (endpoint (E\<lparr>ctx_corr := c\<rparr>) w)))" "J (db w)"
  shows "J (db (snd (Wrap E header endpoint w)))"
  using assms by (rule Wrap_keeps_any)

end

sublocale outbox_invariant \<subseteq> publish_frame
  by unfold_locales (simp add: reads_no_outbox)

locale inbox_frame =
  fixes J :: "'a pdb_scheme \<Rightarrow> bool"
  assumes reads_no_processed: "J (d\<lparr>processed := b\<rparr>) = J d"
begin

lemma keeps_insert_processed: "keeps (\<lambda>w. J (db w)) (insert_processed E i)"
  by (simp add: leads_def wp_simps reads_no_processed)

lemma Process_keeps:
  assumes "keeps (\<lambda>w. J (db w)) (h E ev)" "J (db w)"
  shows "J (db (snd (Process E ev h w)))"
  unfolding Process_def
  by (rule Transaction_keeps [where J = J, OF _ assms(2)])
    (rule keeps_rules keeps_insert_processed assms(1))+

lemma attempt_event_keeps:
  assumes "\<And>E' ev. pg_uuid E' = pg_uuid E \<Longrightarrow> keeps (\<lambda>w. J (db w)) (h E' ev)" "J (db w)"
  shows "J (db (snd (attempt_event E h m w)))"
  using assms by (auto simp: attempt_event_def attempt_read_def throw_def intro: Process_keeps split: sum.split)

end

locale reply_frame =
  fixes J :: "'a pdb_scheme \<Rightarrow> bool"
  assumes reads_no_commands: "J (d\<lparr>commands := c\<rparr>) = J d"
begin

lemma keeps_save_command: "keeps (\<lambda>w. J (db w)) (save_command key hash body)"
  by (simp add: leads_def wp_simps save_command_def reads_no_commands)

lemma keeps_command_tx:
  assumes "keeps (\<lambda>w. J (db w)) fn"
  shows "keeps (\<lambda>w. J (db w)) (command_tx E key hash fn)"
proof -
  have "keeps (\<lambda>w. J (db w)) (modify (\<lambda>w. w\<lparr>held := (key, 1) # held w\<rparr>))"
    by (simp add: leads_def wp_simps)
  then show ?thesis unfolding command_tx_def
    by (rule keeps_andthen) (rule keeps_save_command assms keeps_rules)+
qed

lemma Command_keeps:
  assumes "keeps (\<lambda>w. J (db w)) fn" "J (db w)"
  shows "J (db (snd (Command E key request fn w)))"
  unfolding Command_run
  using Transaction_keeps [where J = J, OF keeps_command_tx [OF assms(1)] assms(2)] assms(2)
  by (simp split: option.split)

end

locale inbox_invariant = outbox_invariant + inbox_frame

locale reply_invariant = outbox_invariant + reply_frame

text \<open>A handler that keeps such a predicate keeps it in every delivery attempt.\<close>

locale handler_invariant = inbox_invariant J for J :: "'a pdb_scheme \<Rightarrow> bool" +
  fixes h :: "'a handler" and P :: "string \<Rightarrow> string option"
  assumes code_handler: "pg_uuid E = P \<Longrightarrow> keeps (\<lambda>w. J (db w)) (h E e)"
begin

lemma attempt_keeps: "pg_uuid E = P \<Longrightarrow> J (db w) \<Longrightarrow> J (db (snd (attempt_event E h m w)))"
  by (rule attempt_event_keeps) (auto intro: code_handler)

end

locale business_invariant = inbox_invariant + reply_invariant

section \<open>Statements that leave the database alone\<close>

lemma leads_world: 
  assumes "\<And>s. db (f s) = db s"
  shows "keeps (\<lambda>w. J (db w)) (modify f)"
  by (rule keeps_modify) (simp add: assms)

lemma keeps_world:
  fixes J :: "'d \<Rightarrow> bool"
  shows "keeps (\<lambda>w. J (db w)) (Count a b)" "keeps (\<lambda>w. J (db w)) (NewString E)"
    "keeps (\<lambda>w. J (db w)) (Now E)" "keeps (\<lambda>w. J (db w)) (Lock E u)"
    "keeps (\<lambda>w. J (db w)) (ID E u)" "keeps (\<lambda>w. J (db w)) (sql_uuid E u)"
    "keeps (\<lambda>w. J (db w)) (Get E d z url)"
  by (simp_all add: leads_def wp_simps)

lemma leads_Savepoint:
  assumes "leads (\<lambda>w. J (db w)) m (\<lambda>_ w. J (db w))"
  shows "keeps (\<lambda>w. J (db w)) (Savepoint m)"
  using assms by (auto simp: leads_def wp_Savepoint elim!: wp_mono dest!: spec)

lemma reply_value_inv:
  assumes "\<And>j r r'. d j r = Some r' \<Longrightarrow> P r \<Longrightarrow> P r'" "P z" "reply_value d z reply = Inr v"
  shows "P v"
  using assms decode_struct_inv [where P = P and fs = "[(''data'', d)]" and strict = False and r = z and r' = v]
  by (auto simp: reply_value_def split: http_reply.splits if_splits option.splits)

text \<open>When an emission cannot fail, and what it leaves alone even if it does.\<close>

definition fresh_uuids :: "env \<Rightarrow> outbox_row list \<Rightarrow> bool" where
  "fresh_uuids E rows = (\<forall>n. \<exists>u. pg_uuid E (new_uuid E n) = Some u \<and> u \<notin> ob_id ` set rows)"

lemma wp_Emit_succeeds:
  assumes "marshal (GObj p) = Some b" "fresh_uuids E (outbox (db w))"
  shows "wp (Emit E k p) (\<lambda>_ _. True) (\<lambda>_ _. False) w"
proof -
  have f: "\<And>n. \<exists>u. pg_uuid E (new_uuid E n) = Some u \<and> u \<notin> ob_id ` set (outbox (db w))"
    using assms(2) by (simp add: fresh_uuids_def)
  show ?thesis using assms(1) f [of "uuids w"]
    by (auto simp: Emit_def wp_simps wp_insert_outbox Let_def simp del: marshal.simps)
qed

lemma wp_Emit_redis:
  "redis w = X \<Longrightarrow> wp (Emit E k p) (\<lambda>_ t. redis t = X) (\<lambda>_ t. redis t = X) w"
  by (simp add: Emit_def wp_simps wp_insert_outbox Let_def)

section \<open>Idempotent commands\<close>

lemma command_tx_replay:
  assumes "find_row cmd_id key (commands (db w)) = Some row"
  shows "command_tx E key hash fn w =
    ((if cmd_fingerprint row \<noteq> hash
      then Inl (Fail ''IDEMPOTENCY_CONFLICT'' ''Key reused with different request'')
      else case unmarshal (cmd_response row) of
        None \<Rightarrow> Inl (Internal ''json: cannot unmarshal'') | Some v \<Rightarrow> Inr v),
     w\<lparr>held := (key, 1) # held w\<rparr>)"
  using assms by (simp add: command_tx_def andthen_def bnd_def modify_def gets_def stop_if_def
      of_option_def throw_def ret_def split: option.split)

lemma command_tx_first:
  assumes "find_row cmd_id key (commands (db w)) = None"
    and "\<And>v x t. fn v = (Inr x, t) \<Longrightarrow> commands (db t) = commands (db v)"
    and "command_tx E key hash fn w = (Inr v, w')"
  shows "\<exists>t body. fn (w\<lparr>held := (key, 1) # held w\<rparr>) = (Inr v, t) \<and> marshal v = Some body
    \<and> db w' = (db t)\<lparr>commands := commands (db w) @
         [\<lparr>cmd_id = key, cmd_fingerprint = hash, cmd_response = body\<rparr>]\<rparr>"
proof -
  let ?w = "w\<lparr>held := (key, 1) # held w\<rparr>"
  obtain r t where r: "fn ?w = (r, t)" by fastforce
  show ?thesis
  proof (cases r)
    case (Inl e)
    then show ?thesis using assms(1,3) r
      by (simp add: command_tx_def andthen_def bnd_def modify_def gets_def)
  next
    case (Inr x)
    then have "commands (db t) = commands (db w)" using assms(2) r by force
    then show ?thesis using assms(1,3) r Inr
      by (auto simp: command_tx_def andthen_def bnd_def modify_def gets_def of_option_def throw_def
          ret_def save_command_def stop_if_def split: option.splits)
  qed
qed

text \<open>What is known of the value of a command's code is known of the reply of its first run.\<close>

lemma command_reply_from_body:
  assumes "Command E key request fn w = (Inr v, w')" "leads (\<lambda>_. True) fn (\<lambda>v _. R v)"
    and "find_row cmd_id key (commands (db w)) = None"
  shows "R v"
proof -
  have "leads (\<lambda>w. find_row cmd_id key (commands (db w)) = None) (command_tx E key hash fn) (\<lambda>v _. R v)" for hash
  proof (rule leadsI)
    fix w :: "'a pdb_scheme world"
    assume w: "find_row cmd_id key (commands (db w)) = None"
    have "wp fn (\<lambda>v _. R v) anyerr w'" for w' using assms(2) by (simp add: leads_def)
    then show "wp (command_tx E key hash fn) (\<lambda>v _. R v) anyerr w"
      using w by (simp add: command_tx_def wp_simps save_command_def) (blast intro: wp_mono)
  qed
  then show ?thesis using assms(1,3)
    by (auto simp: Command_run Transaction_success leads_def wp_def split: if_splits option.splits)
      (metis (no_types, lifting) case_prodD old.sum.simps(6))
qed

text \<open>Once a reply is saved under a key, whatever program comes with that key is not run.\<close>

lemma saved_key_answers:
  assumes "find_row cmd_id key (commands (db w)) = Some row" "marshal request = Some raw"
    and "0 < length key" "length key \<le> 128" "begin_ok E" "commit_ok E"
  shows "Command E key request fn w =
    ((if cmd_fingerprint row \<noteq> fingerprint E raw
      then Inl (Fail ''IDEMPOTENCY_CONFLICT'' ''Key reused with different request'')
      else case unmarshal (cmd_response row) of
        None \<Rightarrow> Inl (Internal ''json: cannot unmarshal'') | Some v \<Rightarrow> Inr v), w)"
  unfolding Command_run Transaction_def command_tx_replay [OF assms(1)] using assms(2-6)
  by (simp split: option.split)

text \<open>
  The contract of a command: it leaves the saved replies alone. Then the first successful run
  saves its reply under the key, and as long as that row is there every later use of the key
  replays the reply or reports a conflict, without touching the database.
\<close>

locale command_body =
  fixes fn :: "env \<Rightarrow> ('a pdb_scheme, gov) wprog"
  assumes keeps_replies: "fn E w = (Inr x, w') \<Longrightarrow> commands (db w') = commands (db w)"
begin

lemma command_saves:
  assumes "Command E key request (fn E) w = (Inr v, w')" "find_row cmd_id key (commands (db w)) = None"
  shows "\<exists>raw body. marshal request = Some raw \<and> marshal v = Some body \<and>
    find_row cmd_id key (commands (db w')) =
      Some \<lparr>cmd_id = key, cmd_fingerprint = fingerprint E raw, cmd_response = body\<rparr>"
proof -
  obtain raw t where raw: "marshal request = Some raw"
    and t: "command_tx E key (fingerprint E raw) (fn E) w = (Inr v, t)" "w' = t\<lparr>held := held w\<rparr>"
    using assms(1) by (auto simp: Command_run Transaction_success split: if_splits option.splits)
  have "\<exists>t' body. fn E (w\<lparr>held := (key, 1) # held w\<rparr>) = (Inr v, t') \<and> marshal v = Some body
    \<and> db t = (db t')\<lparr>commands := commands (db w) @
         [\<lparr>cmd_id = key, cmd_fingerprint = fingerprint E raw, cmd_response = body\<rparr>]\<rparr>"
    by (rule command_tx_first [where fn = "fn E", OF assms(2) _ t(1)]) (rule keeps_replies)
  then obtain body where
    "marshal v = Some body" "commands (db t) = commands (db w) @
         [\<lparr>cmd_id = key, cmd_fingerprint = fingerprint E raw, cmd_response = body\<rparr>]" by auto
  with raw t(2) assms(2) show ?thesis by (simp add: find_row_append)
qed

lemmas command_replays = saved_key_answers [where fn = "fn E" for E]

lemma command_keeps_reply:
  assumes "find_row cmd_id k (commands (db w)) = Some row"
  shows "find_row cmd_id k (commands (db (snd (Command E key request (fn E) w)))) = Some row"
proof (cases "Command E key request (fn E) w")
  case (Pair r w')
  show ?thesis
  proof (cases r)
    case (Inl e)
    then have "db w' = db w"
      using Pair by (auto simp: Command_run dest: Transaction_error_db split: if_splits option.splits)
    then show ?thesis using assms Pair by simp
  next
    case (Inr v)
    then obtain hash t where t: "command_tx E key hash (fn E) w = (Inr v, t)" "w' = t\<lparr>held := held w\<rparr>"
      using Pair by (auto simp: Command_run Transaction_success split: if_splits option.splits)
    show ?thesis
    proof (cases "find_row cmd_id key (commands (db w))")
      case None
      have "\<exists>t' body. fn E (w\<lparr>held := (key, 1) # held w\<rparr>) = (Inr v, t') \<and> marshal v = Some body
        \<and> db t = (db t')\<lparr>commands := commands (db w) @
             [\<lparr>cmd_id = key, cmd_fingerprint = hash, cmd_response = body\<rparr>]\<rparr>"
        by (rule command_tx_first [where fn = "fn E", OF None _ t(1)]) (rule keeps_replies)
      then show ?thesis using assms t(2) Pair by (auto simp: find_row_append)
    next
      case (Some row')
      then have "db t = db w" using t(1) by (auto simp: command_tx_replay)
      then show ?thesis using assms t(2) Pair by simp
    qed
  qed
qed

end

end
