(* ===== verification/Inventory_Store.thy ===== *)
theory Inventory_Store
  imports Delivery "HOL-Library.Product_Lexorder"
begin

text \<open>
  The inventory service's domain types (\<open>internal/domain/stock.go\<close>) and database
  (\<open>migrations/000002_inventory.up.sql\<close>): the tables with their keys and check constraints, and
  one program per SQL statement of the service. A \<open>uuid\<close> column holds the canonical text
  PostgreSQL reads back; a statement that breaks a key, a foreign key, a check constraint or the
  range of \<open>bigint\<close> is an \<open>Internal\<close> error.
\<close>

section \<open>Domain types\<close>

record Stock =
  st_ID :: string
  st_ProductID :: string
  st_WarehouseID :: string
  st_LocationID :: "string option"
  st_Quantity :: int
  st_Reserved :: int
  st_Batch :: string
  st_Expiration :: "int option"
  st_Weight :: f64
  st_Volume :: f64
  st_StorageType :: string

record Line =
  li_ProductID :: string
  li_Quantity :: int

definition Available :: "int \<Rightarrow> int \<Rightarrow> int" where
  "Available quantity reserved = i64 (quantity - reserved)"

definition CheckQuantity :: "int \<Rightarrow> int \<Rightarrow> err option" where
  "CheckQuantity quantity available =
     (if quantity \<le> 0 then Some (Fault ''VALIDATION_ERROR'' ''Quantity must be positive'' 400)
      else if available < quantity
      then Some (Fail ''INSUFFICIENT_STOCK'' ''Not enough available stock'')
      else None)"

definition zero_Line :: Line where
  "zero_Line = \<lparr>li_ProductID = [], li_Quantity = 0\<rparr>"

definition line_fields :: "Line field list" where
  "line_fields = [str_field ''productId'' (\<lambda>s r. r\<lparr>li_ProductID := s\<rparr>),
                  int64_field ''quantity'' (\<lambda>n r. r\<lparr>li_Quantity := n\<rparr>)]"

definition decode_lines :: "json \<Rightarrow> Line list option" where
  "decode_lines = decode_slice (decode_struct False line_fields) zero_Line"

section \<open>Tables\<close>

record stock_row = Stock +
  st_created :: int
  st_updated :: int

record capacity_row =
  cap_location :: string
  cap_warehouse :: string
  cap_weight :: f64
  cap_volume :: f64
  cap_revision :: int

record reservation_row =
  res_id :: string
  res_warehouse :: string
  res_status :: string
  res_expires :: int
  res_shipment :: "string option"

record allocation_row =
  al_reservation :: string
  al_stock :: string
  al_quantity :: int

record idb = pdb +
  stocks :: "stock_row list"
  capacities :: "capacity_row list"
  reservations :: "reservation_row list"
  allocations :: "allocation_row list"

text \<open>PostgreSQL orders NaN above every number, so it passes these checks.\<close>

fun pg_positive :: "f64 \<Rightarrow> bool" where
  "pg_positive (Fin x) = (0 < x)"
| "pg_positive NInf = False"
| "pg_positive _ = True"

fun pg_nonneg :: "f64 \<Rightarrow> bool" where
  "pg_nonneg (Fin x) = (0 \<le> x)"
| "pg_nonneg NInf = False"
| "pg_nonneg _ = True"

definition stock_check :: "stock_row \<Rightarrow> bool" where
  "stock_check r = (0 \<le> st_Quantity r \<and> 0 \<le> st_Reserved r \<and> st_Reserved r \<le> st_Quantity r
     \<and> pg_positive (st_Weight r) \<and> pg_positive (st_Volume r))"

definition capacity_check :: "capacity_row \<Rightarrow> bool" where
  "capacity_check r = (pg_nonneg (cap_weight r) \<and> pg_nonneg (cap_volume r))"

abbreviation set_stocks :: "stock_row list \<Rightarrow> idb world \<Rightarrow> idb world" where
  "set_stocks rows w \<equiv> w\<lparr>db := (db w)\<lparr>stocks := rows\<rparr>\<rparr>"

abbreviation set_capacities :: "capacity_row list \<Rightarrow> idb world \<Rightarrow> idb world" where
  "set_capacities rows w \<equiv> w\<lparr>db := (db w)\<lparr>capacities := rows\<rparr>\<rparr>"

abbreviation set_reservations :: "reservation_row list \<Rightarrow> idb world \<Rightarrow> idb world" where
  "set_reservations rows w \<equiv> w\<lparr>db := (db w)\<lparr>reservations := rows\<rparr>\<rparr>"

abbreviation set_allocations :: "allocation_row list \<Rightarrow> idb world \<Rightarrow> idb world" where
  "set_allocations rows w \<equiv> w\<lparr>db := (db w)\<lparr>allocations := rows\<rparr>\<rparr>"

section \<open>Statements on stocks\<close>

definition not_found_stock :: err where
  "not_found_stock = Fault ''NOT_FOUND'' ''Stock lot not found'' 404"

definition stock :: "env \<Rightarrow> string \<Rightarrow> (idb, Stock) wprog" where
  "stock E i =
     bnd (sql_uuid E i) (\<lambda>u.
     bnd (gets (\<lambda>w. find_row st_ID u (stocks (db w)))) (\<lambda>r.
     case r of None \<Rightarrow> throw not_found_stock | Some row \<Rightarrow> ret (Stock.truncate row)))"

definition sql_uuid_option :: "env \<Rightarrow> string option \<Rightarrow> ('s, string option) prog" where
  "sql_uuid_option E s = (case s of None \<Rightarrow> ret None | Some t \<Rightarrow> bnd (sql_uuid E t) (\<lambda>u. ret (Some u)))"

text \<open>\<open>reserved_quantity\<close> is not in the column list: it takes its default.\<close>

definition stored_row ::
  "env \<Rightarrow> Stock \<Rightarrow> string \<Rightarrow> string \<Rightarrow> string \<Rightarrow> string option \<Rightarrow> stock_row" where
  "stored_row E x i pid wid loc =
     \<lparr>st_ID = i, st_ProductID = pid, st_WarehouseID = wid, st_LocationID = loc,
      st_Quantity = st_Quantity x, st_Reserved = 0, st_Batch = st_Batch x,
      st_Expiration = st_Expiration x, st_Weight = st_Weight x, st_Volume = st_Volume x,
      st_StorageType = st_StorageType x, st_created = pg_now E, st_updated = pg_now E\<rparr>"

definition insert_stock :: "env \<Rightarrow> Stock \<Rightarrow> (idb, unit) wprog" where
  "insert_stock E x =
     bnd (sql_uuid E (st_ID x)) (\<lambda>i.
     bnd (sql_uuid E (st_ProductID x)) (\<lambda>pid.
     bnd (sql_uuid E (st_WarehouseID x)) (\<lambda>wid.
     bnd (sql_uuid_option E (st_LocationID x)) (\<lambda>loc.
     bnd (gets (\<lambda>w. stocks (db w))) (\<lambda>rows.
     let r = stored_row E x i pid wid loc
     in andthen (stop_if (find_row st_ID i rows \<noteq> None) (Internal ''duplicate key stocks''))
       (andthen (stop_if (\<not> stock_check r) (Internal ''check constraint stocks''))
       (modify (set_stocks (rows @ [r])))))))))"

text \<open>\<open>update stocks set \<dots>, updated_at = now() where id = \<dots>\<close>; \<open>None\<close> is a \<open>bigint\<close> overflow.\<close>

definition update_stock ::
  "env \<Rightarrow> string \<Rightarrow> (stock_row \<Rightarrow> stock_row option) \<Rightarrow> (idb, unit) wprog" where
  "update_stock E i f =
     bnd (sql_uuid E i) (\<lambda>u.
     bnd (gets (\<lambda>w. stocks (db w))) (\<lambda>rows.
     case find_row st_ID u rows of
       None \<Rightarrow> ret ()
     | Some r \<Rightarrow>
        (case f r of
           None \<Rightarrow> throw (Internal ''bigint out of range'')
         | Some r' \<Rightarrow>
             andthen (stop_if (\<not> stock_check r') (Internal ''check constraint stocks''))
             (modify (set_stocks (update_rows st_ID u (\<lambda>_. r'\<lparr>st_updated := pg_now E\<rparr>) rows))))))"

definition add_quantity :: "int \<Rightarrow> stock_row \<Rightarrow> stock_row option" where
  "add_quantity n r = map_option (\<lambda>q. r\<lparr>st_Quantity := q\<rparr>) (pg_int8 (st_Quantity r + n))"

definition set_quantity :: "int \<Rightarrow> stock_row \<Rightarrow> stock_row option" where
  "set_quantity n r = Some (r\<lparr>st_Quantity := n\<rparr>)"

definition add_reserved :: "int \<Rightarrow> stock_row \<Rightarrow> stock_row option" where
  "add_reserved n r = map_option (\<lambda>q. r\<lparr>st_Reserved := q\<rparr>) (pg_int8 (st_Reserved r + n))"

definition set_location :: "string \<Rightarrow> stock_row \<Rightarrow> stock_row option" where
  "set_location l r = Some (r\<lparr>st_LocationID := Some l\<rparr>)"

text \<open>The expiry key: \<open>order by expiration_date nulls last, created_at, id\<close>.\<close>

definition fefo_key :: "stock_row \<Rightarrow> (bool \<times> int) \<times> int \<times> string" where
  "fefo_key r = ((case st_Expiration r of None \<Rightarrow> (True, 0) | Some d \<Rightarrow> (False, d)),
                 st_created r, st_ID r)"

text \<open>The lots a line may draw from: placed, unexpired, with something unreserved.\<close>

definition reservable :: "env \<Rightarrow> string \<Rightarrow> string \<Rightarrow> stock_row \<Rightarrow> bool" where
  "reservable E warehouse product r =
     (st_WarehouseID r = warehouse \<and> st_ProductID r = product \<and> st_LocationID r \<noteq> None
      \<and> st_Reserved r < st_Quantity r
      \<and> (case st_Expiration r of None \<Rightarrow> True | Some d \<Rightarrow> pg_today E < d))"

definition fefo_lots :: "env \<Rightarrow> string \<Rightarrow> string \<Rightarrow> stock_row list \<Rightarrow> (string \<times> int) list" where
  "fefo_lots E warehouse product rows =
     map (\<lambda>r. (st_ID r, st_Quantity r - st_Reserved r))
       (sort_key fefo_key (filter (reservable E warehouse product) rows))"

definition select_lots :: "env \<Rightarrow> string \<Rightarrow> string \<Rightarrow> (idb, (string \<times> int) list) wprog" where
  "select_lots E warehouse product =
     bnd (sql_uuid E warehouse) (\<lambda>wid.
     bnd (sql_uuid E product) (\<lambda>pid.
     gets (\<lambda>w. fefo_lots E wid pid (stocks (db w)))))"

section \<open>Statements on capacities\<close>

definition cap_zero :: "string \<Rightarrow> string \<Rightarrow> capacity_row" where
  "cap_zero location warehouse = \<lparr>cap_location = location, cap_warehouse = warehouse,
     cap_weight = Fin 0, cap_volume = Fin 0, cap_revision = 0\<rparr>"

text \<open>\<open>insert \<dots> on conflict do nothing\<close>.\<close>

definition cap_ensure :: "string \<Rightarrow> string \<Rightarrow> capacity_row list \<Rightarrow> capacity_row list" where
  "cap_ensure location warehouse rows =
     (if find_row cap_location location rows = None then rows @ [cap_zero location warehouse]
      else rows)"

definition insert_capacity :: "env \<Rightarrow> string \<Rightarrow> string \<Rightarrow> (idb, unit) wprog" where
  "insert_capacity E location warehouse =
     bnd (sql_uuid E location) (\<lambda>l.
     bnd (sql_uuid E warehouse) (\<lambda>wid.
     modify (\<lambda>w. set_capacities (cap_ensure l wid (capacities (db w))) w)))"

definition select_capacity :: "env \<Rightarrow> string \<Rightarrow> (idb, capacity_row) wprog" where
  "select_capacity E location =
     bnd (sql_uuid E location) (\<lambda>l.
     bnd (gets (\<lambda>w. find_row cap_location l (capacities (db w)))) (\<lambda>r.
     of_option (Internal ''no rows in result set'') r))"

definition update_capacity :: "env \<Rightarrow> string \<Rightarrow> f64 \<Rightarrow> f64 \<Rightarrow> int \<Rightarrow> (idb, unit) wprog" where
  "update_capacity E location weight volume revision =
     bnd (sql_uuid E location) (\<lambda>l.
     andthen (stop_if (\<not> (pg_nonneg weight \<and> pg_nonneg volume)) (Internal ''check constraint capacities''))
     (modify (\<lambda>w. set_capacities (update_rows cap_location l
        (\<lambda>r. r\<lparr>cap_weight := weight, cap_volume := volume, cap_revision := revision\<rparr>)
        (capacities (db w))) w)))"

section \<open>Statements on reservations and allocations\<close>

definition select_reservation :: "env \<Rightarrow> string \<Rightarrow> (idb, reservation_row option) wprog" where
  "select_reservation E i =
     bnd (sql_uuid E i) (\<lambda>u. gets (\<lambda>w. find_row res_id u (reservations (db w))))"

definition new_reservation :: "string \<Rightarrow> string \<Rightarrow> string \<Rightarrow> int \<Rightarrow> reservation_row" where
  "new_reservation i warehouse status expires = \<lparr>res_id = i, res_warehouse = warehouse,
     res_status = status, res_expires = expires, res_shipment = None\<rparr>"

definition insert_reservation :: "env \<Rightarrow> string \<Rightarrow> string \<Rightarrow> string \<Rightarrow> int \<Rightarrow> (idb, unit) wprog" where
  "insert_reservation E i warehouse status expires =
     bnd (sql_uuid E i) (\<lambda>u.
     bnd (sql_uuid E warehouse) (\<lambda>wid.
     bnd (gets (\<lambda>w. reservations (db w))) (\<lambda>rows.
     andthen (stop_if (find_row res_id u rows \<noteq> None) (Internal ''duplicate key reservations''))
     (modify (set_reservations (rows @ [new_reservation u wid status expires]))))))"

text \<open>\<open>insert \<dots> on conflict do nothing\<close>.\<close>

definition insert_reservation_if_absent ::
  "env \<Rightarrow> string \<Rightarrow> string \<Rightarrow> string \<Rightarrow> int \<Rightarrow> (idb, unit) wprog" where
  "insert_reservation_if_absent E i warehouse status expires =
     bnd (sql_uuid E i) (\<lambda>u.
     bnd (sql_uuid E warehouse) (\<lambda>wid.
     bnd (gets (\<lambda>w. reservations (db w))) (\<lambda>rows.
     if find_row res_id u rows \<noteq> None then ret ()
     else modify (set_reservations (rows @ [new_reservation u wid status expires])))))"

definition update_reservation ::
  "env \<Rightarrow> string \<Rightarrow> (reservation_row \<Rightarrow> reservation_row) \<Rightarrow> (idb, unit) wprog" where
  "update_reservation E i f =
     bnd (sql_uuid E i) (\<lambda>u.
     modify (\<lambda>w. set_reservations (update_rows res_id u f (reservations (db w))) w))"

definition insert_allocation :: "env \<Rightarrow> string \<Rightarrow> string \<Rightarrow> int \<Rightarrow> (idb, unit) wprog" where
  "insert_allocation E reservation stock_id quantity =
     bnd (sql_uuid E reservation) (\<lambda>rid.
     bnd (sql_uuid E stock_id) (\<lambda>sid.
     bnd (gets db) (\<lambda>d.
     andthen (stop_if (\<exists>a \<in> set (allocations d). al_reservation a = rid \<and> al_stock a = sid)
       (Internal ''duplicate key allocations''))
     (andthen (stop_if (quantity \<le> 0) (Internal ''check constraint allocations''))
     (andthen (stop_if (find_row res_id rid (reservations d) = None \<or> find_row st_ID sid (stocks d) = None)
       (Internal ''foreign key allocations''))
     (modify (set_allocations (allocations d @
        [\<lparr>al_reservation = rid, al_stock = sid, al_quantity = quantity\<rparr>]))))))))"

definition allocations_of :: "string \<Rightarrow> allocation_row list \<Rightarrow> allocation_row list" where
  "allocations_of rid rows = filter (\<lambda>a. al_reservation a = rid) rows"

text \<open>
  \<open>update stocks s set reserved_quantity = s.reserved_quantity - a.quantity \<dots> from allocations a
  where a.reservation_id = \<dots> and s.id = a.stock_id\<close>: the allocation key makes the join row of a
  stock unique.
\<close>

definition unreserve_row :: "env \<Rightarrow> allocation_row list \<Rightarrow> stock_row \<Rightarrow> stock_row" where
  "unreserve_row E als r = (case find_row al_stock (st_ID r) als of
      None \<Rightarrow> r
    | Some a \<Rightarrow> r\<lparr>st_Reserved := st_Reserved r - al_quantity a, st_updated := pg_now E\<rparr>)"

definition unreserve_all :: "env \<Rightarrow> string \<Rightarrow> (idb, unit) wprog" where
  "unreserve_all E reservation =
     bnd (sql_uuid E reservation) (\<lambda>rid.
     bnd (gets db) (\<lambda>d.
     let als = allocations_of rid (allocations d);
         joined = filter (\<lambda>r. find_row al_stock (st_ID r) als \<noteq> None) (stocks d)
     in andthen (stop_if (\<exists>r \<in> set joined. \<not> is_i64 (st_Reserved (unreserve_row E als r)))
          (Internal ''bigint out of range''))
       (andthen (stop_if (\<exists>r \<in> set joined. \<not> stock_check (unreserve_row E als r))
          (Internal ''check constraint stocks''))
       (modify (set_stocks (map (unreserve_row E als) (stocks d)))))))"

end
