(* ===== verification/Inventory_Service.thy ===== *)
theory Inventory_Service
  imports Inventory_Store
begin

text \<open>
  \<open>services/inventory-service/internal/application/service.go\<close>: receiving goods, moves,
  write-offs, adjustments, the capacity ledger, and the HTTP routes.
\<close>

section \<open>Peers\<close>

record service =
  WarehouseURL :: string
  ProductURL :: string

record Product =
  pr_ID :: string
  pr_Weight :: f64
  pr_Volume :: f64
  pr_StorageType :: string
  pr_Active :: bool

record Location =
  lo_ID :: string
  lo_WarehouseID :: string
  lo_MaxWeight :: f64
  lo_MaxVolume :: f64
  lo_StorageType :: string
  lo_ZoneType :: string
  lo_Status :: string

record Receive_req =
  rq_ProductID :: string
  rq_WarehouseID :: string
  rq_Quantity :: int
  rq_Batch :: string
  rq_Expiration :: string

record Change_req =
  ch_StockID :: string
  ch_ToLocationID :: string
  ch_Quantity :: int
  ch_Reason :: string

definition zero_Product :: Product where
  "zero_Product = \<lparr>pr_ID = [], pr_Weight = Fin 0, pr_Volume = Fin 0, pr_StorageType = [],
     pr_Active = False\<rparr>"

definition product_fields :: "Product field list" where
  "product_fields =
     [str_field ''id'' (\<lambda>s r. r\<lparr>pr_ID := s\<rparr>), f64_field ''Weight'' (\<lambda>v r. r\<lparr>pr_Weight := v\<rparr>),
      f64_field ''Volume'' (\<lambda>v r. r\<lparr>pr_Volume := v\<rparr>),
      str_field ''StorageType'' (\<lambda>s r. r\<lparr>pr_StorageType := s\<rparr>),
      bool_field ''Active'' (\<lambda>b r. r\<lparr>pr_Active := b\<rparr>)]"

definition zero_Location :: Location where
  "zero_Location = \<lparr>lo_ID = [], lo_WarehouseID = [], lo_MaxWeight = Fin 0, lo_MaxVolume = Fin 0,
     lo_StorageType = [], lo_ZoneType = [], lo_Status = []\<rparr>"

definition location_fields :: "Location field list" where
  "location_fields =
     [str_field ''id'' (\<lambda>s r. r\<lparr>lo_ID := s\<rparr>),
      str_field ''warehouseId'' (\<lambda>s r. r\<lparr>lo_WarehouseID := s\<rparr>),
      f64_field ''maxWeight'' (\<lambda>v r. r\<lparr>lo_MaxWeight := v\<rparr>),
      f64_field ''maxVolume'' (\<lambda>v r. r\<lparr>lo_MaxVolume := v\<rparr>),
      str_field ''storageType'' (\<lambda>s r. r\<lparr>lo_StorageType := s\<rparr>),
      str_field ''zoneType'' (\<lambda>s r. r\<lparr>lo_ZoneType := s\<rparr>),
      str_field ''status'' (\<lambda>s r. r\<lparr>lo_Status := s\<rparr>)]"

definition zero_Receive :: Receive_req where
  "zero_Receive = \<lparr>rq_ProductID = [], rq_WarehouseID = [], rq_Quantity = 0, rq_Batch = [],
     rq_Expiration = []\<rparr>"

definition receive_fields :: "Receive_req field list" where
  "receive_fields =
     [str_field ''productId'' (\<lambda>s r. r\<lparr>rq_ProductID := s\<rparr>),
      str_field ''warehouseId'' (\<lambda>s r. r\<lparr>rq_WarehouseID := s\<rparr>),
      int64_field ''quantity'' (\<lambda>n r. r\<lparr>rq_Quantity := n\<rparr>),
      str_field ''batchNumber'' (\<lambda>s r. r\<lparr>rq_Batch := s\<rparr>),
      str_field ''expirationDate'' (\<lambda>s r. r\<lparr>rq_Expiration := s\<rparr>)]"

definition zero_Change :: Change_req where
  "zero_Change = \<lparr>ch_StockID = [], ch_ToLocationID = [], ch_Quantity = 0, ch_Reason = []\<rparr>"

definition change_fields :: "Change_req field list" where
  "change_fields =
     [str_field ''stockId'' (\<lambda>s r. r\<lparr>ch_StockID := s\<rparr>),
      str_field ''toLocationId'' (\<lambda>s r. r\<lparr>ch_ToLocationID := s\<rparr>),
      int64_field ''quantity'' (\<lambda>n r. r\<lparr>ch_Quantity := n\<rparr>),
      str_field ''reason'' (\<lambda>s r. r\<lparr>ch_Reason := s\<rparr>)]"

text \<open>The structs as JSON values, for replies and fingerprints.\<close>

definition gov_of_string_option :: "string option \<Rightarrow> gov" where
  "gov_of_string_option s = (case s of None \<Rightarrow> GNil | Some t \<Rightarrow> GStr t)"

definition stock_gov :: "Stock \<Rightarrow> gov" where
  "stock_gov x = GObj
     [(''id'', GStr (st_ID x)), (''productId'', GStr (st_ProductID x)),
      (''warehouseId'', GStr (st_WarehouseID x)),
      (''locationId'', gov_of_string_option (st_LocationID x)),
      (''quantity'', GI64 (st_Quantity x)), (''reservedQuantity'', GI64 (st_Reserved x)),
      (''batchNumber'', GStr (st_Batch x)),
      (''expirationDate'', gov_of_string_option (map_option format_midnight (st_Expiration x))),
      (''unitWeight'', GF64 (st_Weight x)), (''unitVolume'', GF64 (st_Volume x)),
      (''storageType'', GStr (st_StorageType x))]"

definition receive_gov :: "Receive_req \<Rightarrow> gov" where
  "receive_gov q = GObj
     [(''productId'', GStr (rq_ProductID q)), (''warehouseId'', GStr (rq_WarehouseID q)),
      (''quantity'', GI64 (rq_Quantity q)), (''batchNumber'', GStr (rq_Batch q)),
      (''expirationDate'', GStr (rq_Expiration q))]"

definition change_gov :: "Change_req \<Rightarrow> gov" where
  "change_gov q = GObj
     [(''stockId'', GStr (ch_StockID q)), (''toLocationId'', GStr (ch_ToLocationID q)),
      (''quantity'', GI64 (ch_Quantity q)), (''reason'', GStr (ch_Reason q))]"

section \<open>The capacity ledger\<close>

text \<open>The tolerances \<open>1e-9\<close> and \<open>-1e-7\<close>.\<close>

definition over_tolerance :: f64 where
  "over_tolerance = rne (1 / 10 ^ 9)"

definition under_tolerance :: f64 where
  "under_tolerance = rne (- 1 / 10 ^ 7)"

definition check_location :: "env \<Rightarrow> service \<Rightarrow> Stock \<Rightarrow> string \<Rightarrow> (idb, Location) wprog" where
  "check_location E S x location =
     bnd (Get E (decode_struct False location_fields) zero_Location
            (WarehouseURL S @ ''/locations/'' @ location)) (\<lambda>loc.
     andthen (stop_if (lo_WarehouseID loc \<noteq> st_WarehouseID x)
       (Fail ''WRONG_WAREHOUSE'' ''Location belongs to another warehouse''))
     (andthen (stop_if (lo_Status loc = ''BLOCKED'' \<or> lo_Status loc = ''MAINTENANCE'')
       (Fail ''LOCATION_BLOCKED'' ''Location is unavailable''))
     (andthen (stop_if (lo_ZoneType loc \<noteq> ''STORAGE'' \<or> lo_StorageType loc \<noteq> st_StorageType x)
       (Fail ''INCOMPATIBLE_LOCATION'' ''Storage restrictions do not match''))
     (ret loc))))"

text \<open>New totals of a location before the clamp: \<open>total += float64(delta) * unit\<close>.\<close>

definition ledger_add :: "f64 \<Rightarrow> int \<Rightarrow> f64 \<Rightarrow> f64" where
  "ledger_add sofar delta unit = fadd sofar (fmul (f64_of_int delta) unit)"

definition capacity :: "env \<Rightarrow> service \<Rightarrow> Stock \<Rightarrow> string \<Rightarrow> int \<Rightarrow> (idb, unit) wprog" where
  "capacity E S x location delta =
     bnd (if 0 < delta then check_location E S x location else ret zero_Location) (\<lambda>loc.
     andthen (insert_capacity E location (st_WarehouseID x))
     (bnd (select_capacity E location) (\<lambda>row.
      let weight = ledger_add (cap_weight row) delta (st_Weight x);
          volume = ledger_add (cap_volume row) delta (st_Volume x)
      in andthen (stop_if (0 < delta \<and> (fgt weight (fadd (lo_MaxWeight loc) over_tolerance)
                                      \<or> fgt volume (fadd (lo_MaxVolume loc) over_tolerance)))
           (Fail ''LOCATION_FULL'' ''Location capacity exceeded''))
        (andthen (stop_if (flt weight under_tolerance \<or> flt volume under_tolerance)
           (Internal ''capacity invariant violated''))
        (let weight' = fmax (Fin 0) weight;
             volume' = fmax (Fin 0) volume;
             rev' = i64 (cap_revision row + 1)
         in andthen (update_capacity E location weight' volume' rev')
           (Emit E ''LocationCapacityChanged''
             [(''locationId'', GStr location), (''warehouseId'', GStr (st_WarehouseID x)),
              (''currentWeight'', GF64 weight'), (''currentVolume'', GF64 volume'),
              (''revision'', GI64 rev')]))))))"

section \<open>Receiving\<close>

definition receive_expiry :: "env \<Rightarrow> string \<Rightarrow> (idb, int option) wprog" where
  "receive_expiry E s =
     (if s = [] then ret None else
      case parse_date s of
        None \<Rightarrow> throw (Fault ''VALIDATION_ERROR'' ''expirationDate must be a future ISO date'' 400)
      | Some v \<Rightarrow>
          bnd (Now E) (\<lambda>t.
          andthen (stop_if (\<not> truncate_day t < day_start v)
            (Fault ''VALIDATION_ERROR'' ''expirationDate must be a future ISO date'' 400))
          (ret (Some v))))"

definition Receive :: "env \<Rightarrow> service \<Rightarrow> Receive_req \<Rightarrow> (idb, gov) wprog" where
  "Receive E S q =
     andthen (ID E (rq_ProductID q))
     (andthen (Lock E (rq_WarehouseID q))
     (andthen (stop_if (rq_Quantity q \<le> 0 \<or> 1000000000 < rq_Quantity q \<or> rq_Batch q = [])
        (Fault ''VALIDATION_ERROR'' ''Positive quantity <= 1 billion and batchNumber required'' 400))
     (bnd (Get E (decode_struct False product_fields) zero_Product
             (ProductURL S @ ''/products/'' @ rq_ProductID q)) (\<lambda>product.
      andthen (stop_if (\<not> pr_Active product) (Fail ''INACTIVE_PRODUCT'' ''Product is inactive''))
     (bnd (Get E decode_map [] (WarehouseURL S @ ''/warehouses/'' @ rq_WarehouseID q)) (\<lambda>warehouse.
      andthen (stop_if (map_of warehouse ''status'' \<noteq> Some (GStr ''ACTIVE''))
        (Fail ''WAREHOUSE_UNAVAILABLE'' ''Warehouse inactive''))
     (bnd (receive_expiry E (rq_Expiration q)) (\<lambda>expires.
      bnd (NewString E) (\<lambda>i.
      let x = \<lparr>st_ID = i, st_ProductID = rq_ProductID q, st_WarehouseID = rq_WarehouseID q,
               st_LocationID = None, st_Quantity = rq_Quantity q, st_Reserved = 0,
               st_Batch = rq_Batch q, st_Expiration = expires, st_Weight = pr_Weight product,
               st_Volume = pr_Volume product, st_StorageType = pr_StorageType product\<rparr>
      in andthen (insert_stock E x)
        (andthen (Emit E ''GoodsReceived''
          [(''stockId'', GStr (st_ID x)), (''productId'', GStr (st_ProductID x)),
           (''warehouseId'', GStr (st_WarehouseID x)), (''quantity'', GI64 (st_Quantity x)),
           (''weight'', GF64 (st_Weight x)), (''volume'', GF64 (st_Volume x)),
           (''storageType'', GStr (st_StorageType x))])
        (ret (stock_gov x))))))))))))"

section \<open>Moves, write-offs and adjustments\<close>

definition adjust :: "env \<Rightarrow> service \<Rightarrow> Stock \<Rightarrow> Change_req \<Rightarrow> (idb, gov) wprog" where
  "adjust E S x q =
     andthen (stop_if (ch_Quantity q < 0 \<or> 1000000000 < ch_Quantity q)
       (Fault ''VALIDATION_ERROR'' ''Target quantity must be 0..1 billion'' 400))
     (andthen (stop_if (ch_Quantity q < st_Reserved x)
       (Fail ''RESERVED_STOCK'' ''Cannot adjust below reserved quantity''))
     (let delta = i64 (ch_Quantity q - st_Quantity x) in
      andthen (stop_if (ch_Reason q = []) (Fault ''VALIDATION_ERROR'' ''reason required'' 400))
     (andthen (stop_if (st_LocationID x = None \<and> 0 < delta)
       (Fail ''UNPLACED_STOCK'' ''Receive new unplaced stock separately''))
     (andthen (case st_LocationID x of
         Some l \<Rightarrow> if delta \<noteq> 0 then capacity E S x l delta else ret ()
       | None \<Rightarrow> ret ())
     (andthen (update_stock E (st_ID x) (set_quantity (ch_Quantity q)))
     (andthen (Emit E ''StockAdjusted''
        [(''stockId'', GStr (st_ID x)), (''productId'', GStr (st_ProductID x)),
         (''warehouseId'', GStr (st_WarehouseID x)), (''quantity'', GI64 (ch_Quantity q)),
         (''delta'', GI64 delta), (''reason'', GStr (ch_Reason q))])
     (ret (GObj [(''stockId'', GStr (st_ID x)), (''quantity'', GI64 (ch_Quantity q))]))))))))"

text \<open>The destination lot of a move: a copy with a new id, nothing reserved.\<close>

definition moved_lot :: "Stock \<Rightarrow> string \<Rightarrow> string \<Rightarrow> int \<Rightarrow> Stock" where
  "moved_lot x i location n =
     x\<lparr>st_ID := i, st_LocationID := Some location, st_Quantity := n, st_Reserved := 0\<rparr>"

text \<open>The action-specific part of a move or a write-off: the event and its payload.\<close>

definition change_target ::
  "env \<Rightarrow> service \<Rightarrow> string \<Rightarrow> Stock \<Rightarrow> Change_req \<Rightarrow> gobj \<Rightarrow> (idb, string \<times> gobj) wprog" where
  "change_target E S action x q payload =
     (if action = ''move'' then
        andthen (ID E (ch_ToLocationID q))
        (andthen (stop_if (st_LocationID x = Some (ch_ToLocationID q))
           (Fail ''SAME_LOCATION'' ''Source equals destination''))
        (andthen (capacity E S x (ch_ToLocationID q) (ch_Quantity q))
        (bnd (NewString E) (\<lambda>i.
         andthen (insert_stock E (moved_lot x i (ch_ToLocationID q) (ch_Quantity q)))
         (ret (''StockMoved'',
            obj_put ''fromLocationId'' (gov_of_string_option (st_LocationID x))
            (obj_put ''destinationStockId'' (GStr i)
            (obj_put ''toLocationId'' (GStr (ch_ToLocationID q)) payload))))))))
      else if ch_Reason q = [] then throw (Fault ''VALIDATION_ERROR'' ''reason required'' 400)
      else ret (''StockWrittenOff'', obj_put ''reason'' (GStr (ch_Reason q)) payload))"

definition take_off :: "env \<Rightarrow> service \<Rightarrow> string \<Rightarrow> Stock \<Rightarrow> Change_req \<Rightarrow> (idb, gov) wprog" where
  "take_off E S action x q =
     andthen (case CheckQuantity (ch_Quantity q) (Available (st_Quantity x) (st_Reserved x)) of
         Some e \<Rightarrow> throw e | None \<Rightarrow> ret ())
     (bnd (change_target E S action x q
        [(''stockId'', GStr (st_ID x)), (''productId'', GStr (st_ProductID x)),
         (''warehouseId'', GStr (st_WarehouseID x)), (''quantity'', GI64 (ch_Quantity q))])
      (\<lambda>(event, payload).
      andthen (case st_LocationID x of
          Some l \<Rightarrow> capacity E S x l (i64 (- ch_Quantity q))
        | None \<Rightarrow> ret ())
      (andthen (update_stock E (st_ID x) (add_quantity (- ch_Quantity q)))
      (andthen (Emit E event payload) (ret (GObj payload))))))"

text \<open>The lot is read to find its warehouse, and again under the warehouse's lock.\<close>

definition Change :: "env \<Rightarrow> service \<Rightarrow> string \<Rightarrow> Change_req \<Rightarrow> (idb, gov) wprog" where
  "Change E S action q =
     andthen (ID E (ch_StockID q))
     (bnd (stock E (ch_StockID q)) (\<lambda>x0.
      andthen (Lock E (st_WarehouseID x0))
     (bnd (stock E (ch_StockID q)) (\<lambda>x.
      if action = ''adjust'' then adjust E S x q else take_off E S action x q))))"

section \<open>Routes\<close>

definition receive_endpoint ::
  "service \<Rightarrow> string \<Rightarrow> http_body \<Rightarrow> env \<Rightarrow> (idb, gov) wprog" where
  "receive_endpoint S key body E =
     bnd (of_sum (Body (decode_struct True receive_fields) zero_Receive body)) (\<lambda>q.
     Command E key (GObj [(''action'', GStr ''receive''), (''body'', receive_gov q)]) (Receive E S q))"

definition change_endpoint ::
  "service \<Rightarrow> string \<Rightarrow> string \<Rightarrow> http_body \<Rightarrow> env \<Rightarrow> (idb, gov) wprog" where
  "change_endpoint S action key body E =
     bnd (of_sum (Body (decode_struct True change_fields) zero_Change body)) (\<lambda>q.
     Command E key (GObj [(''action'', GStr action), (''body'', change_gov q)]) (Change E S action q))"

definition change_actions :: "string list" where
  "change_actions = [''move'', ''write-off'', ''adjust'']"

text \<open>A row of \<open>stock_view\<close> as the reader of its JSON sees it.\<close>

definition view_obj :: "env \<Rightarrow> stock_row \<Rightarrow> gobj" where
  "view_obj E r =
     [(''id'', GStr (st_ID r)), (''productId'', GStr (st_ProductID r)),
      (''warehouseId'', GStr (st_WarehouseID r)),
      (''locationId'', gov_of_string_option (st_LocationID r)),
      (''quantity'', GF64 (f64_of_int (st_Quantity r))),
      (''reservedQuantity'', GF64 (f64_of_int (st_Reserved r))),
      (''availableQuantity'', GF64 (f64_of_int (st_Quantity r - st_Reserved r))),
      (''batchNumber'', GStr (st_Batch r)),
      (''expirationDate'', gov_of_string_option (map_option format_date (st_Expiration r))),
      (''unitWeight'', GF64 (st_Weight r)), (''unitVolume'', GF64 (st_Volume r)),
      (''storageType'', GStr (st_StorageType r)),
      (''createdAt'', GStr (pg_ts_text E (st_created r))),
      (''updatedAt'', GStr (pg_ts_text E (st_updated r)))]"

definition lot_endpoint :: "string \<Rightarrow> env \<Rightarrow> (idb, gov) wprog" where
  "lot_endpoint i E =
     andthen (ID E i)
     (bnd (sql_uuid E i) (\<lambda>u.
      bnd (gets (\<lambda>w. find_row st_ID u (stocks (db w)))) (\<lambda>r.
      case r of
        None \<Rightarrow> throw (Fault ''NOT_FOUND'' ''Stock not found'' 404)
      | Some row \<Rightarrow> ret (GObj (view_obj E row)))))"

definition listed :: "string \<Rightarrow> string \<Rightarrow> stock_row list \<Rightarrow> stock_row list" where
  "listed product warehouse rows =
     take 500 (sort_key (\<lambda>r. (st_created r, st_ID r))
       (filter (\<lambda>r. (product = [] \<or> st_ProductID r = product)
                  \<and> (warehouse = [] \<or> st_WarehouseID r = warehouse)) rows))"

text \<open>\<open>list\<close>: the ids come from the path, else from the query string.\<close>

definition list_endpoint ::
  "string \<Rightarrow> string \<Rightarrow> string \<Rightarrow> string \<Rightarrow> env \<Rightarrow> (idb, gov) wprog" where
  "list_endpoint path_product path_warehouse query_product query_warehouse E =
     (let product = (if path_product = [] then query_product else path_product);
          warehouse = (if path_warehouse = [] then query_warehouse else path_warehouse)
      in andthen (if product \<noteq> [] then ID E product else ret ())
        (andthen (if warehouse \<noteq> [] then ID E warehouse else ret ())
        (gets (\<lambda>w. GArr (map (\<lambda>r. GObj (view_obj E r)) (listed product warehouse (stocks (db w))))))))"

end
