(* ===== verification/Reservations.thy ===== *)
theory Reservations
  imports Inventory_Service
begin

text \<open>
  \<open>services/inventory-service/internal/application/reservations.go\<close>: the event handler, FEFO
  reservation, release, shipping, placement and the expiry worker.
\<close>

section \<open>Reserving\<close>

text \<open>The inner loop over the lots of a line; the result is what is left to take.\<close>

fun take_lots :: "env \<Rightarrow> string \<Rightarrow> (string \<times> int) list \<Rightarrow> int \<Rightarrow> (idb, int) wprog" where
  "take_lots E reservation [] remaining = ret remaining"
| "take_lots E reservation ((lot, n) # lots) remaining =
     (let take = min remaining n in
      if take \<le> 0 then ret remaining
      else andthen (update_stock E lot (add_reserved take))
          (andthen (insert_allocation E reservation lot take)
          (take_lots E reservation lots (i64 (remaining - take)))))"

fun reserve_lines :: "env \<Rightarrow> string \<Rightarrow> string \<Rightarrow> string list \<Rightarrow> Line list \<Rightarrow> (idb, unit) wprog" where
  "reserve_lines E reservation warehouse seen [] = ret ()"
| "reserve_lines E reservation warehouse seen (line # lines) =
     andthen (stop_if (li_Quantity line \<le> 0 \<or> li_ProductID line \<in> set seen)
       (Fault ''VALIDATION_ERROR'' ''Invalid or duplicate line'' 400))
     (andthen (ID E (li_ProductID line))
     (bnd (select_lots E warehouse (li_ProductID line)) (\<lambda>lots.
      bnd (take_lots E reservation lots (li_Quantity line)) (\<lambda>remaining.
      andthen (stop_if (0 < remaining)
        (Fail ''INSUFFICIENT_STOCK'' ''Not enough placed, unexpired stock''))
      (reserve_lines E reservation warehouse (li_ProductID line # seen) lines)))))"

text \<open>\<open>payload["items"]\<close>; a missing key is \<open>nil\<close>.\<close>

definition p_items :: "gobj \<Rightarrow> gov" where
  "p_items payload = (case map_of payload ''items'' of None \<Rightarrow> GNil | Some v \<Rightarrow> v)"

definition reserve :: "env \<Rightarrow> gobj \<Rightarrow> (idb, unit) wprog" where
  "reserve E payload =
     (let i = p_String payload ''reservationId''; warehouse = p_String payload ''warehouseId'' in
      andthen (ID E i)
      (bnd (select_reservation E i) (\<lambda>existing.
       if existing \<noteq> None then ret () else
       case parse_rfc3339 (p_String payload ''expiresAt'') of
         None \<Rightarrow> throw (Fault ''VALIDATION_ERROR'' ''Invalid expiry'' 400)
       | Some expires \<Rightarrow>
         bnd (Now E) (\<lambda>t.
         andthen (stop_if (\<not> t < expires) (Fail ''EXPIRED'' ''Reservation request expired''))
         (case Decode decode_lines (p_items payload) of
            None \<Rightarrow> throw (Fault ''VALIDATION_ERROR'' ''items required'' 400)
          | Some lines \<Rightarrow>
            andthen (stop_if (lines = []) (Fault ''VALIDATION_ERROR'' ''items required'' 400))
            (andthen (insert_reservation E i warehouse ''CONFIRMED'' (to_pg_time expires))
            (andthen (reserve_lines E i warehouse [] lines)
            (andthen (Count ''reserve'' ''success'')
            (Emit E ''StockReserved'' payload)))))))))"

section \<open>Releasing\<close>

text \<open>The items of a release: the allocations joined with their stocks, in stock order.\<close>

definition release_items :: "string \<Rightarrow> idb \<Rightarrow> gov list" where
  "release_items rid d =
     map (\<lambda>(r, a). GObj [(''productId'', GStr (st_ProductID r)), (''stockId'', GStr (st_ID r)),
                        (''quantity'', GF64 (f64_of_int (al_quantity a)))])
       (sort_key (\<lambda>(r, a). st_ID r)
         (List.concat (map (\<lambda>a. map (\<lambda>r. (r, a)) (filter (\<lambda>r. st_ID r = al_stock a) (stocks d)))
           (allocations_of rid (allocations d)))))"

definition select_release_items :: "env \<Rightarrow> string \<Rightarrow> (idb, gov list) wprog" where
  "select_release_items E i = bnd (sql_uuid E i) (\<lambda>u. gets (\<lambda>w. release_items u (db w)))"

definition release :: "env \<Rightarrow> string \<Rightarrow> bool \<Rightarrow> (idb, unit) wprog" where
  "release E i expired =
     bnd (select_reservation E i) (\<lambda>r.
     case r of
       None \<Rightarrow> throw (Internal ''reservation command not yet processed'')
     | Some row \<Rightarrow>
        if res_status row = ''COMPLETED''
        then throw (Fail ''ALREADY_SHIPPED'' ''Reservation already shipped'')
        else if res_status row \<noteq> ''CONFIRMED'' then ret ()
        else
          andthen (unreserve_all E i)
          (let kind = (if expired then ''ReservationExpired'' else ''StockReservationCancelled'');
               status = (if expired then ''EXPIRED'' else ''CANCELLED'')
           in andthen (update_reservation E i (\<lambda>r. r\<lparr>res_status := status\<rparr>))
             (bnd (select_release_items E i) (\<lambda>items.
              Emit E kind [(''reservationId'', GStr i), (''warehouseId'', GStr (res_warehouse row)),
                           (''items'', GArr items)]))))"

section \<open>Shipping\<close>

definition select_allocations :: "env \<Rightarrow> string \<Rightarrow> (idb, (string \<times> int) list) wprog" where
  "select_allocations E i =
     bnd (sql_uuid E i) (\<lambda>u.
     gets (\<lambda>w. map (\<lambda>a. (al_stock a, al_quantity a))
       (sort_key al_stock (allocations_of u (allocations (db w))))))"

text \<open>\<open>update stocks set quantity = quantity - n, reserved_quantity = reserved_quantity - n\<close>.\<close>

definition deduct :: "int \<Rightarrow> stock_row \<Rightarrow> stock_row option" where
  "deduct n r =
     (case (pg_int8 (st_Quantity r - n), pg_int8 (st_Reserved r - n)) of
        (Some q, Some v) \<Rightarrow> Some (r\<lparr>st_Quantity := q, st_Reserved := v\<rparr>)
      | _ \<Rightarrow> None)"

definition ship_one :: "env \<Rightarrow> service \<Rightarrow> string \<Rightarrow> int \<Rightarrow> (idb, gov) wprog" where
  "ship_one E S i n =
     bnd (stock E i) (\<lambda>x.
     andthen (case st_Expiration x of
        None \<Rightarrow> ret ()
      | Some d \<Rightarrow> bnd (Now E) (\<lambda>t. stop_if (\<not> truncate_day t < day_start d)
           (Fail ''EXPIRED_STOCK'' ''Allocated lot expired'')))
     (case st_LocationID x of
        None \<Rightarrow> throw (Internal ''reserved stock is unplaced'')
      | Some l \<Rightarrow>
          andthen (capacity E S x l (i64 (- n)))
          (andthen (update_stock E i (deduct n))
          (ret (GObj [(''productId'', GStr (st_ProductID x)), (''stockId'', GStr (st_ID x)),
                      (''quantity'', GI64 n)])))))"

fun ship_all :: "env \<Rightarrow> service \<Rightarrow> (string \<times> int) list \<Rightarrow> (idb, gov list) wprog" where
  "ship_all E S [] = ret []"
| "ship_all E S ((i, n) # als) =
     bnd (ship_one E S i n) (\<lambda>item. bnd (ship_all E S als) (\<lambda>items. ret (item # items)))"

definition ship :: "env \<Rightarrow> service \<Rightarrow> gobj \<Rightarrow> (idb, unit) wprog" where
  "ship E S payload =
     (let i = p_String payload ''reservationId''; shipment = p_String payload ''shipmentId'' in
      bnd (select_reservation E i) (\<lambda>r.
      case r of
        None \<Rightarrow> throw (Fail ''RESERVATION_REQUIRED'' ''Unknown reservation'')
      | Some row \<Rightarrow>
         if res_status row = ''COMPLETED'' \<and> res_shipment row = Some shipment then ret () else
         andthen (if res_status row \<noteq> ''CONFIRMED''
             then throw (Fail ''RESERVATION_UNAVAILABLE'' ''Reservation is not active'')
             else bnd (Now E) (\<lambda>t. stop_if (\<not> t < of_pg_time (res_expires row))
               (Fail ''RESERVATION_UNAVAILABLE'' ''Reservation is not active'')))
         (andthen (stop_if (res_warehouse row \<noteq> p_String payload ''warehouseId'')
             (Fail ''WRONG_WAREHOUSE'' ''Reservation warehouse mismatch''))
         (bnd (select_allocations E i) (\<lambda>als.
          bnd (ship_all E S als) (\<lambda>items.
          bnd (sql_uuid E shipment) (\<lambda>sid.
          andthen (update_reservation E i (\<lambda>r. r\<lparr>res_status := ''COMPLETED'', res_shipment := Some sid\<rparr>))
          (andthen (Count ''ship'' ''success'')
          (Emit E ''StockShipped'' (obj_put ''items'' (GArr items) payload)))))))))) "

section \<open>Placing\<close>

definition place :: "env \<Rightarrow> service \<Rightarrow> gobj \<Rightarrow> (idb, unit) wprog" where
  "place E S payload =
     bnd (stock E (p_String payload ''stockId'')) (\<lambda>x.
     andthen (stop_if (st_WarehouseID x \<noteq> p_String payload ''warehouseId'')
       (Fail ''WRONG_WAREHOUSE'' ''Placement warehouse mismatch''))
     (if st_LocationID x \<noteq> None \<or> st_Quantity x = 0 then ret () else
      (let location = p_String payload ''locationId'' in
       andthen (ID E location)
       (andthen (capacity E S x location (st_Quantity x))
       (bnd (sql_uuid E location) (\<lambda>l.
        andthen (update_stock E (st_ID x) (set_location l))
        (Emit E ''StockAdded''
          [(''stockId'', GStr (st_ID x)), (''productId'', GStr (st_ProductID x)),
           (''warehouseId'', GStr (st_WarehouseID x)), (''locationId'', GStr location),
           (''quantity'', GI64 (st_Quantity x))])))))))"

section \<open>The event handler\<close>

definition handled_types :: "string list" where
  "handled_types = [''ReservationRequested'', ''ReservationCancellationRequested'',
     ''ShipmentRequested'', ''ProductPlacementAssigned'']"

definition dispatch :: "env \<Rightarrow> service \<Rightarrow> gobj delivered \<Rightarrow> (idb, unit) wprog" where
  "dispatch E S e =
     (if ev_type e = ''ReservationRequested'' then reserve E (ev_payload e)
      else if ev_type e = ''ReservationCancellationRequested''
        then release E (p_String (ev_payload e) ''reservationId'') False
      else if ev_type e = ''ShipmentRequested'' then ship E S (ev_payload e)
      else place E S (ev_payload e))"

definition rejection_kind :: "string \<Rightarrow> string" where
  "rejection_kind t =
     (if t = ''ReservationRequested'' then ''ReservationRejected''
      else if t = ''ShipmentRequested'' then ''ShipmentRejected''
      else if t = ''ProductPlacementAssigned'' then ''PlacementRejected''
      else if t = ''ReservationCancellationRequested'' then ''ReservationCancellationRejected''
      else [])"

text \<open>A business fault below 500 becomes a rejection event; anything else fails the delivery.\<close>

definition reject :: "env \<Rightarrow> gobj delivered \<Rightarrow> err \<Rightarrow> (idb, unit) wprog" where
  "reject E e f =
     (case f of
        Internal m \<Rightarrow> throw f
      | Fault code message status \<Rightarrow>
         if 500 \<le> status then throw f
         else (let kind = rejection_kind (ev_type e);
                   payload = obj_put ''reason'' (GStr code) (ev_payload e)
               in andthen (if ev_type e = ''ReservationRequested''
                    then insert_reservation_if_absent E (p_String (ev_payload e) ''reservationId'')
                      (p_String (ev_payload e) ''warehouseId'') ''REJECTED'' (pg_now E)
                    else ret ())
                 (andthen (Count kind ''rejected'') (Emit E kind payload))))"

definition Handle :: "service \<Rightarrow> env \<Rightarrow> gobj delivered \<Rightarrow> (idb, unit) wprog" where
  "Handle S E e =
     (if ev_type e \<notin> set handled_types then ret () else
      andthen (Lock E (p_String (ev_payload e) ''warehouseId''))
      (bnd (Savepoint (dispatch E S e)) (\<lambda>r.
       case r of Inr _ \<Rightarrow> ret () | Inl f \<Rightarrow> reject E e f)))"

section \<open>The expiry worker\<close>

definition is_due :: "env \<Rightarrow> reservation_row \<Rightarrow> bool" where
  "is_due E r = (res_status r = ''CONFIRMED'' \<and> res_expires r \<le> pg_now E)"

text \<open>
  The scan has a limit and no order: the order in which the rows are met is a parameter.
\<close>

definition due_batch :: "env \<Rightarrow> (reservation_row list \<Rightarrow> reservation_row list) \<Rightarrow> reservation_row list \<Rightarrow> (string \<times> string) list" where
  "due_batch E scan rows =
     map (\<lambda>r. (res_id r, res_warehouse r)) (take 100 (filter (is_due E) (scan rows)))"

definition expire_one :: "env \<Rightarrow> string \<times> string \<Rightarrow> (idb, unit) wprog" where
  "expire_one E x = Transaction E (andthen (Lock E (snd x)) (release E (fst x) True))"

text \<open>Each due reservation in a transaction of its own; an error is logged and the loop goes on.\<close>

fun expire_batch :: "(env \<times> string \<times> string) list \<Rightarrow> idb world \<Rightarrow> idb world" where
  "expire_batch [] w = w"
| "expire_batch ((E, x) # xs) w = expire_batch xs (snd (expire_one E x w))"

text \<open>
  One tick of the worker: the scan, which may fail, and the transactions of its batch, each in an
  environment of its own; the list of these ends where the process does.
\<close>

definition Work_tick ::
  "env \<Rightarrow> bool \<Rightarrow> (reservation_row list \<Rightarrow> reservation_row list) \<Rightarrow> env list \<Rightarrow> idb world \<Rightarrow> idb world" where
  "Work_tick E scan_ok scan Es w =
     (if scan_ok then expire_batch (zip Es (due_batch E scan (reservations (db w)))) w else w)"

end
