(* ===== verification/Inventory_Invariant.thy ===== *)
theory Inventory_Invariant
  imports Reservations
begin

text \<open>
  The invariant of the inventory database. \<open>tables_ok\<close> is what the schema and the types promise
  (keys, foreign keys, checks, finite weights); \<open>ledger\<close> is what the code must keep by itself:
  the reserved quantity of a lot is the sum of the allocations of its confirmed reservations,
  except for the amounts a running transaction has already taken off.
\<close>

section \<open>Definitions\<close>

definition stock_ok :: "stock_row \<Rightarrow> bool" where
  "stock_ok r = (stock_check r \<and> is_i64 (st_Quantity r) \<and> valid_f64 (st_Weight r) \<and> valid_f64 (st_Volume r))"

definition nonneg_f64 :: "f64 \<Rightarrow> bool" where
  "nonneg_f64 v = (valid_f64 v \<and> pg_nonneg v)"

definition capacity_ok :: "capacity_row \<Rightarrow> bool" where
  "capacity_ok c = (nonneg_f64 (cap_weight c) \<and> nonneg_f64 (cap_volume c))"

definition alloc_key :: "allocation_row \<Rightarrow> string \<times> string" where
  "alloc_key a = (al_reservation a, al_stock a)"

text \<open>The ids of a lot are stored in the canonical form of PostgreSQL's \<open>uuid\<close> type, which \<open>P\<close> reads.\<close>

definition canonical :: "(string \<Rightarrow> string option) \<Rightarrow> stock_row \<Rightarrow> bool" where
  "canonical P r = (P (st_ID r) = Some (st_ID r) \<and> P (st_ProductID r) = Some (st_ProductID r)
     \<and> P (st_WarehouseID r) = Some (st_WarehouseID r)
     \<and> (\<forall>l. st_LocationID r = Some l \<longrightarrow> P l = Some l))"

definition tables_ok :: "(string \<Rightarrow> string option) \<Rightarrow> idb \<Rightarrow> bool" where
  "tables_ok P d =
     (distinct (map st_ID (stocks d)) \<and> (\<forall>r \<in> set (stocks d). stock_ok r \<and> canonical P r)
    \<and> distinct (map cap_location (capacities d)) \<and> (\<forall>c \<in> set (capacities d). capacity_ok c)
    \<and> distinct (map res_id (reservations d))
    \<and> distinct (map alloc_key (allocations d))
    \<and> (\<forall>a \<in> set (allocations d). 0 < al_quantity a
         \<and> al_reservation a \<in> res_id ` set (reservations d) \<and> al_stock a \<in> st_ID ` set (stocks d)))"

definition confirmed :: "reservation_row list \<Rightarrow> string \<Rightarrow> bool" where
  "confirmed rows i = (\<exists>r \<in> set rows. res_id r = i \<and> res_status r = ''CONFIRMED'')"

definition reserved_by :: "reservation_row list \<Rightarrow> allocation_row list \<Rightarrow> string \<Rightarrow> int" where
  "reserved_by rs als i =
     (\<Sum>a\<leftarrow>als. if al_stock a = i \<and> confirmed rs (al_reservation a) then al_quantity a else 0)"

definition taken_off :: "(string \<times> int) list \<Rightarrow> string \<Rightarrow> int" where
  "taken_off xs i = (\<Sum>(j, n)\<leftarrow>xs. if j = i then n else 0)"

definition ledger :: "(string \<times> int) list \<Rightarrow> idb \<Rightarrow> bool" where
  "ledger xs d = (\<forall>r \<in> set (stocks d).
     st_Reserved r + taken_off xs (st_ID r) = reserved_by (reservations d) (allocations d) (st_ID r))"

definition inv_with :: "(string \<Rightarrow> string option) \<Rightarrow> (string \<times> int) list \<Rightarrow> idb \<Rightarrow> bool" where
  "inv_with P xs d = (tables_ok P d \<and> ledger xs d)"

abbreviation inventory_ok :: "(string \<Rightarrow> string option) \<Rightarrow> idb \<Rightarrow> bool" where
  "inventory_ok P \<equiv> inv_with P []"

lemma taken_off_Nil [simp]: "taken_off [] i = 0"
  by (simp add: taken_off_def)

lemma taken_off_snoc: "taken_off (xs @ [(j, n)]) i = taken_off xs i + (if j = i then n else 0)"
  by (simp add: taken_off_def)

text \<open>The invariant reads the tables only, not the messaging part of the database.\<close>

lemma invariant_pdb [simp]:
  "tables_ok P (d\<lparr>outbox := x\<rparr>) = tables_ok P d" "ledger xs (d\<lparr>outbox := x\<rparr>) = ledger xs d"
  "tables_ok P (d\<lparr>processed := y\<rparr>) = tables_ok P d" "ledger xs (d\<lparr>processed := y\<rparr>) = ledger xs d"
  "tables_ok P (d\<lparr>commands := z\<rparr>) = tables_ok P d" "ledger xs (d\<lparr>commands := z\<rparr>) = ledger xs d"
  "ledger xs (d\<lparr>capacities := c\<rparr>) = ledger xs d"
  by (simp_all add: tables_ok_def ledger_def)

lemma inv_with_pdb [simp]:
  "inv_with P xs (d\<lparr>outbox := x\<rparr>) = inv_with P xs d"
  "inv_with P xs (d\<lparr>processed := y\<rparr>) = inv_with P xs d"
  "inv_with P xs (d\<lparr>commands := z\<rparr>) = inv_with P xs d"
  by (simp_all add: inv_with_def)

section \<open>Weakest preconditions of the statements\<close>

lemma wp_stock [wp_simps]:
  "wp (stock E i) Q R w =
     ((pg_uuid E i = None \<longrightarrow> R (Internal ''invalid input syntax for type uuid'') w) \<and>
      (\<forall>u. pg_uuid E i = Some u \<longrightarrow>
        (find_row st_ID u (stocks (db w)) = None \<longrightarrow> R not_found_stock w) \<and>
        (\<forall>r. find_row st_ID u (stocks (db w)) = Some r \<longrightarrow> Q (Stock.truncate r) w)))"
  by (simp add: stock_def wp_simps)

lemma truncate_fields [simp]:
  "st_ID (Stock.truncate r) = st_ID r" "st_ProductID (Stock.truncate r) = st_ProductID r"
  "st_WarehouseID (Stock.truncate r) = st_WarehouseID r"
  "st_LocationID (Stock.truncate r) = st_LocationID r"
  "st_Quantity (Stock.truncate r) = st_Quantity r" "st_Reserved (Stock.truncate r) = st_Reserved r"
  "st_Batch (Stock.truncate r) = st_Batch r" "st_Expiration (Stock.truncate r) = st_Expiration r"
  "st_Weight (Stock.truncate r) = st_Weight r" "st_Volume (Stock.truncate r) = st_Volume r"
  "st_StorageType (Stock.truncate r) = st_StorageType r"
  by (simp_all add: Stock.truncate_def)

text \<open>
  An update of one lot: either no such lot, or the row of the lot is replaced by a checked one.
\<close>

lemma wp_update_stockI:
  assumes "\<And>u. pg_uuid E i = Some u \<Longrightarrow> find_row st_ID u (stocks (db w)) = None \<Longrightarrow> Q () w"
    and "\<And>u r r'. pg_uuid E i = Some u \<Longrightarrow> find_row st_ID u (stocks (db w)) = Some r \<Longrightarrow>
      f r = Some r' \<Longrightarrow> stock_check r' \<Longrightarrow>
      Q () (set_stocks (update_rows st_ID u (\<lambda>_. r'\<lparr>st_updated := pg_now E\<rparr>) (stocks (db w))) w)"
  shows "wp (update_stock E i f) Q anyerr w"
  using assms by (auto simp: update_stock_def wp_simps split: option.splits)

text \<open>Where every update function is one of the code's, it keeps the key and the unit sizes.\<close>

definition row_update :: "(stock_row \<Rightarrow> stock_row option) \<Rightarrow> bool" where
  "row_update f = (\<forall>r r'. f r = Some r' \<longrightarrow> st_ID r' = st_ID r \<and> st_Weight r' = st_Weight r
     \<and> st_Volume r' = st_Volume r \<and> st_ProductID r' = st_ProductID r
     \<and> st_WarehouseID r' = st_WarehouseID r)"

lemma row_updated [simp]:
  "canonical P (r\<lparr>st_updated := t\<rparr>) = canonical P r" "stock_ok (r\<lparr>st_updated := t\<rparr>) = stock_ok r"
  by (simp_all add: canonical_def stock_ok_def stock_check_def)

text \<open>A new location is a canonical one.\<close>

definition location_update :: "(string \<Rightarrow> string option) \<Rightarrow> (stock_row \<Rightarrow> stock_row option) \<Rightarrow> bool" where
  "location_update P f = (\<forall>r r' l. f r = Some r' \<longrightarrow> st_LocationID r' = Some l \<longrightarrow>
     st_LocationID r = Some l \<or> P l = Some l)"

lemma location_update_simps [simp]:
  "location_update P (add_quantity n)" "location_update P (set_quantity n)"
  "location_update P (add_reserved n)" "location_update P (deduct n)"
  "P l = Some l \<Longrightarrow> location_update P (set_location l)"
  by (auto simp: location_update_def add_quantity_def set_quantity_def add_reserved_def
      set_location_def deduct_def split: option.splits)

lemma canonical_updated:
  assumes "canonical P r" "row_update f" "location_update P f" "f r = Some r'"
  shows "canonical P r'"
proof -
  have k: "st_ID r' = st_ID r" "st_ProductID r' = st_ProductID r" "st_WarehouseID r' = st_WarehouseID r"
    using assms(2,4) by (simp_all add: row_update_def)
  have "P l = Some l" if "st_LocationID r' = Some l" for l
    using assms(1,3,4) that by (auto simp: location_update_def canonical_def)
  with assms(1) k show ?thesis by (simp add: canonical_def)
qed

lemma row_update_simps [simp]:
  "row_update (add_quantity n)" "row_update (set_quantity n)" "row_update (add_reserved n)"
  "row_update (set_location l)" "row_update (deduct n)"
  by (auto simp: row_update_def add_quantity_def set_quantity_def add_reserved_def
      set_location_def deduct_def split: option.splits)

lemma replace_stock_tables_ok:
  assumes "tables_ok P d" "find_row st_ID u (stocks d) = Some r" "stock_ok r'" "canonical P r'" "st_ID r' = st_ID r"
  shows "tables_ok P (d\<lparr>stocks := update_rows st_ID u (\<lambda>_. r'\<lparr>st_updated := t\<rparr>) (stocks d)\<rparr>)"
proof -
  have u: "st_ID r = u" using find_row_SomeD [OF assms(2)] by simp
  have k: "map st_ID (update_rows st_ID u (\<lambda>_. r'\<lparr>st_updated := t\<rparr>) (stocks d)) = map st_ID (stocks d)"
    using assms(5) u by (auto simp: update_rows_def)
  then have "st_ID ` set (update_rows st_ID u (\<lambda>_. r'\<lparr>st_updated := t\<rparr>) (stocks d)) = st_ID ` set (stocks d)"
    by (metis set_map)
  then show ?thesis using assms(1,3,4) k
    by (auto simp: tables_ok_def set_update_rows)
qed

lemma append_stock_tables_ok:
  assumes "tables_ok P d" "find_row st_ID (st_ID r) (stocks d) = None" "stock_ok r" "canonical P r"
  shows "tables_ok P (d\<lparr>stocks := stocks d @ [r]\<rparr>)"
  using assms by (auto simp: tables_ok_def find_row_None_iff)

section \<open>The capacity ledger in the invariant\<close>

lemma ledger_add_valid:
  assumes "ledger_add a n u = Fin x"
  shows "valid_f64 (Fin x)"
  using assms by (cases a; cases "fmul (f64_of_int n) u") (auto simp: ledger_add_def dest: rne_valid)

lemma valid_f64_over: "valid_f64 over_tolerance" and valid_f64_under: "valid_f64 under_tolerance"
proof -
  have *: "valid_f64 (rne x)" if "\<bar>x\<bar> \<le> 1" for x
  proof -
    have one: "rnd 1 = 1" "rnd (- 1) = - 1" using rnd_int [of 1] rnd_minus [of 1] by simp_all
    have "- 1 \<le> x" "x \<le> 1" using that by linarith+
    then have "\<bar>rnd x\<bar> \<le> 1"
      using f64r.rd_between [of "- 1" 1 x] one by (simp add: abs_le_iff)
    also have "(1 :: rat) < 2 ^ 1024" by simp
    finally have "rne x = Fin (rnd x)" by (simp add: rne_Fin)
    then show ?thesis using rne_valid by simp
  qed
  show "valid_f64 over_tolerance" "valid_f64 under_tolerance"
    unfolding over_tolerance_def under_tolerance_def by (rule *; simp)+
qed

text \<open>
  A successful change of the ledger: the row of the location gets the clamped totals and the
  next revision, and its event is emitted. The totals are finite because the event could be
  marshalled; for an inflow they passed the limits of a location that accepts the lot.
\<close>

definition accepts :: "Stock \<Rightarrow> Location \<Rightarrow> bool" where
  "accepts x loc = (lo_WarehouseID loc = st_WarehouseID x
     \<and> lo_Status loc \<noteq> ''BLOCKED'' \<and> lo_Status loc \<noteq> ''MAINTENANCE''
     \<and> lo_ZoneType loc = ''STORAGE'' \<and> lo_StorageType loc = st_StorageType x)"

definition location_reply :: "env \<Rightarrow> service \<Rightarrow> string \<Rightarrow> err + Location" where
  "location_reply E S location = reply_value (decode_struct False location_fields) zero_Location
     (http_get E (WarehouseURL S @ ''/locations/'' @ location))"

definition fits_limit :: "f64 \<Rightarrow> f64 \<Rightarrow> bool" where
  "fits_limit v limit = (\<not> fgt v (fadd limit over_tolerance))"

definition ledger_row :: "Stock \<Rightarrow> int \<Rightarrow> capacity_row \<Rightarrow> capacity_row" where
  "ledger_row x delta c = c\<lparr>cap_weight := fmax (Fin 0) (ledger_add (cap_weight c) delta (st_Weight x)),
     cap_volume := fmax (Fin 0) (ledger_add (cap_volume c) delta (st_Volume x)),
     cap_revision := i64 (cap_revision c + 1)\<rparr>"

text \<open>What the event of a capacity change tells.\<close>

definition capacity_payload :: "Stock \<Rightarrow> string \<Rightarrow> capacity_row \<Rightarrow> gobj" where
  "capacity_payload x location c =
     [(''locationId'', GStr location), (''warehouseId'', GStr (st_WarehouseID x)),
      (''currentWeight'', GF64 (cap_weight c)), (''currentVolume'', GF64 (cap_volume c)),
      (''revision'', GI64 (cap_revision c))]"

definition capacity_moved ::
  "env \<Rightarrow> service \<Rightarrow> Stock \<Rightarrow> string \<Rightarrow> int \<Rightarrow> idb world \<Rightarrow> idb world \<Rightarrow> bool" where
  "capacity_moved E S x location delta w w' =
     (\<exists>u wid c row. pg_uuid E location = Some u \<and> pg_uuid E (st_WarehouseID x) = Some wid
       \<and> find_row cap_location u (cap_ensure u wid (capacities (db w))) = Some c
       \<and> db w' = (db w)\<lparr>capacities := update_rows cap_location u (\<lambda>_. ledger_row x delta c)
                           (cap_ensure u wid (capacities (db w))),
                        outbox := outbox (db w) @ [row]\<rparr>
       \<and> ob_type row = ''LocationCapacityChanged'' \<and> ob_published row = None
       \<and> ev_type (ob_body row) = ''LocationCapacityChanged'' \<and> ev_version (ob_body row) = 1
       \<and> marshal (GObj (capacity_payload x location (ledger_row x delta c))) = Some (ev_payload (ob_body row))
       \<and> capacity_ok (ledger_row x delta c)
       \<and> \<not> flt (ledger_add (cap_weight c) delta (st_Weight x)) under_tolerance
       \<and> \<not> flt (ledger_add (cap_volume c) delta (st_Volume x)) under_tolerance
       \<and> (0 < delta \<longrightarrow> (\<exists>loc. location_reply E S location = Inr loc \<and> accepts x loc
            \<and> fits_limit (ledger_add (cap_weight c) delta (st_Weight x)) (lo_MaxWeight loc)
            \<and> fits_limit (ledger_add (cap_volume c) delta (st_Volume x)) (lo_MaxVolume loc)))
       \<and> held w' = held w \<and> kafka w' = kafka w)"

lemma fmax_zero_marshal:
  assumes "json_of_f64 (fmax (Fin 0) (ledger_add a n u)) \<noteq> None"
  shows "nonneg_f64 (fmax (Fin 0) (ledger_add a n u))"
proof (cases "ledger_add a n u")
  case (Fin x)
  then have "valid_f64 (Fin x)" by (rule ledger_add_valid)
  then show ?thesis by (simp add: Fin fmax_zero_fin nonneg_f64_def valid_f64_max)
next
  case NInf
  then show ?thesis by (simp add: fmax_def nonneg_f64_def)
qed (use assms in \<open>simp_all add: fmax_def json_of_f64_def\<close>)

lemma wp_check_location [wp_simps]:
  "wp (check_location E S x location) Q anyerr w =
     (\<forall>loc. location_reply E S location = Inr loc \<longrightarrow> accepts x loc \<longrightarrow> Q loc (after_correlation E w))"
  by (auto simp: check_location_def wp_simps location_reply_def accepts_def)

lemma cap_row_update_eq:
  assumes "find_row cap_location u rows = Some c" "distinct (map cap_location rows)"
  shows "update_rows cap_location u (\<lambda>r. r\<lparr>cap_weight := a, cap_volume := b, cap_revision := n\<rparr>) rows
    = update_rows cap_location u (\<lambda>_. c\<lparr>cap_weight := a, cap_volume := b, cap_revision := n\<rparr>) rows"
  using assms by (induction rows) (auto simp: update_rows_absent split: if_splits)

lemma cap_ensure_distinct:
  "distinct (map cap_location rows) \<Longrightarrow> distinct (map cap_location (cap_ensure u wid rows))"
  by (auto simp: cap_ensure_def find_row_None_iff cap_zero_def)

lemma cap_ensure_find: "\<exists>c. find_row cap_location u (cap_ensure u wid rows) = Some c"
  by (auto simp: cap_ensure_def find_row_append cap_zero_def split: option.splits)

lemma wp_capacityI:
  assumes t: "tables_ok P (db w)"
    and Q: "\<And>w'. capacity_moved E S x location delta w w' \<Longrightarrow> Q () w'"
  shows "wp (capacity E S x location delta) Q anyerr w"
proof -
  have main: "wp (andthen (insert_capacity E location (st_WarehouseID x))
     (bnd (select_capacity E location) (\<lambda>row.
      let weight = ledger_add (cap_weight row) delta (st_Weight x);
          volume = ledger_add (cap_volume row) delta (st_Volume x)
      in andthen (stop_if (0 < delta \<and> (fgt weight (fadd (lo_MaxWeight loc) over_tolerance)
                                      \<or> fgt volume (fadd (lo_MaxVolume loc) over_tolerance)))
           (Fail ''LOCATION_FULL'' ''Location capacity exceeded''))
        (andthen (stop_if (flt weight under_tolerance \<or> flt volume under_tolerance)
           (Internal ''capacity invariant violated''))
        (let weight' = fmax (Fin 0) weight;
             volume' = fmax (Fin 0) volume;
             rev' = i64 (cap_revision row + 1)
         in andthen (update_capacity E location weight' volume' rev')
           (Emit E ''LocationCapacityChanged''
             [(''locationId'', GStr location), (''warehouseId'', GStr (st_WarehouseID x)),
              (''currentWeight'', GF64 weight'), (''currentVolume'', GF64 volume'),
              (''revision'', GI64 rev')])))))) Q anyerr v"
    if v: "db v = db w" "held v = held w" "kafka v = kafka w"
      and loc: "0 < delta \<Longrightarrow> location_reply E S location = Inr loc \<and> accepts x loc" for v loc
  proof -
    have dc: "distinct (map cap_location (capacities (db w)))" using t by (simp add: tables_ok_def)
    show ?thesis
      apply (simp only: insert_capacity_def select_capacity_def update_capacity_def wp_simps Let_def)
      apply (intro allI impI conjI TrueI)
      apply (rule wp_EmitI)
       apply (rule Q)
      subgoal premises p for u wid u' c u'' w'
      proof -
        have same: "u' = u" "u'' = u" using p by simp_all
        let ?rows = "cap_ensure u wid (capacities (db w))"
        have c: "find_row cap_location u ?rows = Some c" using p v(1) same by simp
        have eq: "update_rows cap_location u (\<lambda>r. r\<lparr>cap_weight := a, cap_volume := b, cap_revision := n\<rparr>) ?rows
            = update_rows cap_location u (\<lambda>_. c\<lparr>cap_weight := a, cap_volume := b, cap_revision := n\<rparr>) ?rows" for a b n
          by (rule cap_row_update_eq [OF c cap_ensure_distinct [OF dc]])
        from p obtain row where row: "db w' = (db w)\<lparr>capacities := update_rows cap_location u (\<lambda>_. ledger_row x delta c) ?rows,
                        outbox := outbox (db w) @ [row]\<rparr>" "ob_type row = ''LocationCapacityChanged''" "ob_published row = None"
          "ev_type (ob_body row) = ''LocationCapacityChanged''" "ev_version (ob_body row) = 1"
          "marshal (GObj [(''locationId'', GStr location), (''warehouseId'', GStr (st_WarehouseID x)),
              (''currentWeight'', GF64 (cap_weight (ledger_row x delta c))),
              (''currentVolume'', GF64 (cap_volume (ledger_row x delta c))),
              (''revision'', GI64 (cap_revision (ledger_row x delta c)))]) = Some (ev_payload (ob_body row))"
          by (auto simp: emitted_def v same eq ledger_row_def)
        then have "capacity_ok (ledger_row x delta c)"
          unfolding capacity_ok_def ledger_row_def
          by (auto intro!: fmax_zero_marshal split: option.splits)
        moreover have "held w' = held w" "kafka w' = kafka w" using p v by (auto simp: emitted_def)
        ultimately show ?thesis
          unfolding capacity_moved_def capacity_payload_def using p c row loc
          by (intro exI [of _ u] exI [of _ wid] exI [of _ c] exI [of _ row]) (auto simp: fits_limit_def simp del: marshal.simps)
      qed
      apply simp
      done
  qed
  show ?thesis
  proof (cases "0 < delta")
    case True
    show ?thesis unfolding capacity_def if_P [OF True] wp_bnd [of _ _ Q] wp_check_location
      by (intro allI impI, rule main [unfolded wp_bnd [of _ _ Q]]) auto
  next
    case False
    show ?thesis unfolding capacity_def if_not_P [OF False] wp_bnd [of _ _ Q] wp_ret
      by (rule main [unfolded wp_bnd [of _ _ Q]]) (use False in auto)
  qed
qed

lemma capacity_moved_tables_ok:
  assumes "tables_ok P (db w)" "capacity_moved E S x location delta w w'"
  shows "tables_ok P (db w')"
proof -
  obtain u wid c row where m: "find_row cap_location u (cap_ensure u wid (capacities (db w))) = Some c"
    "db w' = (db w)\<lparr>capacities := update_rows cap_location u (\<lambda>_. ledger_row x delta c)
                           (cap_ensure u wid (capacities (db w))), outbox := outbox (db w) @ [row]\<rparr>"
    "capacity_ok (ledger_row x delta c)"
    using assms(2) unfolding capacity_moved_def by blast
  let ?rows = "cap_ensure u wid (capacities (db w))"
  have "cap_location c = u" using find_row_SomeD [OF m(1)] by simp
  then have k: "map cap_location (update_rows cap_location u (\<lambda>_. ledger_row x delta c) ?rows) = map cap_location ?rows"
    by (auto simp: update_rows_def ledger_row_def)
  have ok: "\<forall>c \<in> set ?rows. capacity_ok c"
    using assms(1) by (auto simp: tables_ok_def cap_ensure_def cap_zero_def capacity_ok_def nonneg_f64_def)
  have d: "distinct (map cap_location ?rows)"
    using assms(1) by (auto simp: tables_ok_def intro: cap_ensure_distinct)
  show ?thesis using assms(1) k ok m(3) d
    by (auto simp: m(2) tables_ok_def set_update_rows)
qed

lemma capacity_moved_frame:
  assumes "capacity_moved E S x location delta w w'"
  shows "stocks (db w') = stocks (db w)" "reservations (db w') = reservations (db w)"
    "allocations (db w') = allocations (db w)" "processed (db w') = processed (db w)"
    "commands (db w') = commands (db w)" "held w' = held w" "kafka w' = kafka w"
  using assms by (auto simp: capacity_moved_def)

end
