(* ===== verification/Inventory_Frames.thy ===== *)
theory Inventory_Frames
  imports Reservations
begin

text \<open>
  What the inventory code leaves alone. The capacity ledger touches its own table and announces
  that (locale \<open>capacity_frame\<close>), it does not touch the lots (\<open>ledger_frame\<close>), the statements on lots and capacities do not touch
  the reservations (locale \<open>lot_frame\<close>), and no business code touches the inbox or the saved
  replies (its extension \<open>table_frame\<close>). The facts are proved once for any predicate \<open>J\<close> of the
  database that does not read the tables concerned, and interpreted on the ones that matter.
\<close>

locale capacity_frame =
  fixes J :: "idb \<Rightarrow> bool"
  assumes capacity_event: "J d \<Longrightarrow> ev_type (ob_body row) = ''LocationCapacityChanged'' \<Longrightarrow>
      J (d\<lparr>outbox := outbox d @ [row]\<rparr>)"
    and free_capacities: "J (d\<lparr>capacities := c\<rparr>) = J d"
begin

lemma keeps_capacity_event: "keeps (\<lambda>w. J (db w)) (Emit E ''LocationCapacityChanged'' p)"
  by (rule leadsI, rule wp_EmitI) (auto simp: emitted_def intro: capacity_event)

lemma keeps_capacity_statements:
  "keeps (\<lambda>w. J (db w)) (insert_capacity E l u)" "keeps (\<lambda>w. J (db w)) (select_capacity E l)"
  "keeps (\<lambda>w. J (db w)) (update_capacity E l x y n)"
  by (simp_all add: leads_def wp_simps insert_capacity_def select_capacity_def
      update_capacity_def free_capacities)

lemma keeps_check_location: "keeps (\<lambda>w. J (db w)) (check_location E S x l)"
  unfolding check_location_def by (rule keeps_rules keeps_world)+

lemma keeps_capacity: "keeps (\<lambda>w. J (db w)) (capacity E S x l n)"
  unfolding capacity_def
  by (rule keeps_check_location keeps_rules keeps_capacity_statements keeps_capacity_event)+

end

locale ledger_frame = capacity_frame +
  assumes free_outbox: "J (d\<lparr>outbox := a\<rparr>) = J d"
begin

lemma keeps_Emit: "keeps (\<lambda>w. J (db w)) (Emit E k p)"
  by (rule leadsI, rule wp_EmitI) (auto simp: free_outbox elim: emittedE)

lemma keeps_receive_expiry: "keeps (\<lambda>w. J (db w)) (receive_expiry E s)"
  unfolding receive_expiry_def by (rule keeps_rules keeps_world)+

lemmas ledger_rules = keeps_rules keeps_world keeps_Emit keeps_capacity keeps_receive_expiry

end

locale lot_frame = ledger_frame +
  assumes free_stocks: "J (d\<lparr>stocks := b\<rparr>) = J d"
begin

lemma keeps_stock: "keeps (\<lambda>w. J (db w)) (stock E i)"
  by (simp add: leads_def wp_simps stock_def)

lemma keeps_insert_stock: "keeps (\<lambda>w. J (db w)) (insert_stock E x)"
  by (auto simp: leads_def wp_simps insert_stock_def sql_uuid_option_def Let_def free_stocks
      split: option.split)

lemma keeps_update_stock: "keeps (\<lambda>w. J (db w)) (update_stock E i f)"
  by (simp add: leads_def wp_simps update_stock_def free_stocks)

lemmas lot_rules = keeps_rules keeps_world keeps_Emit keeps_stock keeps_insert_stock
  keeps_update_stock keeps_capacity keeps_receive_expiry

lemma keeps_Receive: "keeps (\<lambda>w. J (db w)) (Receive E S q)"
  unfolding Receive_def by (rule lot_rules)+

lemma keeps_adjust: "keeps (\<lambda>w. J (db w)) (adjust E S x q)"
  unfolding adjust_def by (rule lot_rules)+

lemma keeps_change_target: "keeps (\<lambda>w. J (db w)) (change_target E S a x q p)"
  unfolding change_target_def by (rule lot_rules)+

lemma keeps_take_off: "keeps (\<lambda>w. J (db w)) (take_off E S a x q)"
  unfolding take_off_def by (rule lot_rules keeps_change_target)+

lemma keeps_Change: "keeps (\<lambda>w. J (db w)) (Change E S a q)"
  unfolding Change_def by (rule lot_rules keeps_adjust keeps_take_off)+

lemma keeps_ship_one: "keeps (\<lambda>w. J (db w)) (ship_one E S i n)"
  unfolding ship_one_def by (rule lot_rules)+

lemma keeps_ship_all: "keeps (\<lambda>w. J (db w)) (ship_all E S als)"
proof (induction als)
  case (Cons a als)
  then show ?case by (cases a) (auto intro!: keeps_rules keeps_ship_one)
qed (simp add: keeps_ret)

lemma keeps_place: "keeps (\<lambda>w. J (db w)) (place E S p)"
  unfolding place_def by (rule lot_rules)+

end

locale table_frame = lot_frame +
  assumes free_reservations: "J (d\<lparr>reservations := a\<rparr>) = J d"
    and free_allocations: "J (d\<lparr>allocations := b\<rparr>) = J d"
begin

lemma keeps_reservation_statements:
  "keeps (\<lambda>w. J (db w)) (select_reservation E i)"
  "keeps (\<lambda>w. J (db w)) (insert_reservation E i u s n)"
  "keeps (\<lambda>w. J (db w)) (insert_reservation_if_absent E i u s n)"
  "keeps (\<lambda>w. J (db w)) (update_reservation E i f)"
  "keeps (\<lambda>w. J (db w)) (insert_allocation E i l n)"
  "keeps (\<lambda>w. J (db w)) (unreserve_all E i)"
  "keeps (\<lambda>w. J (db w)) (select_release_items E i)"
  "keeps (\<lambda>w. J (db w)) (select_allocations E i)"
  "keeps (\<lambda>w. J (db w)) (select_lots E u v)"
  by (simp_all add: leads_def wp_simps select_reservation_def insert_reservation_def
      insert_reservation_if_absent_def update_reservation_def insert_allocation_def
      unreserve_all_def select_release_items_def select_allocations_def select_lots_def Let_def
      free_reservations free_allocations free_stocks)

lemmas table_rules = lot_rules keeps_reservation_statements

lemma keeps_take_lots: "keeps (\<lambda>w. J (db w)) (take_lots E i lots n)"
proof (induction lots arbitrary: n)
  case (Cons a lots)
  then show ?case by (cases a) (simp only: take_lots.simps, (rule Cons.IH table_rules)+)
qed (simp add: keeps_ret)

lemma keeps_reserve_lines: "keeps (\<lambda>w. J (db w)) (reserve_lines E i u seen lines)"
proof (induction lines arbitrary: seen)
  case (Cons a lines)
  show ?case unfolding reserve_lines.simps by (rule Cons.IH table_rules keeps_take_lots)+
qed (simp add: keeps_ret)

lemma keeps_reserve: "keeps (\<lambda>w. J (db w)) (reserve E p)"
  unfolding reserve_def by (rule table_rules keeps_reserve_lines)+

lemma keeps_release: "keeps (\<lambda>w. J (db w)) (release E i x)"
  unfolding release_def by (rule table_rules)+

lemma keeps_ship: "keeps (\<lambda>w. J (db w)) (ship E S p)"
  unfolding ship_def by (rule table_rules keeps_ship_all)+

lemma keeps_dispatch: "keeps (\<lambda>w. J (db w)) (dispatch E S e)"
  unfolding dispatch_def by (rule keeps_rules keeps_reserve keeps_release keeps_ship keeps_place)+

lemma keeps_reject: "keeps (\<lambda>w. J (db w)) (reject E e f)"
  unfolding reject_def by (cases f) (simp_all only: err.case, (rule table_rules)+)

lemma keeps_Handle: "keeps (\<lambda>w. J (db w)) (Handle S E e)"
  unfolding Handle_def
  by (rule table_rules leads_Savepoint [where J = J] keeps_dispatch keeps_reject)+

end

interpretation lots: ledger_frame "\<lambda>d. C (stocks d)" for C
  by unfold_locales simp_all

interpretation bookings: lot_frame "\<lambda>d. C (reservations d) (allocations d)" for C
  by unfold_locales simp_all

interpretation inbox: table_frame "\<lambda>d. processed d = X" for X
  by unfold_locales simp_all

interpretation replies: table_frame "\<lambda>d. commands d = X" for X
  by unfold_locales simp_all

end
