(* ===== verification/Inventory_Preservation.thy ===== *)
theory Inventory_Preservation
  imports Inventory_Invariant Inventory_Frames Delivery
begin

text \<open>
  Every operation of the inventory service keeps the invariant: verification-condition rules of
  the statements first (one per statement, named \<open>wp_<statement>_inv\<close>), then the operations.
\<close>

section \<open>Statements\<close>

lemma taken_off_mset:
  assumes "mset xs = mset ys"
  shows "taken_off xs i = taken_off ys i"
proof -
  have "taken_off zs i = sum_mset (image_mset (\<lambda>(j, n). if j = i then n else 0) (mset zs))" for zs
    unfolding taken_off_def sum_mset_sum_list [symmetric] mset_map by (rule refl)
  then show ?thesis by (simp add: assms)
qed

lemma emitted_inv: "emitted E k p w w' \<Longrightarrow> inv_with P xs (db w') = inv_with P xs (db w)"
  by (elim emittedE) simp

lemma wp_Emit_inv:
  assumes "inv_with P xs (db w)" and "\<And>w'. inv_with P xs (db w') \<Longrightarrow> Q () w'"
  shows "wp (Emit E k p) Q anyerr w"
  using assms by (intro wp_EmitI) (auto simp: emitted_inv)

lemma inv_withD:
  assumes "inv_with P xs d"
  shows "tables_ok P d" "ledger xs d"
  using assms by (simp_all add: inv_with_def)

lemma row_canonical: "inv_with P xs d \<Longrightarrow> r \<in> set (stocks d) \<Longrightarrow> canonical P r"
  by (simp add: inv_with_def tables_ok_def)

lemma capacity_moved_inv:
  assumes "inv_with P xs (db w)" "capacity_moved E S x l n w w'"
  shows "inv_with P xs (db w')"
proof -
  obtain c b where "db w' = (db w)\<lparr>capacities := c, outbox := b\<rparr>"
    using assms(2) unfolding capacity_moved_def by blast
  then have "ledger xs (db w') = ledger xs (db w)" by simp
  then show ?thesis
    using assms(1) capacity_moved_tables_ok [OF inv_withD(1) [OF assms(1)] assms(2)]
    by (simp add: inv_with_def)
qed

lemma wp_capacity_inv:
  assumes "inv_with P xs (db w)" and "\<And>w'. inv_with P xs (db w') \<Longrightarrow> Q () w'"
  shows "wp (capacity E S x l n) Q anyerr w"
  by (rule wp_capacityI [OF inv_withD(1) [OF assms(1)]])
    (rule assms(2), rule capacity_moved_inv [OF assms(1)])

text \<open>Updates that leave the reserved quantity alone and keep the quantity in range.\<close>

definition quantity_update :: "(stock_row \<Rightarrow> stock_row option) \<Rightarrow> bool" where
  "quantity_update f = (\<forall>r r'. f r = Some r' \<longrightarrow> st_Reserved r' = st_Reserved r
     \<and> (is_i64 (st_Quantity r) \<longrightarrow> is_i64 (st_Quantity r')))"

lemma quantity_update_simps [simp]:
  "quantity_update (add_quantity n)" "is_i64 n \<Longrightarrow> quantity_update (set_quantity n)"
  "quantity_update (set_location l)"
  by (auto simp: quantity_update_def add_quantity_def set_quantity_def set_location_def)

lemma ledger_update_rows:
  assumes "ledger xs d" "find_row st_ID u (stocks d) = Some r" "st_ID r' = u"
    and "st_Reserved r' + taken_off ys u = st_Reserved r + taken_off xs u"
    and "\<And>i. i \<noteq> u \<Longrightarrow> taken_off ys i = taken_off xs i"
  shows "ledger ys (d\<lparr>stocks := update_rows st_ID u (\<lambda>_. r'\<lparr>st_updated := t\<rparr>) (stocks d)\<rparr>)"
proof -
  have r: "r \<in> set (stocks d)" "st_ID r = u" using find_row_SomeD [OF assms(2)] by auto
  show ?thesis
    unfolding ledger_def
  proof
    fix x assume "x \<in> set (stocks (d\<lparr>stocks := update_rows st_ID u (\<lambda>_. r'\<lparr>st_updated := t\<rparr>) (stocks d)\<rparr>))"
    then obtain y where y: "y \<in> set (stocks d)" "x = (if st_ID y = u then r'\<lparr>st_updated := t\<rparr> else y)"
      by (auto simp: set_update_rows)
    show "st_Reserved x + taken_off ys (st_ID x) =
        reserved_by (reservations (d\<lparr>stocks := update_rows st_ID u (\<lambda>_. r'\<lparr>st_updated := t\<rparr>) (stocks d)\<rparr>))
          (allocations (d\<lparr>stocks := update_rows st_ID u (\<lambda>_. r'\<lparr>st_updated := t\<rparr>) (stocks d)\<rparr>)) (st_ID x)"
      using y r assms by (cases "st_ID y = u") (auto simp: ledger_def)
  qed
qed

lemma stock_ok_updated:
  assumes "stock_ok r" "row_update f" "f r = Some r'" "stock_check r'" "is_i64 (st_Quantity r')"
  shows "stock_ok r'"
  using assms by (auto simp: stock_ok_def row_update_def)

lemma wp_update_stock_inv:
  assumes inv: "inv_with P xs (db w)" and f: "row_update f" "quantity_update f" and l: "location_update P f"
    and Q: "\<And>w'. inv_with P xs (db w') \<Longrightarrow> Q () w'"
  shows "wp (update_stock E i f) Q anyerr w"
proof (rule wp_update_stockI)
  show "Q () w" by (rule Q [OF inv])
next
  fix u r r'
  assume a: "find_row st_ID u (stocks (db w)) = Some r" "f r = Some r'" "stock_check r'"
  have r: "r \<in> set (stocks (db w))" "st_ID r = u" using find_row_SomeD [OF a(1)] by auto
  have ok: "stock_ok r" using inv r(1) by (auto simp: inv_with_def tables_ok_def)
  have r': "st_ID r' = st_ID r" "st_Reserved r' = st_Reserved r" "is_i64 (st_Quantity r')"
    using f a(2) ok by (auto simp: row_update_def quantity_update_def stock_ok_def)
  have "stock_ok r'" by (rule stock_ok_updated [OF ok f(1) a(2,3) r'(3)])
  moreover have "canonical P r'"
    using row_canonical [OF inv r(1)] f(1) l a(2) by (rule canonical_updated)
  ultimately show "Q () (set_stocks (update_rows st_ID u (\<lambda>_. r'\<lparr>st_updated := pg_now E\<rparr>) (stocks (db w))) w)"
    using inv a(1) r r'
    by (intro Q) (simp add: inv_with_def replace_stock_tables_ok
        ledger_update_rows [where xs = xs and ys = xs])
qed

lemma wp_sql_uuid_option [wp_simps]:
  "wp (sql_uuid_option E x) Q anyerr w =
     (\<forall>v. (case x of None \<Rightarrow> v = None | Some t \<Rightarrow> \<exists>u. pg_uuid E t = Some u \<and> v = Some u) \<longrightarrow> Q v w)"
  by (auto simp: sql_uuid_option_def wp_simps split: option.splits)

lemma reserved_by_absent:
  "(\<And>a. a \<in> set als \<Longrightarrow> al_stock a \<noteq> i) \<Longrightarrow> reserved_by rs als i = 0"
  by (induction als) (auto simp: reserved_by_def)

lemma wp_insert_stockI:
  assumes "\<And>i pid wid loc. \<lbrakk> pg_uuid E (st_ID x) = Some i; pg_uuid E (st_ProductID x) = Some pid;
      pg_uuid E (st_WarehouseID x) = Some wid;
      (case st_LocationID x of None \<Rightarrow> loc = None | Some t \<Rightarrow> \<exists>u. pg_uuid E t = Some u \<and> loc = Some u);
      find_row st_ID i (stocks (db w)) = None; stock_check (stored_row E x i pid wid loc) \<rbrakk> \<Longrightarrow>
      Q () (set_stocks (stocks (db w) @ [stored_row E x i pid wid loc]) w)"
  shows "wp (insert_stock E x) Q anyerr w"
  using assms by (simp add: insert_stock_def wp_simps Let_def)

lemma wp_insert_stock_inv:
  assumes inv: "inv_with P [] (db w)" and P: "P = pg_uuid E" "uuid_law P"
    and x: "is_i64 (st_Quantity x)" "valid_f64 (st_Weight x)" "valid_f64 (st_Volume x)"
    and Q: "\<And>w'. inv_with P [] (db w') \<Longrightarrow> Q () w'"
  shows "wp (insert_stock E x) Q anyerr w"
proof (rule wp_insert_stockI)
  fix i pid wid loc
  assume i: "pg_uuid E (st_ID x) = Some i" and ids: "pg_uuid E (st_ProductID x) = Some pid"
      "pg_uuid E (st_WarehouseID x) = Some wid"
      "case st_LocationID x of None \<Rightarrow> loc = None | Some t \<Rightarrow> \<exists>u. pg_uuid E t = Some u \<and> loc = Some u"
    and new: "find_row st_ID i (stocks (db w)) = None"
    and c: "stock_check (stored_row E x i pid wid loc)"
  let ?r = "stored_row E x i pid wid loc"
  have f: "st_ID ?r = i" "st_Reserved ?r = 0" by (simp_all add: stored_row_def)
  have "stock_ok ?r" using c x by (simp add: stock_ok_def stored_row_def)
  moreover have "canonical P ?r"
    using i ids P by (auto simp: canonical_def stored_row_def uuid_law_def split: option.splits)
  ultimately have t: "tables_ok P ((db w)\<lparr>stocks := stocks (db w) @ [?r]\<rparr>)"
    using inv new by (intro append_stock_tables_ok) (auto simp: inv_with_def f)
  have "\<And>a. a \<in> set (allocations (db w)) \<Longrightarrow> al_stock a \<noteq> i"
    using inv new by (auto simp: inv_with_def tables_ok_def find_row_None_iff)
  then have "ledger [] ((db w)\<lparr>stocks := stocks (db w) @ [?r]\<rparr>)"
    using inv reserved_by_absent [of "allocations (db w)" i "reservations (db w)"]
    by (auto simp: inv_with_def ledger_def f)
  with t show "Q () (set_stocks (stocks (db w) @ [?r]) w)"
    by (intro Q) (simp add: inv_with_def)
qed

text \<open>The same as rules for \<open>keeps\<close>, on the predicate \<open>db_ok P xs\<close> of a service state.\<close>

abbreviation db_ok :: "(string \<Rightarrow> string option) \<Rightarrow> (string \<times> int) list \<Rightarrow> idb world \<Rightarrow> bool" where
  "db_ok P xs \<equiv> \<lambda>w. inv_with P xs (db w)"

lemma keeps_Emit_inv: "keeps (db_ok P xs) (Emit E k p)"
  by (rule leadsI) (rule wp_Emit_inv)

lemma keeps_capacity_inv: "keeps (db_ok P xs) (capacity E S x l n)"
  by (rule leadsI) (rule wp_capacity_inv)

lemma keeps_update_stock_inv:
  "row_update f \<Longrightarrow> quantity_update f \<Longrightarrow> location_update P f \<Longrightarrow> keeps (db_ok P xs) (update_stock E i f)"
  by (rule leadsI) (rule wp_update_stock_inv)

lemma keeps_insert_stock_inv:
  assumes "P = pg_uuid E" "uuid_law P" "is_i64 (st_Quantity x)" "valid_f64 (st_Weight x)" "valid_f64 (st_Volume x)"
  shows "keeps (db_ok P []) (insert_stock E x)"
  by (rule leadsI) (rule wp_insert_stock_inv [OF _ assms])

lemma keeps_world_inv:
  "keeps (db_ok P xs) (Count a b)" "keeps (db_ok P xs) (NewString E)" "keeps (db_ok P xs) (Now E)"
  "keeps (db_ok P xs) (Lock E u)" "keeps (db_ok P xs) (ID E u)" "keeps (db_ok P xs) (sql_uuid E u)"
  by (simp_all add: leads_def wp_simps)

text \<open>What reading a lot tells under the invariant.\<close>

definition lot_ok :: "Stock \<Rightarrow> bool" where
  "lot_ok x = (is_i64 (st_Quantity x) \<and> 0 \<le> st_Reserved x \<and> st_Reserved x \<le> st_Quantity x
     \<and> valid_f64 (st_Weight x) \<and> valid_f64 (st_Volume x))"

lemma leads_stock_inv:
  assumes "\<And>x. lot_ok x \<Longrightarrow> leads (db_ok P xs) (f x) K"
  shows "leads (db_ok P xs) (bnd (stock E i) f) K"
proof (rule leadsI)
  fix w :: "idb world" assume w: "inv_with P xs (db w)"
  have "lot_ok (Stock.truncate r)" if "find_row st_ID u (stocks (db w)) = Some r" for u r
    using w find_row_SomeD [OF that]
    by (auto simp: inv_with_def tables_ok_def stock_ok_def stock_check_def lot_ok_def)
  with assms w show "wp (bnd (stock E i) f) K anyerr w"
    by (auto simp: wp_bnd wp_stock leads_def)
qed

lemmas inv_rules = leads_stock_inv keeps_rules keeps_Emit_inv keeps_capacity_inv
  keeps_update_stock_inv keeps_world_inv

section \<open>HTTP operations\<close>

lemma product_reply_valid:
  assumes "reply_value (decode_struct False product_fields) zero_Product reply = Inr p"
  shows "valid_f64 (pr_Weight p) \<and> valid_f64 (pr_Volume p)"
proof (rule reply_value_inv [OF _ _ assms])
  show "valid_f64 (pr_Weight zero_Product) \<and> valid_f64 (pr_Volume zero_Product)"
    by (simp add: zero_Product_def)
next
  fix j r r'
  assume d: "decode_struct False product_fields j r = Some r'"
    and v: "valid_f64 (pr_Weight r) \<and> valid_f64 (pr_Volume r)"
  show "valid_f64 (pr_Weight r') \<and> valid_f64 (pr_Volume r')"
    by (rule decode_struct_inv [where P = "\<lambda>r. valid_f64 (pr_Weight r) \<and> valid_f64 (pr_Volume r)", OF _ d v],
       auto simp: product_fields_def str_field_def f64_field_def bool_field_def
        split: json.splits)
      (erule f64_literal_valid)+
qed

lemma leads_product_inv:
  assumes "\<And>p. valid_f64 (pr_Weight p) \<Longrightarrow> valid_f64 (pr_Volume p) \<Longrightarrow> leads (db_ok P xs) (f p) K"
  shows "leads (db_ok P xs) (bnd (Get E (decode_struct False product_fields) zero_Product url) f) K"
  using assms product_reply_valid by (fastforce simp: leads_def wp_bnd wp_Get)

lemma keeps_Get_inv: "keeps (db_ok P xs) (Get E d z url)"
  by (simp add: leads_def wp_Get)

lemma keeps_expiry_inv: "keeps (db_ok P xs) (receive_expiry E s)"
  unfolding receive_expiry_def by (rule keeps_rules keeps_world_inv)+

theorem Receive_inv:
  assumes "P = pg_uuid E" "uuid_law P"
  shows "keeps (db_ok P []) (Receive E S q)"
  unfolding Receive_def
  by (rule leads_product_inv inv_rules keeps_Get_inv keeps_expiry_inv keeps_insert_stock_inv
      | (use assms in \<open>simp add: is_i64_bounds; fail\<close>))+

lemma adjust_inv: "keeps (db_ok P xs) (adjust E S x q)"
  unfolding adjust_def
  by (rule inv_rules | (simp add: is_i64_bounds; fail))+

lemma change_target_inv:
  assumes "P = pg_uuid E" "uuid_law P" "lot_ok x" "is_i64 (ch_Quantity q)"
  shows "keeps (db_ok P []) (change_target E S action x q payload)"
  unfolding change_target_def
  by (rule inv_rules keeps_insert_stock_inv
      | (use assms in \<open>simp add: moved_lot_def lot_ok_def; fail\<close>))+

lemma CheckQuantity_None: "CheckQuantity n available = None \<longleftrightarrow> 0 < n \<and> n \<le> available"
  by (auto simp: CheckQuantity_def Fail_def)

lemma Available_id: "lot_ok x \<Longrightarrow> Available (st_Quantity x) (st_Reserved x) = st_Quantity x - st_Reserved x"
  unfolding Available_def by (rule i64_id) (auto simp: lot_ok_def is_i64_bounds)

lemma CheckQuantity_lot:
  assumes "CheckQuantity n (Available (st_Quantity x) (st_Reserved x)) = None" "lot_ok x"
  shows "0 < n" "n \<le> st_Quantity x - st_Reserved x" "is_i64 n"
  using assms by (auto simp: CheckQuantity_None Available_id lot_ok_def is_i64_bounds)

lemma take_off_inv:
  assumes "P = pg_uuid E" "uuid_law P" "lot_ok x"
  shows "keeps (db_ok P []) (take_off E S action x q)"
  unfolding take_off_def
  by (rule change_target_inv [OF assms] CheckQuantity_lot(3) [OF _ assms(3)] inv_rules
      | assumption | (simp; fail))+

theorem Change_inv:
  assumes "P = pg_uuid E" "uuid_law P"
  shows "keeps (db_ok P []) (Change E S action q)"
  unfolding Change_def by (rule inv_rules adjust_inv take_off_inv [OF assms] | assumption)+

section \<open>Reserving\<close>

lemma reserved_by_snoc:
  "reserved_by rs (als @ [a]) i = reserved_by rs als i +
     (if al_stock a = i \<and> confirmed rs (al_reservation a) then al_quantity a else 0)"
  by (simp add: reserved_by_def)

lemma confirmed_snoc:
  "confirmed (rs @ [r]) i \<longleftrightarrow> confirmed rs i \<or> (res_id r = i \<and> res_status r = ''CONFIRMED'')"
  by (auto simp: confirmed_def)

lemma reserved_by_new_reservation:
  "res_id r \<notin> al_reservation ` set als \<Longrightarrow>
     reserved_by (rs @ [r]) als i = reserved_by rs als i"
  by (auto simp: reserved_by_def confirmed_snoc intro!: arg_cong [where f = sum_list] map_cong)

text \<open>A reservation in progress: it exists and is confirmed.\<close>

definition booking :: "(string \<Rightarrow> string option) \<Rightarrow> string \<Rightarrow> idb world \<Rightarrow> bool" where
  "booking P i w = (inv_with P [] (db w) \<and> (\<exists>u. P i = Some u \<and> confirmed (reservations (db w)) u))"

lemma new_reservation_inv:
  assumes "inv_with P xs d" "res_id r \<notin> res_id ` set (reservations d)"
  shows "inv_with P xs (d\<lparr>reservations := reservations d @ [r]\<rparr>)"
proof -
  have "res_id r \<notin> al_reservation ` set (allocations d)"
    using assms by (auto simp: inv_with_def tables_ok_def image_iff) metis
  then show ?thesis using assms
    by (auto simp: inv_with_def tables_ok_def ledger_def reserved_by_new_reservation)
qed

lemma insert_reservation_inv:
  "leads (db_ok P []) (insert_reservation E i u ''CONFIRMED'' n) (\<lambda>_. booking P i)"
  if "P = pg_uuid E"
proof (rule leadsI)
  fix w :: "idb world" assume w: "inv_with P [] (db w)"
  show "wp (insert_reservation E i u ''CONFIRMED'' n) (\<lambda>_. booking P i) anyerr w"
    using w that by (auto simp: insert_reservation_def wp_simps find_row_None_iff booking_def
        new_reservation_inv new_reservation_def confirmed_snoc)
qed

lemma insert_reservation_if_absent_inv:
  "keeps (db_ok P xs) (insert_reservation_if_absent E i u s n)"
proof (rule leadsI)
  fix w :: "idb world" assume w: "inv_with P xs (db w)"
  show "wp (insert_reservation_if_absent E i u s n) (\<lambda>_. db_ok P xs) anyerr w"
    using w by (auto simp: insert_reservation_if_absent_def wp_simps find_row_None_iff
        new_reservation_inv new_reservation_def)
qed

lemma add_reserved_inv:
  assumes "inv_with P xs (db w)" "find_row st_ID u (stocks (db w)) = Some r"
    and "add_reserved n r = Some r'" "stock_check r'"
    and "\<And>i. taken_off ys i = taken_off xs i - (if i = u then n else 0)"
  shows "inv_with P ys (db (set_stocks (update_rows st_ID u (\<lambda>_. r'\<lparr>st_updated := t\<rparr>) (stocks (db w))) w))"
proof -
  have r: "stock_ok r" "st_ID r = u"
    using assms(1) find_row_SomeD [OF assms(2)] by (auto simp: inv_with_def tables_ok_def)
  have r': "st_ID r' = u" "st_Reserved r' = st_Reserved r + n" "is_i64 (st_Quantity r')"
    using assms(3) r by (auto simp: add_reserved_def stock_ok_def)
  have "stock_ok r'"
    by (rule stock_ok_updated [where f = "add_reserved n", OF r(1) _ assms(3,4) r'(3)]) simp
  moreover have "canonical P r'"
    using find_row_SomeD [OF assms(2)]
    by (intro canonical_updated [where f = "add_reserved n", OF row_canonical [OF assms(1)] _ _ assms(3)]) simp_all
  ultimately show ?thesis using assms r r'
    by (simp add: inv_with_def replace_stock_tables_ok ledger_update_rows [where xs = xs and ys = ys])
qed

lemma new_allocation_inv:
  assumes "inv_with P xs d" "confirmed (reservations d) rid" "0 < n"
    and "\<not> (\<exists>a \<in> set (allocations d). al_reservation a = rid \<and> al_stock a = u)"
    and "find_row res_id rid (reservations d) \<noteq> None" "find_row st_ID u (stocks d) \<noteq> None"
    and "\<And>i. taken_off xs i = (if i = u then - n else 0)"
  shows "inv_with P [] (d\<lparr>allocations := allocations d @
     [\<lparr>al_reservation = rid, al_stock = u, al_quantity = n\<rparr>]\<rparr>)"
  using assms by (auto simp: inv_with_def tables_ok_def ledger_def reserved_by_snoc alloc_key_def find_row_None_iff)

lemma reserve_lot_inv:
  assumes "P = pg_uuid E"
  shows "keeps (booking P i) (andthen (update_stock E lot (add_reserved n)) (insert_allocation E i lot n))"
  unfolding booking_def
proof (rule leadsI, unfold wp_andthen, rule wp_update_stockI)
  fix w :: "idb world" and u assume w: "inv_with P [] (db w) \<and> (\<exists>u. P i = Some u \<and> confirmed (reservations (db w)) u)"
    and "pg_uuid E lot = Some u" "find_row st_ID u (stocks (db w)) = None"
  then show "wp (insert_allocation E i lot n) (\<lambda>_ w. inv_with P [] (db w) \<and>
      (\<exists>u. P i = Some u \<and> confirmed (reservations (db w)) u)) anyerr w"
    by (simp add: insert_allocation_def wp_simps)
next
  fix w :: "idb world" and u r r'
  assume w: "inv_with P [] (db w) \<and> (\<exists>u. P i = Some u \<and> confirmed (reservations (db w)) u)"
    and u: "pg_uuid E lot = Some u" "find_row st_ID u (stocks (db w)) = Some r"
    and r': "add_reserved n r = Some r'" "stock_check r'"
  obtain rid where rid: "pg_uuid E i = Some rid" "confirmed (reservations (db w)) rid"
    using w assms by blast
  let ?w = "set_stocks (update_rows st_ID u (\<lambda>_. r'\<lparr>st_updated := pg_now E\<rparr>) (stocks (db w))) w"
  have i: "inv_with P [(u, - n)] (db ?w)"
    using w u r' by (intro add_reserved_inv [where xs = "[]"]) (auto simp: taken_off_def)
  have c: "confirmed (reservations (db ?w)) rid" using rid by simp
  show "wp (insert_allocation E i lot n) (\<lambda>_ w. inv_with P [] (db w) \<and>
      (\<exists>u. P i = Some u \<and> confirmed (reservations (db w)) u)) anyerr ?w"
    unfolding insert_allocation_def wp_simps u(1) rid(1)
    using new_allocation_inv [OF i c] c rid(1) assms by (auto simp: taken_off_def)
qed

lemma keeps_booking_world:
  "keeps (booking P i) (ID E u)" "keeps (booking P i) (select_lots E u v)"
  "keeps (booking P i) (Count a b)"
  by (simp_all add: leads_def wp_simps booking_def select_lots_def)

lemma keeps_select_reservation: "keeps (db_ok P xs) (select_reservation E i)"
  by (simp add: leads_def wp_simps select_reservation_def)

lemma take_lots_inv:
  "P = pg_uuid E \<Longrightarrow> keeps (booking P i) (take_lots E i lots n)"
proof (induction lots arbitrary: n)
  case (Cons a lots)
  then show ?case
    by (cases a) (simp only: take_lots.simps andthen_assoc, (rule Cons.IH keeps_rules reserve_lot_inv | simp)+)
qed (simp add: keeps_ret)

lemma reserve_lines_inv:
  "P = pg_uuid E \<Longrightarrow> keeps (booking P i) (reserve_lines E i u seen lines)"
proof (induction lines arbitrary: seen)
  case (Cons a lines)
  show ?case unfolding reserve_lines.simps
    by (rule Cons keeps_rules keeps_booking_world take_lots_inv)+
qed (simp add: keeps_ret)

theorem reserve_inv:
  assumes "P = pg_uuid E"
  shows "keeps (db_ok P []) (reserve E payload)"
proof -
  have tail: "leads (booking P i) (andthen (reserve_lines E i u [] lines)
      (andthen (Count ''reserve'' ''success'') (Emit E k p))) (\<lambda>_. db_ok P [])" for i u lines k p
  proof (rule keeps_andthen [OF reserve_lines_inv [OF assms]], rule keeps_andthen [OF keeps_booking_world(3)])
    show "leads (booking P i) (Emit E k p) (\<lambda>_. db_ok P [])"
      by (rule leadsI, rule wp_EmitI) (auto simp: booking_def emitted_inv)
  qed
  show ?thesis
    unfolding reserve_def
    by (rule tail leads_andthen [OF insert_reservation_inv [OF assms]] keeps_rules
        keeps_world_inv keeps_select_reservation)+
qed

section \<open>Releasing\<close>

lemma taken_off_allocations:
  assumes "distinct (map al_stock als)"
  shows "taken_off (map (\<lambda>a. (al_stock a, al_quantity a)) als) i =
    (case find_row al_stock i als of None \<Rightarrow> 0 | Some a \<Rightarrow> al_quantity a)"
proof -
  have absent: "taken_off (map (\<lambda>a. (al_stock a, al_quantity a)) als) i = 0"
    if "i \<notin> al_stock ` set als" for als
    using that by (induction als) (auto simp: taken_off_def)
  show ?thesis using assms
  proof (induction als)
    case (Cons a als)
    then show ?case using absent [of als] by (auto simp: taken_off_def)
  qed simp
qed

lemma distinct_allocations_of:
  assumes "distinct (map alloc_key als)"
  shows "distinct (map al_stock (allocations_of rid als))"
  using assms by (auto simp: allocations_of_def distinct_map inj_on_def alloc_key_def)

text \<open>What a reservation holds, lot by lot.\<close>

definition held_by :: "string \<Rightarrow> allocation_row list \<Rightarrow> (string \<times> int) list" where
  "held_by rid als = map (\<lambda>a. (al_stock a, al_quantity a)) (allocations_of rid als)"

text \<open>Closing a confirmed reservation releases exactly what its allocations held.\<close>

definition closing :: "(reservation_row \<Rightarrow> reservation_row) \<Rightarrow> bool" where
  "closing f = (\<forall>r. res_id (f r) = res_id r \<and> res_status (f r) \<noteq> ''CONFIRMED'')"

lemma confirmed_close:
  assumes "closing f"
  shows "confirmed (update_rows res_id rid f rs) j \<longleftrightarrow> j \<noteq> rid \<and> confirmed rs j"
  using assms unfolding confirmed_def closing_def set_update_rows by (auto simp: image_iff)

lemma reserved_by_close:
  assumes "closing f" "confirmed rs rid"
  shows "reserved_by rs als i = reserved_by (update_rows res_id rid f rs) als i
     + taken_off (held_by rid als) i"
  using assms(2) unfolding reserved_by_def taken_off_def held_by_def allocations_of_def confirmed_close [OF assms(1)]
  by (induction als) auto

lemma close_inv:
  assumes "inv_with P xs d" "closing f" "confirmed (reservations d) rid"
    and "\<And>i. taken_off xs i =
      taken_off (held_by rid (allocations d)) i"
  shows "inv_with P [] (d\<lparr>reservations := update_rows res_id rid f (reservations d)\<rparr>)"
proof -
  have ids: "map res_id (update_rows res_id rid f (reservations d)) = map res_id (reservations d)"
    using assms(2) by (intro update_rows_keys) (simp add: closing_def)
  then have "res_id ` set (update_rows res_id rid f (reservations d)) = res_id ` set (reservations d)"
    by (metis set_map)
  with ids have "tables_ok P (d\<lparr>reservations := update_rows res_id rid f (reservations d)\<rparr>)"
    using assms(1) by (simp add: inv_with_def tables_ok_def)
  moreover have "ledger [] (d\<lparr>reservations := update_rows res_id rid f (reservations d)\<rparr>)"
    using assms(1,4) reserved_by_close [OF assms(2,3), of "allocations d"]
    by (auto simp: inv_with_def ledger_def)
  ultimately show ?thesis by (simp add: inv_with_def)
qed

text \<open>A reservation that was read, and one whose lots have been settled but that is still open.\<close>

definition booked :: "(string \<Rightarrow> string option) \<Rightarrow> string \<Rightarrow> reservation_row \<Rightarrow> idb world \<Rightarrow> bool" where
  "booked P i r w = (inv_with P [] (db w) \<and>
     (\<exists>u. P i = Some u \<and> find_row res_id u (reservations (db w)) = Some r))"

definition settling :: "(string \<Rightarrow> string option) \<Rightarrow> string \<Rightarrow> idb world \<Rightarrow> bool" where
  "settling P i w = (\<exists>xs u. P i = Some u \<and> inv_with P xs (db w)
     \<and> confirmed (reservations (db w)) u
     \<and> (\<forall>j. taken_off xs j = taken_off (held_by u (allocations (db w))) j))"

lemma leads_booked: "leads (db_ok P []) m K \<Longrightarrow> leads (booked P i r) m K"
  by (auto simp: leads_def booked_def)

lemma leads_select_reservation:
  assumes "P = pg_uuid E" "leads (db_ok P []) (f None) K" "\<And>r. leads (booked P i r) (f (Some r)) K"
  shows "leads (db_ok P []) (bnd (select_reservation E i) f) K"
proof (rule leadsI)
  fix w :: "idb world" assume w: "inv_with P [] (db w)"
  have "wp (f (find_row res_id u (reservations (db w)))) K anyerr w" if "pg_uuid E i = Some u" for u
    using w that assms by (cases "find_row res_id u (reservations (db w))")
      (auto simp: leads_def booked_def)
  then show "wp (bnd (select_reservation E i) f) K anyerr w"
    by (simp add: select_reservation_def wp_simps)
qed

lemma booked_confirmed:
  assumes "booked P i r w" "res_status r = ''CONFIRMED''"
  obtains u where "P i = Some u" "inv_with P [] (db w)" "confirmed (reservations (db w)) u"
  using assms unfolding booked_def confirmed_def by (blast dest: find_row_SomeD)

lemma settle_inv:
  assumes "P = pg_uuid E" "closing f"
  shows "leads (settling P i) (update_reservation E i f) (\<lambda>_. db_ok P [])"
proof (rule leadsI)
  fix w assume "settling P i w"
  then obtain xs u where "pg_uuid E i = Some u" "inv_with P xs (db w)" "confirmed (reservations (db w)) u"
    "\<And>j. taken_off xs j = taken_off (held_by u (allocations (db w))) j"
    unfolding settling_def assms(1) by blast
  then show "wp (update_reservation E i f) (\<lambda>_. db_ok P []) anyerr w"
    using assms(2) by (simp add: update_reservation_def wp_simps close_inv)
qed

lemma unreserve_stocks_inv:
  assumes inv: "inv_with P [] d" and als: "als = allocations_of rid (allocations d)"
    and c: "\<forall>r \<in> set (stocks d). find_row al_stock (st_ID r) als = None \<or> stock_check (unreserve_row E als r)"
  shows "inv_with P (held_by rid (allocations d)) (d\<lparr>stocks := map (unreserve_row E als) (stocks d)\<rparr>)"
proof -
  have id: "st_ID (unreserve_row E als r) = st_ID r" for r
    by (simp add: unreserve_row_def split: option.split)
  have keys: "map st_ID (map (unreserve_row E als) (stocks d)) = map st_ID (stocks d)"
    by (simp add: id)
  have ok: "stock_ok (unreserve_row E als r)" if "r \<in> set (stocks d)" for r
    using that inv c by (auto simp: inv_with_def tables_ok_def stock_ok_def unreserve_row_def split: option.splits)
  have canon: "canonical P (unreserve_row E als r)" if "r \<in> set (stocks d)" for r
    using that inv by (auto simp: inv_with_def tables_ok_def canonical_def unreserve_row_def split: option.split)
  have "distinct (map al_stock als)"
    using inv by (auto simp: als inv_with_def tables_ok_def intro: distinct_allocations_of)
  then have "taken_off (held_by rid (allocations d)) j =
      (case find_row al_stock j als of None \<Rightarrow> 0 | Some a \<Rightarrow> al_quantity a)" for j
    using taken_off_allocations by (simp add: held_by_def als)
  then have "st_Reserved (unreserve_row E als r) + taken_off (held_by rid (allocations d)) (st_ID r) = st_Reserved r" for r
    by (simp add: unreserve_row_def split: option.split)
  then have "ledger (held_by rid (allocations d)) (d\<lparr>stocks := map (unreserve_row E als) (stocks d)\<rparr>)"
    using inv by (auto simp: inv_with_def ledger_def id)
  moreover have "tables_ok P (d\<lparr>stocks := map (unreserve_row E als) (stocks d)\<rparr>)"
    using inv keys ok canon id by (auto simp: inv_with_def tables_ok_def comp_def image_image)
  ultimately show ?thesis by (simp add: inv_with_def)
qed

lemma unreserve_all_inv:
  assumes "P = pg_uuid E" "res_status r = ''CONFIRMED''"
  shows "leads (booked P i r) (unreserve_all E i) (\<lambda>_. settling P i)"
proof (rule leadsI)
  fix w assume w: "booked P i r w"
  obtain u where u: "P i = Some u" "inv_with P [] (db w)" "confirmed (reservations (db w)) u"
    by (rule booked_confirmed [OF w assms(2)])
  have "settling P i (set_stocks (map (unreserve_row E (allocations_of u (allocations (db w)))) (stocks (db w))) w)"
    if "\<forall>r \<in> set (stocks (db w)). find_row al_stock (st_ID r) (allocations_of u (allocations (db w))) = None \<or>
        stock_check (unreserve_row E (allocations_of u (allocations (db w))) r)"
    using u unreserve_stocks_inv [OF u(2) refl that] unfolding settling_def
    by (intro exI [of _ "held_by u (allocations (db w))"] exI [of _ u]) simp
  then show "wp (unreserve_all E i) (\<lambda>_. settling P i) anyerr w"
    using u assms(1) by (auto simp: unreserve_all_def wp_simps Let_def)
qed

lemma keeps_select_release_items: "keeps (db_ok P xs) (select_release_items E i)"
  by (simp add: leads_def wp_simps select_release_items_def)

theorem release_inv:
  assumes "P = pg_uuid E"
  shows "keeps (db_ok P []) (release E i expired)"
  unfolding release_def
  by (rule leads_select_reservation [OF assms] leads_andthen [OF unreserve_all_inv [OF assms]]
      leads_andthen [OF settle_inv [OF assms]] inv_rules keeps_select_release_items
      leads_booked [OF leads_throw] leads_booked [OF keeps_ret]
      | (simp add: closing_def; fail))+

section \<open>Shipping\<close>

lemma deduct_inv:
  assumes "P = pg_uuid E" "pg_uuid E i = Some u"
  shows "leads (db_ok P xs) (update_stock E i (deduct n)) (\<lambda>_. db_ok P (xs @ [(u, n)]))"
proof (rule leadsI, rule wp_update_stockI)
  fix w :: "idb world" and v
  assume "inv_with P xs (db w)" "pg_uuid E i = Some v" "find_row st_ID v (stocks (db w)) = None"
  then show "inv_with P (xs @ [(u, n)]) (db w)"
    using assms by (auto simp: inv_with_def ledger_def taken_off_snoc find_row_None_iff)
next
  fix w :: "idb world" and v r r'
  assume w: "inv_with P xs (db w)" and v: "pg_uuid E i = Some v"
    and r: "find_row st_ID v (stocks (db w)) = Some r"
    and r': "deduct n r = Some r'" "stock_check r'"
  have ok: "stock_ok r" "st_ID r = u"
    using w v assms find_row_SomeD [OF r] by (auto simp: inv_with_def tables_ok_def)
  have f: "st_ID r' = u" "st_Reserved r' + n = st_Reserved r" "is_i64 (st_Quantity r')"
    using r'(1) ok(2) by (auto simp: deduct_def split: option.splits)
  have "stock_ok r'"
    by (rule stock_ok_updated [where f = "deduct n", OF ok(1) _ r' f(3)]) simp
  moreover have "canonical P r'"
    using find_row_SomeD [OF r]
    by (intro canonical_updated [where f = "deduct n", OF row_canonical [OF w] _ _ r'(1)]) simp_all
  ultimately show "inv_with P (xs @ [(u, n)])
      (db (set_stocks (update_rows st_ID v (\<lambda>_. r'\<lparr>st_updated := pg_now E\<rparr>) (stocks (db w))) w))"
    unfolding inv_with_def using w v r assms ok f
    by (simp add: inv_with_def replace_stock_tables_ok)
      (rule ledger_update_rows [where xs = xs], simp_all add: taken_off_snoc)
qed

lemma ship_one_inv:
  assumes "P = pg_uuid E" "pg_uuid E i = Some u"
  shows "leads (db_ok P xs) (ship_one E S i n) (\<lambda>_. db_ok P (xs @ [(u, n)]))"
  unfolding ship_one_def
  by (rule leads_stock_inv leads_andthen [OF deduct_inv [OF assms]] inv_rules)+

lemma ship_all_inv:
  assumes "P = pg_uuid E" "\<forall>(i, n) \<in> set als. pg_uuid E i = Some i"
  shows "leads (db_ok P xs) (ship_all E S als) (\<lambda>_. db_ok P (xs @ als))"
  using assms(2)
proof (induction als arbitrary: xs)
  case (Cons a als)
  obtain i n where a: "a = (i, n)" by force
  have "leads (db_ok P (xs @ [(i, n)])) (ship_all E S als) (\<lambda>_. db_ok P ((xs @ [(i, n)]) @ als))"
    using Cons by (intro Cons.IH) auto
  moreover have "pg_uuid E i = Some i" using Cons.prems a by simp
  ultimately show ?case unfolding a ship_all.simps
    by (intro leads_bnd [OF ship_one_inv [OF assms(1)]] leads_bnd [where J = "\<lambda>_. db_ok P (xs @ (i, n) # als)"])
      (simp_all add: keeps_ret)
qed (simp add: keeps_ret)

lemma select_allocations_inv:
  assumes "P = pg_uuid E"
    and "\<And>u als A R. \<lbrakk> pg_uuid E i = Some u; \<forall>(j, n) \<in> set als. pg_uuid E j = Some j;
       \<forall>j. taken_off als j = taken_off (held_by u A) j; res_status r = ''CONFIRMED'' \<longrightarrow> confirmed R u \<rbrakk> \<Longrightarrow>
       leads (\<lambda>w. inv_with P [] (db w) \<and> reservations (db w) = R \<and> allocations (db w) = A) (f als) K"
  shows "leads (booked P i r) (bnd (select_allocations E i) f) K"
proof (rule leadsI)
  fix w assume w: "booked P i r w"
  have "wp (f (map (\<lambda>a. (al_stock a, al_quantity a)) (sort_key al_stock (allocations_of u (allocations (db w))))))
      K anyerr w" if u: "pg_uuid E i = Some u" for u
  proof (rule leadsD [OF assms(2) [OF u]])
    let ?als = "map (\<lambda>a. (al_stock a, al_quantity a)) (sort_key al_stock (allocations_of u (allocations (db w))))"
    have inv: "inv_with P [] (db w)" using w by (simp add: booked_def)
    have "pg_uuid E (al_stock a) = Some (al_stock a)" if "a \<in> set (allocations (db w))" for a
      using that inv assms(1) by (auto simp: inv_with_def tables_ok_def canonical_def)
    then show "\<forall>(j, n) \<in> set ?als. pg_uuid E j = Some j"
      by (auto simp: allocations_of_def)
    have "mset ?als = mset (held_by u (allocations (db w)))"
      by (simp add: held_by_def)
    then show "\<forall>j. taken_off ?als j = taken_off (held_by u (allocations (db w))) j"
      by (metis taken_off_mset)
    show "res_status r = ''CONFIRMED'' \<longrightarrow> confirmed (reservations (db w)) u"
      using w u assms(1) by (auto simp: booked_def confirmed_def dest: find_row_SomeD)
    show "inv_with P [] (db w) \<and> reservations (db w) = reservations (db w) \<and> allocations (db w) = allocations (db w)"
      using inv by simp
  qed
  then show "wp (bnd (select_allocations E i) f) K anyerr w"
    by (simp add: select_allocations_def wp_simps)
qed

lemma ship_all_settling:
  assumes "P = pg_uuid E" "pg_uuid E i = Some u" "\<forall>(j, n) \<in> set als. pg_uuid E j = Some j"
    and "\<forall>j. taken_off als j = taken_off (held_by u A) j" "confirmed R u"
  shows "leads (\<lambda>w. inv_with P [] (db w) \<and> reservations (db w) = R \<and> allocations (db w) = A)
     (ship_all E S als) (\<lambda>_. settling P i)"
proof (rule leads_weaken)
  show "leads (\<lambda>w. inv_with P [] (db w) \<and> reservations (db w) = R \<and> allocations (db w) = A)
     (ship_all E S als)
     (\<lambda>_ w. inv_with P ([] @ als) (db w) \<and> reservations (db w) = R \<and> allocations (db w) = A)"
    by (rule leads_conj [OF ship_all_inv [OF assms(1,3)]
        bookings.keeps_ship_all [where C = "\<lambda>r a. r = R \<and> a = A"]])
qed (use assms in \<open>auto simp: settling_def\<close>)

lemma keeps_settling_world:
  "keeps (settling P i) (sql_uuid E u)" "keeps (booked P i r) (Now E)"
  by (simp_all add: leads_def wp_simps settling_def booked_def)

lemma leads_active:
  assumes "res_status r = ''CONFIRMED'' \<Longrightarrow> keeps I m" "res_status r = ''CONFIRMED'' \<Longrightarrow> leads I k K"
  shows "leads I (andthen (if res_status r \<noteq> ''CONFIRMED'' then throw e else m) k) K"
proof (cases "res_status r = ''CONFIRMED''")
  case True
  with leads_andthen [OF assms(1,2)] show ?thesis by simp
qed (simp add: leads_def wp_simps)

theorem ship_inv:
  assumes "P = pg_uuid E"
  shows "keeps (db_ok P []) (ship E S payload)"
  unfolding ship_def
  by (rule leads_select_reservation [OF assms] select_allocations_inv [OF assms] leads_active
      leads_bnd [OF ship_all_settling [OF assms]] leads_andthen [OF settle_inv [OF assms]]
      leads_booked [OF keeps_ret] keeps_settling_world inv_rules
      | (simp add: closing_def; fail) | assumption)+

section \<open>The event handler and the workers\<close>

lemma leads_sql_uuid:
  "(\<And>u. pg_uuid E s = Some u \<Longrightarrow> leads I (f u) K) \<Longrightarrow> leads I (bnd (sql_uuid E s) f) K"
  by (simp add: leads_def wp_simps)

theorem place_inv:
  assumes "P = pg_uuid E" "uuid_law P"
  shows "keeps (db_ok P []) (place E S payload)"
  unfolding place_def
  by (rule leads_sql_uuid inv_rules | (simp; fail) | (use assms in \<open>auto simp: uuid_law_def; fail\<close>))+

lemma dispatch_inv:
  assumes "P = pg_uuid E" "uuid_law P"
  shows "keeps (db_ok P []) (dispatch E S e)"
  unfolding dispatch_def
  by (rule keeps_rules reserve_inv [OF assms(1)] release_inv [OF assms(1)] ship_inv [OF assms(1)]
      place_inv [OF assms])+

lemma reject_inv: "keeps (db_ok P []) (reject E e f)"
  unfolding reject_def
  by (cases f) (simp_all only: err.case, (rule inv_rules insert_reservation_if_absent_inv)+)

theorem Handle_inv:
  assumes "P = pg_uuid E" "uuid_law P"
  shows "keeps (db_ok P []) (Handle S E e)"
  unfolding Handle_def
  by (rule leads_Savepoint [where J = "inv_with P []"] keeps_rules keeps_world_inv
      dispatch_inv [OF assms] reject_inv)+

text \<open>The runtime keeps the invariant around these operations.\<close>

interpretation tables: business_invariant "inv_with P []" for P
  by unfold_locales simp_all

lemma expire_one_inv:
  assumes "P = pg_uuid E" "inv_with P [] (db w)"
  shows "inv_with P [] (db (snd (expire_one E x w)))"
  unfolding expire_one_def
  by (rule Transaction_keeps [where J = "inv_with P []", OF _ assms(2)],
      rule keeps_andthen [OF keeps_world_inv(4) release_inv [OF assms(1)]])

lemma endpoint_inv:
  assumes "P = pg_uuid E" "uuid_law P" "inv_with P [] (db w)"
  shows "inv_with P [] (db (snd (receive_endpoint S key body E w)))"
    "inv_with P [] (db (snd (change_endpoint S action key body E w)))"
  using assms(3) tables.Command_keeps [OF Receive_inv [OF assms(1,2)] assms(3)]
    tables.Command_keeps [OF Change_inv [OF assms(1,2)] assms(3)]
  by (auto simp: receive_endpoint_def change_endpoint_def of_sum_bnd split: sum.split)

end
