(* ===== verification/Inventory_System.thy ===== *)
theory Inventory_System
  imports Inventory_Preservation
begin

text \<open>
  The inventory service as a transition system: every HTTP command and query, every delivery
  attempt of a message, every expiry transaction and every publisher tick is a step on the
  service state, and any interleaving of them is a run. Reservations move along their life
  cycle, inbox markers and saved replies are append-only, and the invariant holds throughout.
\<close>

section \<open>Steps and reachable states\<close>

inductive inventory_step ::
  "(string \<Rightarrow> string option) \<Rightarrow> service \<Rightarrow> idb world \<Rightarrow> idb world \<Rightarrow> bool" for P S where
  receive: "pg_uuid E = P \<Longrightarrow>
    inventory_step P S w (snd (Wrap E header (receive_endpoint S key body) w))"
| change: "pg_uuid E = P \<Longrightarrow> action \<in> set change_actions \<Longrightarrow>
    inventory_step P S w (snd (Wrap E header (change_endpoint S action key body) w))"
| lot: "pg_uuid E = P \<Longrightarrow> inventory_step P S w (snd (Wrap E header (lot_endpoint i) w))"
| listing: "pg_uuid E = P \<Longrightarrow>
    inventory_step P S w (snd (Wrap E header (list_endpoint pp pw qp qw) w))"
| deliver: "pg_uuid E = P \<Longrightarrow> inventory_step P S w (snd (attempt_event E (Handle S) m w))"
| dead_letter: "inventory_step P S w (snd (WriteMessages E (dead_letter E m e) w))"
| expire: "pg_uuid E = P \<Longrightarrow> inventory_step P S w (snd (expire_one E x w))"
| publish: "inventory_step P S w (Outbox_tick E w)"

inductive_cases inventory_stepE: "inventory_step P S w w'"

definition empty_idb :: idb where
  "empty_idb = \<lparr>outbox = [], processed = [], commands = [], stocks = [], capacities = [],
     reservations = [], allocations = []\<rparr>"

inductive inventory_reachable ::
  "(string \<Rightarrow> string option) \<Rightarrow> service \<Rightarrow> idb world \<Rightarrow> bool" for P S where
  start: "db w = empty_idb \<Longrightarrow> inventory_reachable P S w"
| step: "inventory_reachable P S w \<Longrightarrow> inventory_step P S w w' \<Longrightarrow> inventory_reachable P S w'"

text \<open>The queries write nothing.\<close>

lemma query_db [simp]:
  "db (snd (lot_endpoint i E w)) = db w" "db (snd (list_endpoint pp pw qp qw E w)) = db w"
proof -
  have "wp (lot_endpoint i E) (\<lambda>_ t. db t = db w) (\<lambda>_ t. db t = db w) w"
    by (simp add: lot_endpoint_def wp_simps)
  then show "db (snd (lot_endpoint i E w)) = db w"
    by (auto simp: wp_def split: prod.splits sum.splits)
  have "wp (list_endpoint pp pw qp qw E) (\<lambda>_ t. db t = db w) (\<lambda>_ t. db t = db w) w"
    by (simp add: list_endpoint_def wp_simps Let_def)
  then show "db (snd (list_endpoint pp pw qp qw E w)) = db w"
    by (auto simp: wp_def split: prod.splits sum.splits)
qed

text \<open>
  A property of the database that every transaction of the code keeps is kept by every step;
  one that reads the business tables only has to be checked on the code alone.
\<close>

locale step_invariant =
  fixes J :: "idb \<Rightarrow> bool" and P :: "string \<Rightarrow> string option" and S :: service
  assumes command_receive: "pg_uuid E = P \<Longrightarrow> J (db w) \<Longrightarrow> J (db (snd (Command E key req (Receive E S q) w)))"
    and command_change: "pg_uuid E = P \<Longrightarrow> J (db w) \<Longrightarrow> J (db (snd (Command E key req (Change E S a c) w)))"
    and delivery: "pg_uuid E = P \<Longrightarrow> J (db w) \<Longrightarrow> J (db (snd (Process E ev (Handle S) w)))"
    and expiry: "pg_uuid E = P \<Longrightarrow> J (db w) \<Longrightarrow> J (db (snd (expire_one E x w)))"
    and publishing: "J (db w) \<Longrightarrow> J (db (Outbox_tick E w))"
begin

lemma endpoint_receive: "pg_uuid E = P \<Longrightarrow> J (db w) \<Longrightarrow> J (db (snd (receive_endpoint S key body E w)))"
  by (auto simp: receive_endpoint_def of_sum_bnd intro: command_receive split: sum.split)

lemma endpoint_change: "pg_uuid E = P \<Longrightarrow> J (db w) \<Longrightarrow> J (db (snd (change_endpoint S a key body E w)))"
  by (auto simp: change_endpoint_def of_sum_bnd intro: command_change split: sum.split)

lemma attempt: "pg_uuid E = P \<Longrightarrow> J (db w) \<Longrightarrow> J (db (snd (attempt_event E (Handle S) m w)))"
  by (auto simp: attempt_event_def attempt_read_def throw_def intro: delivery split: sum.split)

lemma step_keeps:
  assumes "inventory_step P S w w'" "J (db w)"
  shows "J (db w')"
  using assms
proof (cases rule: inventory_step.cases)
  case (receive E header key body)
  then show ?thesis using assms(2) by (auto intro!: Wrap_keeps_any [where J = J] endpoint_receive)
next
  case (change E action header key body)
  then show ?thesis using assms(2) by (auto intro!: Wrap_keeps_any [where J = J] endpoint_change)
next
  case (lot E header i)
  then show ?thesis using assms(2) by (auto intro!: Wrap_keeps_any [where J = J])
next
  case (listing E header pp pw qp qw)
  then show ?thesis using assms(2) by (auto intro!: Wrap_keeps_any [where J = J])
next
  case (deliver E m)
  then show ?thesis using assms(2) by (auto intro: attempt)
next
  case (expire E x)
  then show ?thesis using assms(2) by (auto intro: expiry)
next
  case (publish E)
  then show ?thesis using assms(2) by (auto intro: publishing)
qed (use assms(2) in simp)

lemma reachable_keeps:
  assumes "inventory_reachable P S w" "J empty_idb"
  shows "J (db w)"
  using assms
proof (induction rule: inventory_reachable.induct)
  case (step w w')
  then show ?case by (auto intro: step_keeps)
qed simp

lemma run_keeps:
  assumes "(inventory_step P S)\<^sup>*\<^sup>* w w'" "J (db w)"
  shows "J (db w')"
  using assms by (induction rule: rtranclp_induct) (auto intro: step_keeps)

end

locale code_invariant = business_invariant J for J :: "idb \<Rightarrow> bool" +
  fixes P :: "string \<Rightarrow> string option" and S :: service
  assumes code_receive: "pg_uuid E = P \<Longrightarrow> keeps (\<lambda>w. J (db w)) (Receive E S q)"
    and code_change: "pg_uuid E = P \<Longrightarrow> keeps (\<lambda>w. J (db w)) (Change E S a c)"
    and code_handle: "pg_uuid E = P \<Longrightarrow> keeps (\<lambda>w. J (db w)) (Handle S E e)"
    and code_release: "pg_uuid E = P \<Longrightarrow> keeps (\<lambda>w. J (db w)) (release E i True)"

sublocale code_invariant \<subseteq> step_invariant
proof unfold_locales
  fix E :: env and w :: "idb world" and x
  assume "pg_uuid E = P" "J (db w)"
  then show "J (db (snd (expire_one E x w)))"
    unfolding expire_one_def
    by (intro Transaction_keeps [where J = J] keeps_andthen keeps_world(4) [where J = J] code_release)
qed (auto intro: Command_keeps Process_keeps Outbox_tick_keeps code_receive code_change code_handle)

section \<open>The invariant\<close>

interpretation invariant: code_invariant "\<lambda>d. uuid_law P \<longrightarrow> inv_with P [] d" P S for P S
proof unfold_locales
  fix E :: env and i e q a c
  assume P: "pg_uuid E = P"
  have lift: "keeps (\<lambda>w. uuid_law P \<longrightarrow> inv_with P [] (db w)) m"
    if "uuid_law P \<Longrightarrow> keeps (db_ok P []) m" for m :: "(idb, 'b) wprog"
    using that by (cases "uuid_law P") (simp_all add: leads_def wp_def split: prod.split sum.split)
  show "keeps (\<lambda>w. uuid_law P \<longrightarrow> inv_with P [] (db w)) (Receive E S q)"
    by (rule lift, rule Receive_inv) (simp_all add: P)
  show "keeps (\<lambda>w. uuid_law P \<longrightarrow> inv_with P [] (db w)) (Change E S a c)"
    by (rule lift, rule Change_inv) (simp_all add: P)
  show "keeps (\<lambda>w. uuid_law P \<longrightarrow> inv_with P [] (db w)) (Handle S E e)"
    by (rule lift, rule Handle_inv) (simp_all add: P)
  show "keeps (\<lambda>w. uuid_law P \<longrightarrow> inv_with P [] (db w)) (release E i True)"
    by (rule lift, rule release_inv) (simp add: P)
qed simp_all

lemma empty_inv: "inv_with P [] empty_idb"
  by (simp add: inv_with_def tables_ok_def ledger_def empty_idb_def)

lemma reachable_inventory_ok:
  assumes "uuid_law P" "inventory_reachable P S w"
  shows "inv_with P [] (db w)"
  using invariant.reachable_keeps [OF assms(2)] empty_inv assms(1) by simp

section \<open>Reservations move along their life cycle\<close>

text \<open>
  A row is never deleted, its warehouse and expiry never change, and its status only leaves
  \<open>CONFIRMED\<close>, for one of three final states; the shipment is recorded with the completion.
\<close>

definition final_states :: "string list" where
  "final_states = [''CANCELLED'', ''EXPIRED'', ''COMPLETED'']"

definition succeeds :: "reservation_row \<Rightarrow> reservation_row \<Rightarrow> bool" where
  "succeeds r r' = (res_id r' = res_id r \<and> res_warehouse r' = res_warehouse r
     \<and> res_expires r' = res_expires r
     \<and> (r' = r \<or> res_status r = ''CONFIRMED'' \<and> res_status r' \<in> set final_states
          \<and> (res_status r' = ''COMPLETED'' \<or> res_shipment r' = res_shipment r)))"

definition moved_on :: "reservation_row list \<Rightarrow> idb \<Rightarrow> bool" where
  "moved_on rs d = (distinct (map res_id (reservations d)) \<and> grown succeeds rs (reservations d))"

lemma succeeds_refl [simp]: "succeeds r r"
  by (simp add: succeeds_def)

lemma succeeds_trans: "succeeds a b \<Longrightarrow> succeeds b c \<Longrightarrow> succeeds a c"
  by (auto simp: succeeds_def final_states_def)

interpretation life: row_order succeeds res_id
  by unfold_locales (auto intro: succeeds_trans)

lemma update_progress:
  assumes "moved_on rs d" "find_row res_id u (reservations d) = Some r" "succeeds r (f r)"
    and "\<And>r. res_id (f r) = res_id r"
  shows "moved_on rs (d\<lparr>reservations := update_rows res_id u f (reservations d)\<rparr>)"
proof -
  have d: "distinct (map res_id (reservations d))" using assms(1) by (simp add: moved_on_def)
  then have "x = r" if "x \<in> set (reservations d)" "res_id x = u" for x
    using that assms(2) find_row_distinct [OF d] by auto
  then have "grown succeeds rs (update_rows res_id u f (reservations d))"
    using assms(1,3) by (intro life.grown_update) (auto simp: moved_on_def)
  with d show ?thesis using assms(4) by (simp add: moved_on_def update_rows_keys)
qed

lemma append_moved_on:
  assumes "moved_on rs d" "res_id r \<notin> res_id ` set (reservations d)"
  shows "moved_on rs (d\<lparr>reservations := reservations d @ [r]\<rparr>)"
  using assms by (auto simp: moved_on_def life.grown_append)

text \<open>The reservation a handler has read, while it works on lots and capacities.\<close>

definition at_row :: "reservation_row list \<Rightarrow> string \<Rightarrow> reservation_row \<Rightarrow> idb \<Rightarrow> bool" where
  "at_row rs u r d = (moved_on rs d \<and> find_row res_id u (reservations d) = Some r)"

interpretation moved: lot_frame "moved_on rs" for rs
  by unfold_locales (simp_all add: moved_on_def)

interpretation row: lot_frame "at_row rs u r" for rs u r
  by unfold_locales (simp_all add: at_row_def moved_on_def)

lemma keeps_reservation_reads:
  "keeps (\<lambda>w. J (db w)) (select_release_items E i)" "keeps (\<lambda>w. J (db w)) (select_allocations E i)"
  "keeps (\<lambda>w. J (db w)) (select_lots E a b)" "keeps (\<lambda>w. J (db w)) (select_reservation E i)"
  by (simp_all add: leads_def wp_simps select_release_items_def select_allocations_def
      select_lots_def select_reservation_def)

lemma keeps_allocation_moved: "keeps (\<lambda>w. moved_on rs (db w)) (insert_allocation E i l n)"
  by (simp add: leads_def wp_simps insert_allocation_def moved_on_def)

lemma insert_reservation_moved:
  "keeps (\<lambda>w. moved_on rs (db w)) (insert_reservation E i u s n)"
  "keeps (\<lambda>w. moved_on rs (db w)) (insert_reservation_if_absent E i u s n)"
  by (auto simp: leads_def wp_simps insert_reservation_def insert_reservation_if_absent_def
      find_row_None_iff new_reservation_def intro!: append_moved_on)

lemma unreserve_all_row: "keeps (\<lambda>w. at_row rs u r (db w)) (unreserve_all E i)"
  by (simp add: leads_def wp_simps unreserve_all_def Let_def row.free_stocks)

lemma update_reservation_row:
  assumes "pg_uuid E i = Some u" "succeeds r (f r)" "\<And>r. res_id (f r) = res_id r"
  shows "leads (\<lambda>w. at_row rs u r (db w)) (update_reservation E i f) (\<lambda>_ w. moved_on rs (db w))"
  using assms by (auto simp: leads_def wp_simps update_reservation_def at_row_def intro!: update_progress)

lemma leads_at_row:
  assumes "leads (\<lambda>w. moved_on rs (db w)) (f None) K"
    and "\<And>u r. pg_uuid E i = Some u \<Longrightarrow> leads (\<lambda>w. at_row rs u r (db w)) (f (Some r)) K"
  shows "leads (\<lambda>w. moved_on rs (db w)) (bnd (select_reservation E i) f) K"
proof (rule leadsI)
  fix w :: "idb world" assume w: "moved_on rs (db w)"
  have "wp (f (find_row res_id u (reservations (db w)))) K anyerr w" if "pg_uuid E i = Some u" for u
    using w that assms by (cases "find_row res_id u (reservations (db w))")
      (auto simp: leads_def at_row_def)
  then show "wp (bnd (select_reservation E i) f) K anyerr w"
    by (simp add: select_reservation_def wp_simps)
qed

lemma keeps_at_row: "leads (\<lambda>w. moved_on rs (db w)) m K \<Longrightarrow> leads (\<lambda>w. at_row rs u r (db w)) m K"
  by (auto simp: leads_def at_row_def)

lemma take_lots_moved: "keeps (\<lambda>w. moved_on rs (db w)) (take_lots E i lots n)"
proof (induction lots arbitrary: n)
  case (Cons a lots)
  then show ?case
    by (cases a) (simp only: take_lots.simps, (rule Cons.IH moved.lot_rules keeps_allocation_moved)+)
qed (simp add: keeps_ret)

lemma reserve_lines_moved: "keeps (\<lambda>w. moved_on rs (db w)) (reserve_lines E i u seen lines)"
proof (induction lines arbitrary: seen)
  case (Cons a lines)
  show ?case unfolding reserve_lines.simps
    by (rule Cons.IH moved.lot_rules keeps_reservation_reads [where J = "moved_on rs"] take_lots_moved)+
qed (simp add: keeps_ret)

lemma reserve_moved: "keeps (\<lambda>w. moved_on rs (db w)) (reserve E p)"
  unfolding reserve_def
  by (rule moved.lot_rules insert_reservation_moved reserve_lines_moved
      keeps_reservation_reads [where J = "moved_on rs"])+

lemma release_moved: "keeps (\<lambda>w. moved_on rs (db w)) (release E i expired)"
  unfolding release_def
  by (rule leads_at_row leads_andthen [OF update_reservation_row] unreserve_all_row
      moved.lot_rules keeps_reservation_reads [where J = "moved_on rs"]
      keeps_at_row [OF leads_throw] keeps_at_row [OF keeps_ret]
      | assumption | (simp add: succeeds_def final_states_def; fail))+

lemma ship_moved: "keeps (\<lambda>w. moved_on rs (db w)) (ship E S p)"
  unfolding ship_def
  by (rule leads_at_row leads_active leads_andthen [OF update_reservation_row]
      row.keeps_ship_all keeps_reservation_reads [where J = "at_row rs u r" for u r]
      keeps_at_row [OF keeps_ret] row.lot_rules moved.lot_rules
      | assumption | (simp add: succeeds_def final_states_def; fail))+

lemma Handle_moved: "keeps (\<lambda>w. moved_on rs (db w)) (Handle S E e)"
proof -
  have "keeps (\<lambda>w. moved_on rs (db w)) (reject E e f)" for f
    unfolding reject_def
    by (cases f) (simp_all only: err.case, (rule moved.lot_rules insert_reservation_moved)+)
  then show ?thesis
    unfolding Handle_def dispatch_def
    by (intro keeps_rules moved.lot_rules leads_Savepoint [where J = "moved_on rs"]
        reserve_moved release_moved ship_moved moved.keeps_place)
qed

interpretation lifecycle: code_invariant "moved_on rs" P S for rs P S
proof unfold_locales
  fix E :: env and i e q a c
  show "keeps (\<lambda>w. moved_on rs (db w)) (Receive E S q)" by (rule moved.keeps_Receive)
  show "keeps (\<lambda>w. moved_on rs (db w)) (Change E S a c)" by (rule moved.keeps_Change)
  show "keeps (\<lambda>w. moved_on rs (db w)) (Handle S E e)" by (rule Handle_moved)
  show "keeps (\<lambda>w. moved_on rs (db w)) (release E i True)" by (rule release_moved)
qed (simp_all add: moved_on_def)

section \<open>Inbox markers and saved replies stay\<close>

text \<open>The contracts of the runtime, discharged by the service's handler and commands.\<close>

interpretation inventory: inbox_handler "Handle S" for S
proof
  fix E :: env and ev and w w' :: "idb world"
  assume "Handle S E ev w = (Inr (), w')"
  then have "processed (db w') = processed (db w)"
    using leads_result [OF inbox.keeps_Handle [where X = "processed (db w)"]] by blast
  then show "set (processed (db w)) \<subseteq> set (processed (db w'))" by simp
qed

interpretation receiving: command_body "\<lambda>E. Receive E S q" for S q
  by unfold_locales (use leads_result [OF replies.keeps_Receive] in blast)

interpretation changing: command_body "\<lambda>E. Change E S a q" for S a q
  by unfold_locales (use leads_result [OF replies.keeps_Change] in blast)

interpretation marker: reply_invariant "\<lambda>d. m \<in> set (processed d)" for m
  by unfold_locales simp_all

interpretation marker_frame: table_frame "\<lambda>d. m \<in> set (processed d)" for m
  by unfold_locales simp_all

interpretation saved: inbox_invariant "\<lambda>d. find_row cmd_id k (commands d) = Some r" for k r
  by unfold_locales simp_all

interpretation saved_frame: table_frame "\<lambda>d. find_row cmd_id k (commands d) = Some r" for k r
  by unfold_locales simp_all

lemma expire_one_keeps:
  assumes "keeps (\<lambda>w. J (db w)) (release E (fst x) True)" "J (db w)"
  shows "J (db (snd (expire_one E x w)))"
  unfolding expire_one_def
  by (rule Transaction_keeps [where J = J, OF keeps_andthen assms(2)])
    (rule keeps_world(4) [where J = J], rule assms(1))

interpretation markers_stay: step_invariant "\<lambda>d. m \<in> set (processed d)" P S for m P S
proof unfold_locales
  fix E :: env and w :: "idb world" and key req q a c ev x
  assume m: "m \<in> set (processed (db w))"
  show "m \<in> set (processed (db (snd (Command E key req (Receive E S q) w))))"
    by (rule marker.Command_keeps [OF marker_frame.keeps_Receive m])
  show "m \<in> set (processed (db (snd (Command E key req (Change E S a c) w))))"
    by (rule marker.Command_keeps [OF marker_frame.keeps_Change m])
  show "m \<in> set (processed (db (snd (Process E ev (Handle S) w))))"
    using m inventory.process_keeps [of "fst m" "snd m" w] by simp
  show "m \<in> set (processed (db (Outbox_tick E w)))"
    by (rule marker.Outbox_tick_keeps [OF m])
  show "m \<in> set (processed (db (snd (expire_one E x w))))"
    by (rule expire_one_keeps [where J = "\<lambda>d. m \<in> set (processed d)", OF marker_frame.keeps_release m])
qed

interpretation replies_stay: step_invariant "\<lambda>d. find_row cmd_id k (commands d) = Some r" P S for k r P S
proof unfold_locales
  fix E :: env and w :: "idb world" and key req q a c ev x
  assume r: "find_row cmd_id k (commands (db w)) = Some r"
  show "find_row cmd_id k (commands (db (snd (Command E key req (Receive E S q) w)))) = Some r"
    by (rule receiving.command_keeps_reply [OF r])
  show "find_row cmd_id k (commands (db (snd (Command E key req (Change E S a c) w)))) = Some r"
    by (rule changing.command_keeps_reply [OF r])
  show "find_row cmd_id k (commands (db (snd (Process E ev (Handle S) w)))) = Some r"
    by (rule saved.Process_keeps [OF saved_frame.keeps_Handle r])
  show "find_row cmd_id k (commands (db (Outbox_tick E w))) = Some r"
    by (rule saved.Outbox_tick_keeps [OF r])
  show "find_row cmd_id k (commands (db (snd (expire_one E x w)))) = Some r"
    by (rule expire_one_keeps [where J = "\<lambda>d. find_row cmd_id k (commands d) = Some r",
        OF saved_frame.keeps_release r])
qed

section \<open>The replies survive JSON\<close>

text \<open>What a command returns can be saved and read back: its integers come back as floats.\<close>

lemma wf_stock_gov: "lot_ok x \<Longrightarrow> wf_gov (stock_gov x)"
  by (auto simp: stock_gov_def lot_ok_def gov_of_string_option_def is_i64_bounds split: option.split)

lemma leads_product_any:
  assumes "\<And>p. valid_f64 (pr_Weight p) \<Longrightarrow> valid_f64 (pr_Volume p) \<Longrightarrow> leads (\<lambda>_. True) (f p) K"
  shows "leads (\<lambda>_. True) (bnd (Get E (decode_struct False product_fields) zero_Product url) f) K"
  using assms product_reply_valid by (fastforce simp: leads_def wp_bnd wp_Get)

lemma Receive_reply_wf: "leads (\<lambda>_. True) (Receive E S q) (\<lambda>v _. wf_gov v)"
  unfolding Receive_def
  by (rule leads_product_any leads_guard leads_Let keeps_andthen keeps_bnd keeps_True leads_ret
      | (rule wf_stock_gov, simp add: lot_ok_def is_i64_bounds; fail))+

lemma wf_payload_put: "wf_gov v \<Longrightarrow> wf_gov (GObj m) \<Longrightarrow> wf_gov (GObj (obj_put k v m))"
  by (simp add: wf_fields_put distinct_obj_put)

lemma change_target_wf:
  assumes "wf_gov (GObj p)"
  shows "leads (\<lambda>_. True) (change_target E S a x q p) (\<lambda>(k, v) _. wf_gov (GObj v))"
  unfolding change_target_def
  by (rule leads_guard leads_if leads_throw keeps_andthen keeps_bnd keeps_True leads_ret
      | (simp only: prod.case, intro wf_payload_put assms;
         simp add: gov_of_string_option_def split: option.split; fail))+

lemma take_off_wf:
  assumes "is_i64 (ch_Quantity q)"
  shows "leads (\<lambda>_. True) (take_off E S a x q) (\<lambda>v _. wf_gov v)"
  unfolding take_off_def
proof (rule keeps_andthen [OF keeps_True], rule leads_bnd [OF change_target_wf])
  show "wf_gov (GObj [(''stockId'', GStr (st_ID x)), (''productId'', GStr (st_ProductID x)),
         (''warehouseId'', GStr (st_WarehouseID x)), (''quantity'', GI64 (ch_Quantity q))])"
    using assms by simp
next
  fix y :: "string \<times> gobj"
  obtain k v where y: "y = (k, v)" by force
  have "leads (\<lambda>_. True) (andthen m (andthen m' (andthen m'' (ret (GObj v))))) (\<lambda>v _. wf_gov v)"
    if "wf_gov (GObj v)" for m m' m'' :: "(idb, unit) wprog"
    using that by (intro keeps_andthen keeps_True leads_ret)
  then show "leads (\<lambda>s. (case y of (k, v) \<Rightarrow> \<lambda>_. wf_gov (GObj v)) s)
      (case y of (event, payload) \<Rightarrow>
        andthen (case st_LocationID x of None \<Rightarrow> ret () | Some l \<Rightarrow> capacity E S x l (i64 (- ch_Quantity q)))
         (andthen (update_stock E (st_ID x) (add_quantity (- ch_Quantity q)))
           (andthen (Emit E event payload) (ret (GObj payload))))) (\<lambda>v _. wf_gov v)"
    unfolding y by (auto simp: leads_def)
qed

lemma Change_reply_wf:
  assumes "is_i64 (ch_Quantity q)"
  shows "leads (\<lambda>_. True) (Change E S a q) (\<lambda>v _. wf_gov v)"
  unfolding Change_def adjust_def
  by (rule leads_guard leads_if leads_Let take_off_wf [OF assms] keeps_andthen keeps_bnd keeps_True leads_ret
      | (use assms in simp; fail))+

end
