(* ===== verification/Scenario.thy ===== *)
theory Scenario
  imports Inventory_System
begin

text \<open>
  A concrete deployment on which the properties are instantiated: one warehouse, one product,
  one location, and a run that receives, places, reserves and ships a lot.
\<close>

definition demo_uuid :: "string \<Rightarrow> string option" where
  "demo_uuid s = (if s = [] then None else Some s)"

lemma demo_uuid_law: "uuid_law demo_uuid"
  by (simp add: uuid_law_def demo_uuid_def)

definition demo_get :: "string \<Rightarrow> http_reply" where
  "demo_get url =
     (if url = ''P/products/p1'' then Reply 200 (Some (JObj [(''data'', JObj
        [(''id'', JStr ''p1''), (''Weight'', JInt 2), (''Volume'', JInt 1),
         (''StorageType'', JStr ''DRY''), (''Active'', JBool True)])]))
      else if url = ''W/warehouses/w1'' then Reply 200 (Some (JObj [(''data'', JObj
        [(''status'', JStr ''ACTIVE'')])]))
      else if url = ''W/locations/l1'' then Reply 200 (Some (JObj [(''data'', JObj
        [(''id'', JStr ''l1''), (''warehouseId'', JStr ''w1''), (''maxWeight'', JInt 100),
         (''maxVolume'', JInt 100), (''storageType'', JStr ''DRY''),
         (''zoneType'', JStr ''STORAGE''), (''status'', JStr ''AVAILABLE'')])]))
      else Reply 404 None)"

definition demo_env :: env where
  "demo_env = \<lparr>svc_name = ''inventory-service'', uuid_ok = (\<lambda>s. s \<noteq> []), pg_uuid = demo_uuid,
     new_uuid = (\<lambda>n. CHR ''u'' # replicate n (CHR ''x'')), go_now = (\<lambda>n. 1000 * int n), pg_now = 1,
     begin_ok = True, commit_ok = True, kafka_ok = (\<lambda>_. True), ctx_corr = Some ''c'',
     ctx_trace = [], http_get = demo_get, fingerprint = (\<lambda>_. ''f''), pg_ts_text = (\<lambda>_. [])\<rparr>"

definition demo_service :: service where
  "demo_service = \<lparr>WarehouseURL = ''W'', ProductURL = ''P''\<rparr>"

definition demo_start :: "idb world" where
  "demo_start = \<lparr>db = empty_idb, held = [], metrics = [], uuids = 0, ticks = 0, seqno = 0,
     sends = 0, kafka = [], redis = []\<rparr>"

definition demo_receipt :: http_body where
  "demo_receipt = JsonBody (JObj [(''productId'', JStr ''p1''), (''warehouseId'', JStr ''w1''),
     (''quantity'', JInt 10), (''batchNumber'', JStr ''B'')]) False"

definition demo_received :: "idb world" where
  "demo_received = snd (Wrap demo_env ''c'' (receive_endpoint demo_service ''k1'' demo_receipt) demo_start)"

definition demo_message :: "string \<Rightarrow> string \<Rightarrow> (string \<times> json) list \<Rightarrow> kafka_msg" where
  "demo_message i kind payload = \<lparr>km_topic = ''wms.events'', km_key = ''w1'',
     km_value = Some \<lparr>ev_id = i, ev_type = kind, ev_version = 1, ev_time = 0, ev_source = ''x'',
       ev_correlation = ''c'', ev_traceparent = [], ev_payload = JObj payload\<rparr>, km_headers = []\<rparr>"

definition demo_placed :: "idb world" where
  "demo_placed = snd (attempt_event demo_env (Handle demo_service)
     (demo_message ''e1'' ''ProductPlacementAssigned'' [(''stockId'', JStr ''u''),
       (''warehouseId'', JStr ''w1''), (''locationId'', JStr ''l1'')]) demo_received)"

definition demo_reserved :: "idb world" where
  "demo_reserved = snd (attempt_event demo_env (Handle demo_service)
     (demo_message ''e2'' ''ReservationRequested'' [(''reservationId'', JStr ''r1''),
       (''warehouseId'', JStr ''w1''), (''expiresAt'', JStr ''2030-01-01T00:00:00Z''),
       (''items'', JArr [JObj [(''productId'', JStr ''p1''), (''quantity'', JInt 4)]])]) demo_placed)"

definition demo_shipped :: "idb world" where
  "demo_shipped = snd (attempt_event demo_env (Handle demo_service)
     (demo_message ''e3'' ''ShipmentRequested'' [(''reservationId'', JStr ''r1''),
       (''warehouseId'', JStr ''w1''), (''shipmentId'', JStr ''s1'')]) demo_reserved)"

definition demo_ship_event :: "gobj delivered" where
  "demo_ship_event = \<lparr>ev_id = ''e3'', ev_type = ''ShipmentRequested'', ev_version = 1, ev_time = 0,
     ev_source = ''x'', ev_correlation = ''c'', ev_traceparent = [],
     ev_payload = [(''reservationId'', GStr ''r1''), (''warehouseId'', GStr ''w1''), (''shipmentId'', GStr ''s1'')], ev_nil = False\<rparr>"

definition demo_goods :: Receive_req where
  "demo_goods = \<lparr>rq_ProductID = ''p1'', rq_WarehouseID = ''w1'', rq_Quantity = 10, rq_Batch = ''B'',
     rq_Expiration = []\<rparr>"

definition demo_lot :: Stock where
  "demo_lot = \<lparr>st_ID = ''u'', st_ProductID = ''p1'', st_WarehouseID = ''w1'', st_LocationID = None,
     st_Quantity = 10, st_Reserved = 0, st_Batch = ''B'', st_Expiration = None, st_Weight = Fin 2,
     st_Volume = Fin 1, st_StorageType = ''DRY''\<rparr>"

lemma demo_env_uuid: "pg_uuid demo_env = demo_uuid"
  by (simp add: demo_env_def)

lemma demo_run:
  "inventory_step demo_uuid demo_service demo_start demo_received"
  "inventory_step demo_uuid demo_service demo_received demo_placed"
  "inventory_step demo_uuid demo_service demo_placed demo_reserved"
  "inventory_step demo_uuid demo_service demo_reserved demo_shipped"
  unfolding demo_received_def demo_placed_def demo_reserved_def demo_shipped_def
  by (rule inventory_step.receive inventory_step.deliver, rule demo_env_uuid)+

lemma demo_start_reachable: "inventory_reachable demo_uuid demo_service demo_start"
  by (rule inventory_reachable.start) (simp add: demo_start_def)

lemmas demo_received_reachable = inventory_reachable.step [OF demo_start_reachable demo_run(1)]
lemmas demo_placed_reachable = inventory_reachable.step [OF demo_received_reachable demo_run(2)]
lemmas demo_reserved_reachable = inventory_reachable.step [OF demo_placed_reachable demo_run(3)]
lemmas demo_shipped_reachable = inventory_reachable.step [OF demo_reserved_reachable demo_run(4)]

end
