(* ===== verification/Inventory_Properties.thy ===== *)
theory Inventory_Properties
  imports Scenario
begin

text \<open>
  What the inventory service guarantees over every run, with the demonstration run as the
  concrete instance of each property.
\<close>

section \<open>Over every run\<close>

text \<open>
  C1: in every reachable state the reserved quantity of a lot is exactly the sum of the
  allocations its confirmed reservations hold on it, it is never negative and never exceeds the
  quantity of the lot: stock is neither oversold nor leaked by any interleaving of HTTP commands,
  messages, retries and expiries.
\<close>

theorem reserved_is_allocated:
  assumes "uuid_law P" "inventory_reachable P S w" "r \<in> set (stocks (db w))"
  shows "st_Reserved r = reserved_by (reservations (db w)) (allocations (db w)) (st_ID r)
    \<and> 0 \<le> st_Reserved r \<and> st_Reserved r \<le> st_Quantity r"
  using reachable_inventory_ok [OF assms(1,2)] assms(3)
  by (auto simp: inv_with_def ledger_def tables_ok_def stock_ok_def stock_check_def)

theorem reserved_is_allocated_witness:
  "st_Reserved (hd (stocks (db demo_reserved))) = 4 \<and>
   reserved_by (reservations (db demo_reserved)) (allocations (db demo_reserved)) ''u'' = 4"
proof -
  have r: "hd (stocks (db demo_reserved)) \<in> set (stocks (db demo_reserved))"
    "st_ID (hd (stocks (db demo_reserved))) = ''u''" "st_Reserved (hd (stocks (db demo_reserved))) = 4"
    by code_simp+
  then show ?thesis
    using reserved_is_allocated [OF demo_uuid_law demo_reserved_reachable r(1)] by simp
qed

text \<open>
  C21: every reachable database is consistent: lots, capacities, reservations and allocations have
  distinct keys, every lot passes its checks with finite positive-or-checked unit sizes and a
  64-bit quantity, recorded weights and volumes are finite and not negative, every allocation is
  positive and belongs to an existing reservation and an existing lot.
\<close>

theorem tables_consistent:
  assumes "uuid_law P" "inventory_reachable P S w"
  shows "tables_ok P (db w)"
  using reachable_inventory_ok [OF assms] by (simp add: inv_with_def)

theorem tables_consistent_witness:
  "tables_ok demo_uuid (db demo_shipped) \<and> length (allocations (db demo_shipped)) = 1
   \<and> length (capacities (db demo_shipped)) = 1"
proof -
  have "length (allocations (db demo_shipped)) = 1 \<and> length (capacities (db demo_shipped)) = 1"
    by code_simp
  with tables_consistent [OF demo_uuid_law demo_shipped_reachable] show ?thesis by blast
qed

text \<open>
  C20: along every run a reservation row stays, keeps its warehouse and its expiry, and its status
  only ever moves from CONFIRMED to one of CANCELLED, EXPIRED and COMPLETED, where it stays; the
  shipment is recorded with the completion only.
\<close>

theorem reservations_move_forward:
  assumes "uuid_law P" "inventory_reachable P S w" "(inventory_step P S)\<^sup>*\<^sup>* w w'"
    and "r \<in> set (reservations (db w))"
  shows "\<exists>r' \<in> set (reservations (db w')). succeeds r r'"
proof -
  have "moved_on (reservations (db w)) (db w)"
    using reachable_inventory_ok [OF assms(1,2)]
    by (simp add: moved_on_def life.grown_refl inv_with_def tables_ok_def)
  then have "moved_on (reservations (db w)) (db w')" by (rule lifecycle.run_keeps [OF assms(3)])
  then show ?thesis using assms(4) life.grown_found by (auto simp: moved_on_def)
qed

theorem reservations_move_forward_witness:
  "\<exists>r' \<in> set (reservations (db demo_shipped)). succeeds (hd (reservations (db demo_reserved))) r'"
proof (rule reservations_move_forward [OF demo_uuid_law demo_reserved_reachable])
  show "(inventory_step demo_uuid demo_service)\<^sup>*\<^sup>* demo_reserved demo_shipped"
    using demo_run(4) by (rule r_into_rtranclp)
  show "hd (reservations (db demo_reserved)) \<in> set (reservations (db demo_reserved))" by code_simp
qed

text \<open>
  C6: a message is processed at most once: after its transaction has committed, any further run
  of the service and any later delivery of the same event commits without changing anything.
\<close>

theorem event_processed_once:
  assumes "Process E ev (Handle S) w = (Inr (), w1)" "(inventory_step P S)\<^sup>*\<^sup>* w1 w2"
    and "pg_uuid E' (ev_id ev') = pg_uuid E (ev_id ev)" "svc_name E' = svc_name E"
    and "begin_ok E'" "commit_ok E'"
  shows "Process E' ev' (Handle S) w2 = (Inr (), w2)"
proof -
  obtain u where u: "pg_uuid E (ev_id ev) = Some u" "(u, svc_name E) \<in> set (processed (db w1))"
    using inventory.process_marks [OF assms(1)] by blast
  have "(u, svc_name E) \<in> set (processed (db w2))"
    using markers_stay.run_keeps [OF assms(2)] u(2) by blast
  with u(1) assms(3-6) show ?thesis by (intro Process_seen) simp_all
qed

theorem event_processed_once_witness:
  "\<exists>w1. Process demo_env demo_ship_event (Handle demo_service) demo_reserved = (Inr (), w1)
    \<and> Process demo_env demo_ship_event (Handle demo_service) w1 = (Inr (), w1)
    \<and> map st_Quantity (stocks (db w1)) = [6]"
proof -
  let ?w1 = "snd (Process demo_env demo_ship_event (Handle demo_service) demo_reserved)"
  have r: "fst (Process demo_env demo_ship_event (Handle demo_service) demo_reserved) = Inr ()"
    "map st_Quantity (stocks (db ?w1)) = [6]"
    by code_simp+
  then have p: "Process demo_env demo_ship_event (Handle demo_service) demo_reserved = (Inr (), ?w1)"
    by (metis prod.collapse)
  have "Process demo_env demo_ship_event (Handle demo_service) ?w1 = (Inr (), ?w1)"
    by (rule event_processed_once [OF p rtranclp.rtrancl_refl [of _ ?w1]]) (simp_all add: demo_env_def)
  then show ?thesis by (intro exI [of _ ?w1] conjI p r(2))
qed

text \<open>
  C7: a receipt with an idempotency key takes effect at most once: once it has committed, every
  later use of the key with the same request, after any run of the service, leaves the state
  alone and returns the saved reply (its integers read back as floats).
\<close>

theorem receipt_replayed:
  assumes "Command E key request (Receive E S q) w = (Inr v, w1)"
    and "find_row cmd_id key (commands (db w)) = None"
    and "(inventory_step P S)\<^sup>*\<^sup>* w1 w2"
    and "begin_ok E'" "commit_ok E'" "fingerprint E' = fingerprint E"
  shows "Command E' key request (Receive E' S q) w2 = (Inr (as_read v), w2)"
proof -
  obtain raw body where r: "marshal request = Some raw" "marshal v = Some body"
    "find_row cmd_id key (commands (db w1)) =
      Some \<lparr>cmd_id = key, cmd_fingerprint = fingerprint E raw, cmd_response = body\<rparr>"
    using receiving.command_saves [OF assms(1,2)] by blast
  have saved: "find_row cmd_id key (commands (db w2)) =
      Some \<lparr>cmd_id = key, cmd_fingerprint = fingerprint E raw, cmd_response = body\<rparr>"
    by (rule replies_stay.run_keeps [OF assms(3) r(3)])
  have "wf_gov v"
    by (rule command_reply_from_body [OF assms(1) Receive_reply_wf assms(2)])
  then have "unmarshal body = Some (as_read v)" using marshal_reads(1) r(2) by fastforce
  moreover have "0 < length key" "length key \<le> 128"
    using assms(1) by (auto simp: Command_run split: if_splits)
  ultimately show ?thesis
    using receiving.command_replays [OF saved r(1)] assms(4-6) by simp
qed

theorem receipt_replayed_witness:
  "Command demo_env ''k1'' (GStr ''r'') (Receive demo_env demo_service demo_goods)
     (snd (Command demo_env ''k1'' (GStr ''r'') (Receive demo_env demo_service demo_goods) demo_start))
   = (Inr (as_read (stock_gov demo_lot)),
      snd (Command demo_env ''k1'' (GStr ''r'') (Receive demo_env demo_service demo_goods) demo_start))"
proof -
  let ?c = "Command demo_env ''k1'' (GStr ''r'') (Receive demo_env demo_service demo_goods)"
  have "fst (?c demo_start) = Inr (stock_gov demo_lot)" by code_simp
  then have c: "?c demo_start = (Inr (stock_gov demo_lot), snd (?c demo_start))" by (metis prod.collapse)
  have none: "find_row cmd_id ''k1'' (commands (db demo_start)) = None"
    by (simp add: demo_start_def empty_idb_def)
  show ?thesis
    by (rule receipt_replayed [OF c none rtranclp.rtrancl_refl]) (simp_all add: demo_env_def)
qed

text \<open>
  C31: a key belongs to one request: once the reply of a receipt or of a change has been saved under
  it, any request that comes with the same key and another fingerprint - another receipt, a change,
  whatever program \<open>fn'\<close> it would run - is refused with a conflict, after any run of the service, and
  nothing changes.
\<close>

theorem key_reuse_refused:
  assumes "fn = Receive E S q \<or> fn = Change E S action c"
    and "Command E key request fn w = (Inr v, w1)"
    and "find_row cmd_id key (commands (db w)) = None"
    and "(inventory_step P S)\<^sup>*\<^sup>* w1 w2"
    and "begin_ok E'" "commit_ok E'" "marshal request = Some raw" "marshal request' = Some raw'"
    and "fingerprint E' raw' \<noteq> fingerprint E raw"
  shows "Command E' key request' fn' w2
    = (Inl (Fail ''IDEMPOTENCY_CONFLICT'' ''Key reused with different request''), w2)"
proof -
  have "\<exists>raw body. marshal request = Some raw \<and> marshal v = Some body \<and> find_row cmd_id key (commands (db w1)) =
      Some \<lparr>cmd_id = key, cmd_fingerprint = fingerprint E raw, cmd_response = body\<rparr>"
    using assms(1,2) receiving.command_saves [where E = E and S = S and q = q, OF _ assms(3)]
      changing.command_saves [where E = E and S = S and a = action and q = c, OF _ assms(3)] by blast
  then obtain body where r: "find_row cmd_id key (commands (db w1)) =
      Some \<lparr>cmd_id = key, cmd_fingerprint = fingerprint E raw, cmd_response = body\<rparr>"
    using assms(7) by auto
  have saved: "find_row cmd_id key (commands (db w2)) =
      Some \<lparr>cmd_id = key, cmd_fingerprint = fingerprint E raw, cmd_response = body\<rparr>"
    by (rule replies_stay.run_keeps [OF assms(4) r])
  have "0 < length key" "length key \<le> 128"
    using assms(2) by (auto simp: Command_run split: if_splits)
  then show ?thesis using saved_key_answers [OF saved assms(8)] assms(5,6,9) by simp
qed

text \<open>A hash that tells one receipt from everything else; a second receipt that differs in its quantity.\<close>

definition receipt_request :: "Receive_req \<Rightarrow> gov" where
  "receipt_request q = GObj [(''action'', GStr ''receive''), (''body'', receive_gov q)]"

definition hash_env :: env where
  "hash_env = demo_env\<lparr>fingerprint := (\<lambda>raw. if Some raw = marshal (receipt_request demo_goods) then ''f'' else ''g'')\<rparr>"

definition demo_goods_two :: Receive_req where
  "demo_goods_two = demo_goods\<lparr>rq_Quantity := 11\<rparr>"

theorem key_reuse_refused_witness:
  "let w1 = snd (Command hash_env ''k1'' (receipt_request demo_goods) (Receive hash_env demo_service demo_goods) demo_start)
   in Command hash_env ''k1'' (receipt_request demo_goods_two) (Receive hash_env demo_service demo_goods_two) w1
        = (Inl (Fail ''IDEMPOTENCY_CONFLICT'' ''Key reused with different request''), w1)
    \<and> Command hash_env ''k1'' GNil (Change hash_env demo_service ''adjust'' zero_Change) w1
        = (Inl (Fail ''IDEMPOTENCY_CONFLICT'' ''Key reused with different request''), w1)"
proof -
  let ?c = "Command hash_env ''k1'' (receipt_request demo_goods) (Receive hash_env demo_service demo_goods) demo_start"
  have "fst ?c = Inr (stock_gov demo_lot)" by code_simp
  then have c: "?c = (Inr (stock_gov demo_lot), snd ?c)" by (metis prod.collapse)
  have none: "find_row cmd_id ''k1'' (commands (db demo_start)) = None"
    by (simp add: demo_start_def empty_idb_def)
  have up: "begin_ok hash_env" "commit_ok hash_env" by (simp_all add: hash_env_def demo_env_def)
  obtain raw where raw: "marshal (receipt_request demo_goods) = Some raw"
    by (simp add: receipt_request_def receive_gov_def)
  obtain raw2 where raw2: "marshal (receipt_request demo_goods_two) = Some raw2"
    by (simp add: receipt_request_def receive_gov_def)
  have "marshal (receipt_request demo_goods_two) \<noteq> marshal (receipt_request demo_goods)" by code_simp
  then have other: "fingerprint hash_env raw2 \<noteq> fingerprint hash_env raw"
    using raw raw2 by (simp add: hash_env_def)
  have "marshal (receipt_request demo_goods) \<noteq> Some JNull" by code_simp
  then have nil: "fingerprint hash_env JNull \<noteq> fingerprint hash_env raw" using raw by (auto simp: hash_env_def)
  note refused = key_reuse_refused [OF disjI1 [OF refl] c none rtranclp.rtrancl_refl up raw]
  show ?thesis unfolding Let_def using refused [OF raw2 other] refused [of GNil, OF _ nil] by simp
qed

section \<open>Failed requests\<close>

text \<open>
  C17: a request that is answered with an error changed nothing in the database, whatever went
  wrong after whatever statements; the answer is the fault itself or an anonymous 500.
\<close>

theorem failed_request_harmless:
  assumes "endpoint = receive_endpoint S key body \<or> endpoint = change_endpoint S action key body"
    and "Wrap E header endpoint w = (ErrorEnvelope status code message, w')"
  shows "db w' = db w \<and> (\<exists>c e w1. endpoint (E\<lparr>ctx_corr := Some c\<rparr>) w1 = (Inl e, w') \<and>
    (if is_fault e then e = Fault code message status
     else status = 500 \<and> code = ''INTERNAL_ERROR'' \<and> message = ''Unexpected server error''))"
proof -
  obtain c w1 where c: "request_correlation E header w = (Inr c, w1)" "db w1 = db w"
    by (cases "length header = 0 \<or> 80 < length header")
      (auto simp: request_correlation_def NewString_def bnd_def gets_def andthen_def modify_def ret_def)
  obtain r where r: "endpoint (E\<lparr>ctx_corr := Some c\<rparr>) w1 = (r, w')" "respond r = ErrorEnvelope status code message"
    using assms(2) by (auto simp: Wrap_def c(1) split: prod.splits)
  then obtain e where e: "r = Inl e" by (cases r) (auto simp: respond_def)
  have "db v' = db v" if "Command E' key req fn v = (Inl e, v')" for E' req fn v v'
    using that by (auto simp: Command_run dest: Transaction_error_db split: if_splits option.splits)
  then have "db w' = db w1"
    using r(1) assms(1) unfolding e by (auto simp: receive_endpoint_def change_endpoint_def of_sum_bnd split: sum.splits)
  with c(2) r e show ?thesis
    by (intro conjI exI [of _ c] exI [of _ e] exI [of _ w1]) (auto simp: respond_def split: err.splits)
qed

theorem failed_request_harmless_witness:
  "\<exists>w'. Wrap demo_env ''c'' (change_endpoint demo_service ''move'' ''k2''
       (JsonBody (JObj [(''stockId'', JStr ''u''), (''toLocationId'', JStr ''l1''), (''quantity'', JInt 11)]) False)) demo_received
     = (ErrorEnvelope 409 ''INSUFFICIENT_STOCK'' ''Not enough available stock'', w') \<and> db w' = db demo_received"
proof -
  let ?ep = "change_endpoint demo_service ''move'' ''k2''
       (JsonBody (JObj [(''stockId'', JStr ''u''), (''toLocationId'', JStr ''l1''), (''quantity'', JInt 11)]) False)"
  let ?r = "Wrap demo_env ''c'' ?ep demo_received"
  have "fst ?r = ErrorEnvelope 409 ''INSUFFICIENT_STOCK'' ''Not enough available stock''" by code_simp
  then have r: "?r = (ErrorEnvelope 409 ''INSUFFICIENT_STOCK'' ''Not enough available stock'', snd ?r)" by (metis prod.collapse)
  have "db (snd ?r) = db demo_received" using failed_request_harmless [OF disjI2 [OF refl] r] by blast
  with r show ?thesis by blast
qed

end
