(* ===== verification/Inventory_Operations.thy ===== *)
theory Inventory_Operations
  imports Inventory_System
begin

text \<open>
  The functional behaviour of the inventory operations: what a successful run does to the lots,
  as an equation between the tables before and after, and what it announces on the outbox.
\<close>

section \<open>Lots before and after\<close>

text \<open>A table of lots as the invariant has it, and a table where one lot was rewritten.\<close>

definition good_lots :: "(string \<Rightarrow> string option) \<Rightarrow> stock_row list \<Rightarrow> bool" where
  "good_lots P ss = (distinct (map st_ID ss) \<and> (\<forall>r \<in> set ss. stock_ok r \<and> canonical P r))"

definition put_lot :: "env \<Rightarrow> stock_row \<Rightarrow> stock_row list \<Rightarrow> stock_row list" where
  "put_lot E r ss = update_rows st_ID (st_ID r) (\<lambda>_. r\<lparr>st_updated := pg_now E\<rparr>) ss"

text \<open>The quantity of a product on hand in a warehouse.\<close>

definition on_hand :: "string \<Rightarrow> string \<Rightarrow> stock_row list \<Rightarrow> int" where
  "on_hand product warehouse ss =
     (\<Sum>r\<leftarrow>ss. if st_ProductID r = product \<and> st_WarehouseID r = warehouse then st_Quantity r else 0)"

lemma good_lots_inv: "inv_with P xs d \<Longrightarrow> good_lots P (stocks d)"
  by (simp add: inv_with_def tables_ok_def good_lots_def)

lemma good_lots_find:
  assumes "good_lots P ss" "find_row st_ID u ss = Some r"
  shows "r \<in> set ss" "st_ID r = u" "stock_ok r" "canonical P r" "lot_ok (Stock.truncate r)"
proof -
  show r: "r \<in> set ss" "st_ID r = u" using find_row_SomeD [OF assms(2)] by auto
  then show "stock_ok r" "canonical P r" using assms(1) by (auto simp: good_lots_def)
  then show "lot_ok (Stock.truncate r)" by (simp add: stock_ok_def stock_check_def lot_ok_def)
qed

lemma on_hand_append [simp]: "on_hand p u (ss @ ts) = on_hand p u ss + on_hand p u ts"
  by (simp add: on_hand_def)

lemma on_hand_put:
  assumes "distinct (map st_ID ss)" "find_row st_ID u ss = Some r"
    and "st_ID r' = st_ID r" "st_ProductID r' = st_ProductID r" "st_WarehouseID r' = st_WarehouseID r"
  shows "on_hand p v (put_lot E r' ss) = on_hand p v ss +
    (if st_ProductID r = p \<and> st_WarehouseID r = v then st_Quantity r' - st_Quantity r else 0)"
proof -
  have u: "st_ID r' = u" using assms(3) find_row_SomeD [OF assms(2)] by simp
  show ?thesis unfolding on_hand_def put_lot_def u sum_list_update_rows [OF assms(1,2)]
    using assms(4,5) by simp
qed

lemma put_lot_other: "st_ID r \<notin> st_ID ` set ts \<Longrightarrow> put_lot E r (ss @ ts) = put_lot E r ss @ ts"
  by (simp add: put_lot_def update_rows_append update_rows_absent)

section \<open>Rules over a known table of lots\<close>

abbreviation lots_are :: "stock_row list \<Rightarrow> idb world \<Rightarrow> bool" where
  "lots_are ss \<equiv> \<lambda>w. stocks (db w) = ss"

lemma leads_stock_at:
  assumes "\<And>u r. pg_uuid E i = Some u \<Longrightarrow> find_row st_ID u ss = Some r \<Longrightarrow>
    leads (lots_are ss) (f (Stock.truncate r)) K"
  shows "leads (lots_are ss) (bnd (stock E i) f) K"
  using assms by (simp add: leads_def wp_bnd wp_stock)

lemma leads_update_at:
  assumes "pg_uuid E (st_ID r) = Some (st_ID r)" "find_row st_ID (st_ID r) ss = Some r"
    and "\<And>r'. f r = Some r' \<Longrightarrow> stock_check r' \<Longrightarrow> st_ID r' = st_ID r \<Longrightarrow>
      leads (lots_are (put_lot E r' ss)) k K"
    and "row_update f"
  shows "leads (lots_are ss) (andthen (update_stock E (st_ID r) f) k) K"
proof (rule leadsI, unfold wp_andthen, rule wp_update_stockI)
  fix w :: "idb world" and u r0 r'
  assume w: "stocks (db w) = ss" and u: "pg_uuid E (st_ID r) = Some u" "find_row st_ID u (stocks (db w)) = Some r0"
    and f: "f r0 = Some r'" "stock_check r'"
  have e: "r0 = r" "u = st_ID r" using w u assms(1,2) by auto
  have id: "st_ID r' = st_ID r" using f(1) assms(4) by (simp add: e row_update_def)
  show "wp k K anyerr (set_stocks (update_rows st_ID u (\<lambda>_. r'\<lparr>st_updated := pg_now E\<rparr>) (stocks (db w))) w)"
    using leadsD [OF assms(3)] f id by (simp add: e w put_lot_def)
qed (use assms(1,2) in auto)

lemma leads_insert_at:
  assumes "\<And>i pid wid loc. \<lbrakk> pg_uuid E (st_ID x) = Some i; pg_uuid E (st_ProductID x) = Some pid;
      pg_uuid E (st_WarehouseID x) = Some wid;
      (case st_LocationID x of None \<Rightarrow> loc = None | Some t \<Rightarrow> \<exists>u. pg_uuid E t = Some u \<and> loc = Some u);
      i \<notin> st_ID ` set ss; stock_check (stored_row E x i pid wid loc) \<rbrakk> \<Longrightarrow>
      leads (lots_are (ss @ [stored_row E x i pid wid loc])) k K"
  shows "leads (lots_are ss) (andthen (insert_stock E x) k) K"
proof (rule leadsI, unfold wp_andthen, rule wp_insert_stockI)
  fix w :: "idb world" and i pid wid loc
  assume "stocks (db w) = ss" "pg_uuid E (st_ID x) = Some i" "pg_uuid E (st_ProductID x) = Some pid"
    "pg_uuid E (st_WarehouseID x) = Some wid"
    "case st_LocationID x of None \<Rightarrow> loc = None | Some t \<Rightarrow> \<exists>u. pg_uuid E t = Some u \<and> loc = Some u"
    "find_row st_ID i (stocks (db w)) = None" "stock_check (stored_row E x i pid wid loc)"
  then show "wp k K anyerr (set_stocks (stocks (db w) @ [stored_row E x i pid wid loc]) w)"
    by (intro leadsD [OF assms]) (auto simp: find_row_None_iff)
qed

text \<open>The last event of the outbox.\<close>

definition announced :: "string \<Rightarrow> gobj \<Rightarrow> idb world \<Rightarrow> bool" where
  "announced kind payload w = (outbox (db w) \<noteq> [] \<and> ob_type (last (outbox (db w))) = kind
     \<and> ob_published (last (outbox (db w))) = None
     \<and> ev_type (ob_body (last (outbox (db w)))) = kind \<and> ev_version (ob_body (last (outbox (db w)))) = 1
     \<and> marshal (GObj payload) = Some (ev_payload (ob_body (last (outbox (db w))))))"

lemma leads_announce:
  assumes "\<And>w. stocks (db w) = ss \<Longrightarrow> announced k p w \<Longrightarrow> K v w"
  shows "leads (lots_are ss) (andthen (Emit E k p) (ret v)) K"
proof (rule leadsI, unfold wp_andthen wp_ret, rule wp_EmitI)
  fix w w' :: "idb world" assume w: "stocks (db w) = ss" and "emitted E k p w w'"
  then obtain row where "db w' = (db w)\<lparr>outbox := outbox (db w) @ [row]\<rparr>" "ob_type row = k"
    "ob_published row = None" "ev_type (ob_body row) = k" "ev_version (ob_body row) = 1" "marshal (GObj p) = Some (ev_payload (ob_body row))"
    by (auto simp: emitted_def)
  with w show "K v w'" by (intro assms) (simp_all add: announced_def)
qed simp

lemmas at_rules = leads_stock_at leads_guard leads_check leads_of_option leads_throw leads_Let
  keeps_world [where J = "\<lambda>d. stocks d = ss" for ss]

section \<open>Moves\<close>

text \<open>
  A move of \<open>n\<close> out of a lot: the lot loses \<open>n\<close> unreserved pieces, a new unreserved lot of \<open>n\<close>
  pieces with the same product, batch, expiry and unit sizes appears at the destination.
\<close>

definition moves :: "env \<Rightarrow> Change_req \<Rightarrow> stock_row list \<Rightarrow> stock_row list \<Rightarrow> bool" where
  "moves E q ss ss' = (\<exists>r l i. find_row st_ID (st_ID r) ss = Some r
     \<and> pg_uuid E (ch_StockID q) = Some (st_ID r) \<and> pg_uuid E (ch_ToLocationID q) = Some l
     \<and> 0 < ch_Quantity q \<and> ch_Quantity q \<le> st_Quantity r - st_Reserved r
     \<and> i \<notin> st_ID ` set ss
     \<and> ss' = put_lot E (r\<lparr>st_Quantity := st_Quantity r - ch_Quantity q\<rparr>) ss @
         [stored_row E (moved_lot (Stock.truncate r) i (ch_ToLocationID q) (ch_Quantity q)) i
            (st_ProductID r) (st_WarehouseID r) (Some l)])"

lemma moves_on_hand:
  assumes "good_lots P ss" "moves E q ss ss'"
  shows "on_hand p u ss' = on_hand p u ss"
proof -
  obtain r l i where r: "find_row st_ID (st_ID r) ss = Some r"
    and ss': "ss' = put_lot E (r\<lparr>st_Quantity := st_Quantity r - ch_Quantity q\<rparr>) ss @
         [stored_row E (moved_lot (Stock.truncate r) i (ch_ToLocationID q) (ch_Quantity q)) i
            (st_ProductID r) (st_WarehouseID r) (Some l)]"
    using assms(2) unfolding moves_def by blast
  have "distinct (map st_ID ss)" using assms(1) by (simp add: good_lots_def)
  from on_hand_put [OF this r] show ?thesis
    unfolding ss' by (simp add: on_hand_def stored_row_def moved_lot_def)
qed

lemma add_quantity_Some: "add_quantity n r = Some r' \<Longrightarrow> r' = r\<lparr>st_Quantity := st_Quantity r + n\<rparr>"
  by (auto simp: add_quantity_def)

lemma keeps_lots_capacity: "keeps (lots_are ss) (capacity E S x l n)"
  by (rule lots.keeps_capacity)

lemma leads_location_step:
  assumes "leads (lots_are ss) k K"
  shows "leads (lots_are ss) (andthen (case l of None \<Rightarrow> ret () | Some l \<Rightarrow> capacity E S x l n) k) K"
  using assms by (cases l) (auto intro!: keeps_andthen keeps_ret keeps_lots_capacity)

lemma take_off_move:
  assumes g: "good_lots (pg_uuid E) ss" and r: "find_row st_ID (st_ID r) ss = Some r"
    and q: "pg_uuid E (ch_StockID q) = Some (st_ID r)"
  shows "leads (lots_are ss) (take_off E S ''move'' (Stock.truncate r) q)
    (\<lambda>v w. moves E q ss (stocks (db w)) \<and> (\<exists>p. v = GObj p \<and> announced ''StockMoved'' p w))"
proof -
  note facts = good_lots_find [OF g r]
  have ids: "pg_uuid E (st_ID r) = Some (st_ID r)" "pg_uuid E (st_ProductID r) = Some (st_ProductID r)"
    "pg_uuid E (st_WarehouseID r) = Some (st_WarehouseID r)" using facts(4) by (auto simp: canonical_def)
  let ?x = "Stock.truncate r" and ?n = "ch_Quantity q"
  let ?new = "\<lambda>i l. stored_row E (moved_lot ?x i (ch_ToLocationID q) ?n) i (st_ProductID r) (st_WarehouseID r) (Some l)"
  have fin: "leads (lots_are (ss @ [?new i l]))
      (andthen (case st_LocationID ?x of None \<Rightarrow> ret () | Some a \<Rightarrow> capacity E S ?x a (i64 (- ?n)))
        (andthen (update_stock E (st_ID ?x) (add_quantity (- ?n))) (andthen (Emit E ''StockMoved'' p) (ret (GObj p)))))
      (\<lambda>v w. moves E q ss (stocks (db w)) \<and> (\<exists>p. v = GObj p \<and> announced ''StockMoved'' p w))"
    if "i \<notin> st_ID ` set ss" "pg_uuid E (ch_ToLocationID q) = Some l" "0 < ?n" "?n \<le> st_Quantity r - st_Reserved r"
    for i l p
  proof (rule leads_location_step)
    have f: "find_row st_ID (st_ID r) (ss @ [?new i l]) = Some r" using r by (simp add: find_row_append)
    have "i \<noteq> st_ID r" using that(1) facts(1) by auto
    then have o: "put_lot E r' (ss @ [?new i l]) = put_lot E r' ss @ [?new i l]" if "st_ID r' = st_ID r" for r'
      using that by (intro put_lot_other) (simp add: stored_row_def)
    show "leads (lots_are (ss @ [?new i l])) (andthen (update_stock E (st_ID ?x) (add_quantity (- ?n)))
        (andthen (Emit E ''StockMoved'' p) (ret (GObj p))))
        (\<lambda>v w. moves E q ss (stocks (db w)) \<and> (\<exists>p. v = GObj p \<and> announced ''StockMoved'' p w))"
      unfolding truncate_fields
    proof (rule leads_update_at [OF ids(1) f])
      fix r' assume "add_quantity (- ?n) r = Some r'" "st_ID r' = st_ID r"
      then have r': "r' = r\<lparr>st_Quantity := st_Quantity r - ?n\<rparr>" "st_ID r' = st_ID r"
        by (auto dest: add_quantity_Some)
      have "moves E q ss (put_lot E r' ss @ [?new i l])"
        unfolding moves_def r'(1) using r q that by blast
      then show "leads (lots_are (put_lot E r' (ss @ [?new i l]))) (andthen (Emit E ''StockMoved'' p) (ret (GObj p)))
          (\<lambda>v w. moves E q ss (stocks (db w)) \<and> (\<exists>p. v = GObj p \<and> announced ''StockMoved'' p w))"
        unfolding o [OF r'(2)] by (intro leads_announce) auto
    qed simp
  qed
  have target: "leads (lots_are ss) (change_target E S ''move'' ?x q p0)
      (\<lambda>y w. \<exists>i l. (fst y = ''StockMoved'' \<and> i \<notin> st_ID ` set ss \<and> pg_uuid E (ch_ToLocationID q) = Some l)
         \<and> stocks (db w) = ss @ [?new i l])" for p0
    unfolding change_target_def if_P [OF refl]
    by (rule leads_guard keeps_andthen [OF keeps_lots_capacity] at_rules keeps_andthen keeps_bnd leads_insert_at
        | (rule leads_ret, use ids in \<open>auto simp: moved_lot_def stored_row_def\<close>; fail))+
  show ?thesis
    unfolding take_off_def
  proof (rule leads_check, rule leads_bnd [OF target])
    fix y :: "string \<times> gobj"
    assume c: "CheckQuantity ?n (Available (st_Quantity ?x) (st_Reserved ?x)) = None"
    note n = CheckQuantity_lot [OF c facts(5), unfolded truncate_fields]
    obtain k p where y: "y = (k, p)" by force
    show "leads (\<lambda>w. \<exists>i l. (fst y = ''StockMoved'' \<and> i \<notin> st_ID ` set ss
          \<and> pg_uuid E (ch_ToLocationID q) = Some l) \<and> stocks (db w) = ss @ [?new i l])
        (case y of (event, payload) \<Rightarrow>
          andthen (case st_LocationID ?x of None \<Rightarrow> ret () | Some l \<Rightarrow> capacity E S ?x l (i64 (- ?n)))
           (andthen (update_stock E (st_ID ?x) (add_quantity (- ?n)))
             (andthen (Emit E event payload) (ret (GObj payload)))))
        (\<lambda>v w. moves E q ss (stocks (db w)) \<and> (\<exists>p. v = GObj p \<and> announced ''StockMoved'' p w))"
      unfolding y prod.case fst_conv
      by (intro leads_ex leads_fact, elim conjE, hypsubst, rule fin; (use n in \<open>assumption | simp\<close>)?)
  qed
qed

section \<open>Write-offs and adjustments\<close>

definition writes_off :: "env \<Rightarrow> Change_req \<Rightarrow> stock_row list \<Rightarrow> stock_row list \<Rightarrow> bool" where
  "writes_off E q ss ss' = (\<exists>r. find_row st_ID (st_ID r) ss = Some r \<and> pg_uuid E (ch_StockID q) = Some (st_ID r)
     \<and> 0 < ch_Quantity q \<and> ch_Quantity q \<le> st_Quantity r - st_Reserved r \<and> ch_Reason q \<noteq> []
     \<and> ss' = put_lot E (r\<lparr>st_Quantity := st_Quantity r - ch_Quantity q\<rparr>) ss)"

definition adjusts :: "env \<Rightarrow> Change_req \<Rightarrow> stock_row list \<Rightarrow> stock_row list \<Rightarrow> bool" where
  "adjusts E q ss ss' = (\<exists>r. find_row st_ID (st_ID r) ss = Some r \<and> pg_uuid E (ch_StockID q) = Some (st_ID r)
     \<and> st_Reserved r \<le> ch_Quantity q \<and> ch_Quantity q \<le> 1000000000 \<and> ch_Reason q \<noteq> []
     \<and> (st_LocationID r = None \<longrightarrow> ch_Quantity q \<le> st_Quantity r)
     \<and> ss' = put_lot E (r\<lparr>st_Quantity := ch_Quantity q\<rparr>) ss)"

lemma take_off_write_off:
  assumes g: "good_lots (pg_uuid E) ss" and r: "find_row st_ID (st_ID r) ss = Some r"
    and q: "pg_uuid E (ch_StockID q) = Some (st_ID r)" and a: "action \<noteq> ''move''"
  shows "leads (lots_are ss) (take_off E S action (Stock.truncate r) q)
    (\<lambda>v w. writes_off E q ss (stocks (db w)) \<and> (\<exists>p. v = GObj p \<and> announced ''StockWrittenOff'' p w))"
proof -
  note facts = good_lots_find [OF g r]
  have id: "pg_uuid E (st_ID r) = Some (st_ID r)" using facts(4) by (simp add: canonical_def)
  let ?x = "Stock.truncate r" and ?n = "ch_Quantity q"
  let ?K = "\<lambda>v w. writes_off E q ss (stocks (db w)) \<and> (\<exists>p. v = GObj p \<and> announced ''StockWrittenOff'' p w)"
  have fin: "leads (lots_are ss) (andthen (case st_LocationID ?x of None \<Rightarrow> ret () | Some a \<Rightarrow> capacity E S ?x a (i64 (- ?n)))
        (andthen (update_stock E (st_ID r) (add_quantity (- ?n))) (andthen (Emit E ''StockWrittenOff'' p) (ret (GObj p))))) ?K"
    if "0 < ?n" "?n \<le> st_Quantity r - st_Reserved r" "ch_Reason q \<noteq> []" for p
  proof (rule leads_location_step, rule leads_update_at [OF id r])
    fix r' assume "add_quantity (- ?n) r = Some r'" "st_ID r' = st_ID r"
    then have r': "r' = r\<lparr>st_Quantity := st_Quantity r - ?n\<rparr>" by (auto dest: add_quantity_Some)
    have "writes_off E q ss (put_lot E r' ss)" unfolding writes_off_def r' using r q that by blast
    then show "leads (lots_are (put_lot E r' ss)) (andthen (Emit E ''StockWrittenOff'' p) (ret (GObj p))) ?K"
      by (intro leads_announce) auto
  qed simp
  show ?thesis
    unfolding take_off_def
  proof (rule leads_check)
    assume c: "CheckQuantity ?n (Available (st_Quantity ?x) (st_Reserved ?x)) = None"
    note n = CheckQuantity_lot [OF c facts(5), unfolded truncate_fields]
    show "leads (lots_are ss) (bnd (change_target E S action ?x q
        [(''stockId'', GStr (st_ID ?x)), (''productId'', GStr (st_ProductID ?x)),
         (''warehouseId'', GStr (st_WarehouseID ?x)), (''quantity'', GI64 ?n)])
        (\<lambda>(event, payload). andthen (case st_LocationID ?x of Some l \<Rightarrow> capacity E S ?x l (i64 (- ?n)) | None \<Rightarrow> ret ())
          (andthen (update_stock E (st_ID ?x) (add_quantity (- ?n))) (andthen (Emit E event payload) (ret (GObj payload)))))) ?K"
    proof (cases "ch_Reason q = []")
      case True
      then show ?thesis using a by (simp add: change_target_def leads_def wp_simps)
    next
      case False
      have "change_target E S action ?x q p = ret (''StockWrittenOff'', obj_put ''reason'' (GStr (ch_Reason q)) p)" for p
        using a False by (simp add: change_target_def)
      then show ?thesis using fin [OF n(1,2) False] by (simp add: bnd_ret)
    qed
  qed
qed

lemma set_quantity_Some: "set_quantity n r = Some r' \<Longrightarrow> r' = r\<lparr>st_Quantity := n\<rparr>"
  by (simp add: set_quantity_def)

lemma adjust_effect:
  assumes g: "good_lots (pg_uuid E) ss" and r: "find_row st_ID (st_ID r) ss = Some r"
    and q: "pg_uuid E (ch_StockID q) = Some (st_ID r)"
  shows "leads (lots_are ss) (adjust E S (Stock.truncate r) q)
    (\<lambda>v w. adjusts E q ss (stocks (db w)) \<and> (\<exists>p. announced ''StockAdjusted'' p w))"
proof -
  note facts = good_lots_find [OF g r]
  have id: "pg_uuid E (st_ID r) = Some (st_ID r)" using facts(4) by (simp add: canonical_def)
  have d: "i64 (ch_Quantity q - st_Quantity r) = ch_Quantity q - st_Quantity r"
    if "0 \<le> ch_Quantity q" "ch_Quantity q \<le> 1000000000"
    using that facts(5) by (intro i64_id) (auto simp: lot_ok_def is_i64_bounds)
  have upd: "leads (lots_are ss) (andthen (update_stock E (st_ID r) (set_quantity (ch_Quantity q)))
      (andthen (Emit E ''StockAdjusted'' p) (ret v)))
      (\<lambda>v w. adjusts E q ss (stocks (db w)) \<and> (\<exists>p. announced ''StockAdjusted'' p w))"
    if "0 \<le> ch_Quantity q" "ch_Quantity q \<le> 1000000000" "st_Reserved r \<le> ch_Quantity q" "ch_Reason q \<noteq> []"
      "\<not> (st_LocationID r = None \<and> 0 < i64 (ch_Quantity q - st_Quantity r))" for p v
  proof (rule leads_update_at [OF id r])
    fix r' assume "set_quantity (ch_Quantity q) r = Some r'"
    then have "adjusts E q ss (put_lot E r' ss)"
      unfolding adjusts_def using that d [OF that(1,2)] r q
      by (intro exI [of _ r]) (auto dest!: set_quantity_Some)
    then show "leads (lots_are (put_lot E r' ss)) (andthen (Emit E ''StockAdjusted'' p) (ret v))
        (\<lambda>v w. adjusts E q ss (stocks (db w)) \<and> (\<exists>p. announced ''StockAdjusted'' p w))"
      by (intro leads_announce) auto
  qed simp
  have loc: "keeps (lots_are ss) (case l of None \<Rightarrow> ret () | Some a \<Rightarrow> if b then capacity E S x a n else ret ())" for l b x n
    by (cases l) (auto intro: keeps_ret keeps_lots_capacity)
  show ?thesis unfolding adjust_def Let_def truncate_fields
    by (intro leads_guard keeps_andthen [OF loc] upd) (auto simp: not_less not_le)
qed

section \<open>Changes\<close>

lemma Change_at:
  assumes "\<And>r. find_row st_ID (st_ID r) ss = Some r \<Longrightarrow> pg_uuid E (ch_StockID q) = Some (st_ID r) \<Longrightarrow>
    leads (lots_are ss) (if action = ''adjust'' then adjust E S (Stock.truncate r) q
      else take_off E S action (Stock.truncate r) q) K"
  shows "leads (lots_are ss) (Change E S action q) K"
  unfolding Change_def
proof (intro keeps_andthen [OF keeps_world(5) [where J = "\<lambda>d. stocks d = ss"]] leads_stock_at keeps_andthen [OF keeps_world(4) [where J = "\<lambda>d. stocks d = ss"]])
  fix u r assume "pg_uuid E (ch_StockID q) = Some u" "find_row st_ID u ss = Some r"
  then show "leads (lots_are ss) (if action = ''adjust'' then adjust E S (Stock.truncate r) q
      else take_off E S action (Stock.truncate r) q) K"
    using find_row_SomeD [of st_ID u ss r] by (intro assms) auto
qed

section \<open>Receipts\<close>

definition product_reply :: "env \<Rightarrow> service \<Rightarrow> string \<Rightarrow> err + Product" where
  "product_reply E S i = reply_value (decode_struct False product_fields) zero_Product
     (http_get E (ProductURL S @ ''/products/'' @ i))"

definition received_payload :: "Stock \<Rightarrow> gobj" where
  "received_payload x = [(''stockId'', GStr (st_ID x)), (''productId'', GStr (st_ProductID x)),
     (''warehouseId'', GStr (st_WarehouseID x)), (''quantity'', GI64 (st_Quantity x)),
     (''weight'', GF64 (st_Weight x)), (''volume'', GF64 (st_Volume x)),
     (''storageType'', GStr (st_StorageType x))]"

text \<open>A receipt adds one unplaced, unreserved lot with the sizes of an active product.\<close>

definition receives ::
  "env \<Rightarrow> service \<Rightarrow> Receive_req \<Rightarrow> stock_row list \<Rightarrow> Stock \<Rightarrow> stock_row list \<Rightarrow> bool" where
  "receives E S q ss x ss' = (\<exists>i pid wid product.
       product_reply E S (rq_ProductID q) = Inr product \<and> pr_Active product
     \<and> pg_uuid E (st_ID x) = Some i \<and> i \<notin> st_ID ` set ss
     \<and> pg_uuid E (rq_ProductID q) = Some pid \<and> pg_uuid E (rq_WarehouseID q) = Some wid
     \<and> 0 < rq_Quantity q \<and> rq_Quantity q \<le> 1000000000 \<and> rq_Batch q \<noteq> []
     \<and> st_ProductID x = rq_ProductID q \<and> st_WarehouseID x = rq_WarehouseID q \<and> st_LocationID x = None
     \<and> st_Quantity x = rq_Quantity q \<and> st_Reserved x = 0 \<and> st_Batch x = rq_Batch q
     \<and> (rq_Expiration q = [] \<longrightarrow> st_Expiration x = None)
     \<and> (rq_Expiration q \<noteq> [] \<longrightarrow> st_Expiration x = parse_date (rq_Expiration q) \<and> st_Expiration x \<noteq> None)
     \<and> st_Weight x = pr_Weight product \<and> st_Volume x = pr_Volume product \<and> st_StorageType x = pr_StorageType product
     \<and> ss' = ss @ [stored_row E x i pid wid None])"

lemma receive_expiry_value:
  assumes "\<And>d. (s = [] \<longrightarrow> d = None) \<and> (s \<noteq> [] \<longrightarrow> d = parse_date s \<and> d \<noteq> None) \<Longrightarrow> leads (lots_are ss) (f d) K"
  shows "leads (lots_are ss) (bnd (receive_expiry E s) f) K"
  using assms by (auto simp: leads_def wp_bnd receive_expiry_def wp_simps)

lemma leads_Get:
  assumes "\<And>v. reply_value d z (http_get E url) = Inr v \<Longrightarrow> leads (lots_are ss) (f v) K"
  shows "leads (lots_are ss) (bnd (Get E d z url) f) K"
  using assms by (simp add: leads_def wp_bnd wp_Get)

lemma Receive_effect:
  "leads (lots_are ss) (Receive E S q)
     (\<lambda>v w. \<exists>x. v = stock_gov x \<and> receives E S q ss x (stocks (db w)) \<and> announced ''GoodsReceived'' (received_payload x) w)"
  unfolding Receive_def Let_def
proof (intro keeps_andthen [OF keeps_world(5) [where J = "\<lambda>d. stocks d = ss"]]
    keeps_andthen [OF keeps_world(4) [where J = "\<lambda>d. stocks d = ss"]] leads_guard leads_Get receive_expiry_value
    keeps_bnd [OF keeps_world(2) [where J = "\<lambda>d. stocks d = ss"]] leads_insert_at)
  fix product :: Product and warehouse d i and j pid wid loc
  let ?x = "\<lparr>st_ID = i, st_ProductID = rq_ProductID q, st_WarehouseID = rq_WarehouseID q, st_LocationID = None,
    st_Quantity = rq_Quantity q, st_Reserved = 0, st_Batch = rq_Batch q, st_Expiration = d,
    st_Weight = pr_Weight product, st_Volume = pr_Volume product, st_StorageType = pr_StorageType product\<rparr>"
  assume a: "\<not> (rq_Quantity q \<le> 0 \<or> 1000000000 < rq_Quantity q \<or> rq_Batch q = [])"
    "reply_value (decode_struct False product_fields) zero_Product
       (http_get E (ProductURL S @ ''/products/'' @ rq_ProductID q)) = Inr product"
    "\<not> \<not> pr_Active product"
    "(rq_Expiration q = [] \<longrightarrow> d = None) \<and> (rq_Expiration q \<noteq> [] \<longrightarrow> d = parse_date (rq_Expiration q) \<and> d \<noteq> None)"
    "pg_uuid E (st_ID ?x) = Some j" "pg_uuid E (st_ProductID ?x) = Some pid" "pg_uuid E (st_WarehouseID ?x) = Some wid"
    "case st_LocationID ?x of None \<Rightarrow> loc = None | Some t \<Rightarrow> \<exists>u. pg_uuid E t = Some u \<and> loc = Some u"
    "j \<notin> st_ID ` set ss"
  then have r: "receives E S q ss ?x (ss @ [stored_row E ?x j pid wid loc])"
    unfolding receives_def product_reply_def
    by (intro exI [of _ j] exI [of _ pid] exI [of _ wid] exI [of _ product]) auto
  show "leads (lots_are (ss @ [stored_row E ?x j pid wid loc]))
     (andthen (Emit E ''GoodsReceived'' [(''stockId'', GStr (st_ID ?x)), (''productId'', GStr (st_ProductID ?x)),
           (''warehouseId'', GStr (st_WarehouseID ?x)), (''quantity'', GI64 (st_Quantity ?x)),
           (''weight'', GF64 (st_Weight ?x)), (''volume'', GF64 (st_Volume ?x)),
           (''storageType'', GStr (st_StorageType ?x))]) (ret (stock_gov ?x)))
     (\<lambda>v w. \<exists>x. v = stock_gov x \<and> receives E S q ss x (stocks (db w)) \<and> announced ''GoodsReceived'' (received_payload x) w)"
    unfolding received_payload_def [of ?x, symmetric] by (rule leads_announce) (use r in auto)
qed

section \<open>Placing\<close>

text \<open>A placement gives an unplaced lot with something left its location; otherwise nothing changes.\<close>

definition places :: "env \<Rightarrow> gobj \<Rightarrow> stock_row list \<Rightarrow> stock_row list \<Rightarrow> bool" where
  "places E p ss ss' = (\<exists>r. find_row st_ID (st_ID r) ss = Some r \<and> pg_uuid E (p_String p ''stockId'') = Some (st_ID r)
     \<and> st_WarehouseID r = p_String p ''warehouseId''
     \<and> (if st_LocationID r \<noteq> None \<or> st_Quantity r = 0 then ss' = ss
        else \<exists>l. pg_uuid E (p_String p ''locationId'') = Some l \<and> ss' = put_lot E (r\<lparr>st_LocationID := Some l\<rparr>) ss))"

lemma place_effect:
  assumes g: "good_lots (pg_uuid E) ss"
  shows "leads (lots_are ss) (place E S p) (\<lambda>_ w. places E p ss (stocks (db w)))"
  unfolding place_def Let_def
proof (intro leads_stock_at leads_guard leads_if)
  fix u r
  assume u: "pg_uuid E (p_String p ''stockId'') = Some u" "find_row st_ID u ss = Some r"
    and w: "\<not> st_WarehouseID (Stock.truncate r) \<noteq> p_String p ''warehouseId''"
  have id: "st_ID r = u" using find_row_SomeD [OF u(2)] by simp
  note facts = good_lots_find [OF g u(2)]
  have c: "pg_uuid E (st_ID r) = Some (st_ID r)" using facts(4) by (simp add: canonical_def)
  { assume "st_LocationID (Stock.truncate r) \<noteq> None \<or> st_Quantity (Stock.truncate r) = 0"
    then have "places E p ss ss" unfolding places_def using u w id by (intro exI [of _ r]) auto
    then show "leads (lots_are ss) (ret ()) (\<lambda>_ w. places E p ss (stocks (db w)))" by (intro leads_ret) simp }
  { assume n: "\<not> (st_LocationID (Stock.truncate r) \<noteq> None \<or> st_Quantity (Stock.truncate r) = 0)"
    have r: "find_row st_ID (st_ID r) ss = Some r" using u(2) id by simp
    have emit: "leads (lots_are (put_lot E r' ss)) (Emit E ''StockAdded'' z) (\<lambda>_ w. places E p ss (stocks (db w)))"
      if "places E p ss (put_lot E r' ss)" for r' z
      by (rule leads_weaken [OF lots.keeps_Emit [where C = "\<lambda>s. s = put_lot E r' ss"]]) (use that in simp)
    have upd: "leads (lots_are ss) (andthen (update_stock E (st_ID r) (set_location l)) (Emit E ''StockAdded'' z))
        (\<lambda>_ w. places E p ss (stocks (db w)))" if l: "pg_uuid E (p_String p ''locationId'') = Some l" for l z
    proof (rule leads_update_at [OF c r])
      fix r' assume "set_location l r = Some r'"
      then have "r' = r\<lparr>st_LocationID := Some l\<rparr>" by (simp add: set_location_def)
      then have "places E p ss (put_lot E r' ss)"
        unfolding places_def using u w id n l by (intro exI [of _ r]) auto
      then show "leads (lots_are (put_lot E r' ss)) (Emit E ''StockAdded'' z) (\<lambda>_ w. places E p ss (stocks (db w)))"
        by (rule emit)
    qed simp
    show "leads (lots_are ss) (andthen (ID E (p_String p ''locationId''))
        (andthen (capacity E S (Stock.truncate r) (p_String p ''locationId'') (st_Quantity (Stock.truncate r)))
        (bnd (sql_uuid E (p_String p ''locationId'')) (\<lambda>l.
          andthen (update_stock E (st_ID (Stock.truncate r)) (set_location l))
          (Emit E ''StockAdded''
            [(''stockId'', GStr (st_ID (Stock.truncate r))), (''productId'', GStr (st_ProductID (Stock.truncate r))),
             (''warehouseId'', GStr (st_WarehouseID (Stock.truncate r))), (''locationId'', GStr (p_String p ''locationId'')),
             (''quantity'', GI64 (st_Quantity (Stock.truncate r)))])))))
        (\<lambda>_ w. places E p ss (stocks (db w)))"
      unfolding truncate_fields
      by (intro keeps_andthen [OF keeps_world(5) [where J = "\<lambda>d. stocks d = ss"]] keeps_andthen [OF keeps_lots_capacity] leads_sql_uuid upd) }
qed

end
