(* ===== verification/Inventory_Effects.thy ===== *)
theory Inventory_Effects
  imports Scenario Inventory_Operations
begin

text \<open>
  What each stock operation of the inventory service does, on every successful run from a
  reachable state, and what the capacity ledger admits.
\<close>

section \<open>Moves, write-offs and adjustments\<close>

text \<open>The effect of an action on the lots, the event it announces, and the change of the stock on hand.\<close>

definition changed_lots :: "env \<Rightarrow> string \<Rightarrow> Change_req \<Rightarrow> stock_row list \<Rightarrow> stock_row list \<Rightarrow> bool" where
  "changed_lots E action q ss ss' =
     (if action = ''move'' then moves E q ss ss'
      else if action = ''adjust'' then adjusts E q ss ss' else writes_off E q ss ss')"

definition change_event :: "string \<Rightarrow> string" where
  "change_event action = (if action = ''move'' then ''StockMoved''
     else if action = ''adjust'' then ''StockAdjusted'' else ''StockWrittenOff'')"

definition on_hand_change :: "string \<Rightarrow> Change_req \<Rightarrow> stock_row \<Rightarrow> int" where
  "on_hand_change action q r = (if action = ''move'' then 0
     else if action = ''adjust'' then ch_Quantity q - st_Quantity r else - ch_Quantity q)"

lemma Change_effect:
  assumes g: "good_lots (pg_uuid E) ss"
  shows "leads (lots_are ss) (Change E S action q)
    (\<lambda>v w. changed_lots E action q ss (stocks (db w)) \<and> (\<exists>p. announced (change_event action) p w))"
proof (rule Change_at)
  fix r assume r: "find_row st_ID (st_ID r) ss = Some r" "pg_uuid E (ch_StockID q) = Some (st_ID r)"
  let ?K = "\<lambda>v w. changed_lots E action q ss (stocks (db w)) \<and> (\<exists>p. announced (change_event action) p w)"
  consider "action = ''adjust''" | "action = ''move''" | "action \<noteq> ''adjust''" "action \<noteq> ''move''" by blast
  then show "leads (lots_are ss) (if action = ''adjust'' then adjust E S (Stock.truncate r) q
      else take_off E S action (Stock.truncate r) q) ?K"
  proof cases
    case 1
    have "leads (lots_are ss) (adjust E S (Stock.truncate r) q) ?K"
      by (rule leads_weaken [OF adjust_effect [OF g r]]) (simp add: changed_lots_def change_event_def 1)
    then show ?thesis unfolding if_P [OF 1] .
  next
    case 2
    have "leads (lots_are ss) (take_off E S ''move'' (Stock.truncate r) q) ?K"
      by (rule leads_weaken [OF take_off_move [OF g r]]) (unfold changed_lots_def change_event_def if_P [OF 2], blast)
    then show ?thesis using 2 by simp
  next
    case 3
    have "leads (lots_are ss) (take_off E S action (Stock.truncate r) q) ?K"
      by (rule leads_weaken [OF take_off_write_off [OF g r 3(2)]])
        (simp only: changed_lots_def change_event_def 3 if_False, blast)
    then show ?thesis using 3(1) by simp
  qed
qed

lemma reachable_good_lots:
  "uuid_law P \<Longrightarrow> inventory_reachable P S w \<Longrightarrow> good_lots P (stocks (db w))"
  by (blast intro: good_lots_inv reachable_inventory_ok)

text \<open>
  C8: a successful move, write-off or adjustment does exactly what it says: a move takes unreserved
  pieces off the lot and puts them into a new lot at the destination with the same product, batch,
  expiry and sizes; a write-off only takes unreserved pieces off; an adjustment sets the quantity,
  never below what is reserved. No other lot changes, and the event of the action is announced.
\<close>

theorem change_does:
  assumes "uuid_law P" "inventory_reachable P S w" "pg_uuid E = P" "Change E S action q w = (Inr v, w')"
  shows "changed_lots E action q (stocks (db w)) (stocks (db w')) \<and> (\<exists>p. announced (change_event action) p w')"
  by (rule leads_result [OF Change_effect _ assms(4)]) (use reachable_good_lots [OF assms(1,2)] assms(3) in simp_all)

definition demo_move :: Change_req where
  "demo_move = \<lparr>ch_StockID = ''u'', ch_ToLocationID = ''l1'', ch_Quantity = 4, ch_Reason = []\<rparr>"

definition demo_moved :: "idb world" where
  "demo_moved = snd (Change demo_env demo_service ''move'' demo_move demo_received)"

lemma demo_move_run: "\<exists>v. Change demo_env demo_service ''move'' demo_move demo_received = (Inr v, demo_moved)"
proof -
  have "case fst (Change demo_env demo_service ''move'' demo_move demo_received) of Inr _ \<Rightarrow> True | Inl _ \<Rightarrow> False"
    by code_simp
  then show ?thesis unfolding demo_moved_def by (cases "Change demo_env demo_service ''move'' demo_move demo_received")
      (auto split: sum.splits)
qed

theorem change_does_witness:
  "moves demo_env demo_move (stocks (db demo_received)) (stocks (db demo_moved))
   \<and> map st_Quantity (stocks (db demo_moved)) = [6, 4]"
proof -
  obtain v where v: "Change demo_env demo_service ''move'' demo_move demo_received = (Inr v, demo_moved)"
    using demo_move_run by blast
  have "map st_Quantity (stocks (db demo_moved)) = [6, 4]" by code_simp
  with change_does [OF demo_uuid_law demo_received_reachable demo_env_uuid v] show ?thesis
    by (simp add: changed_lots_def)
qed

text \<open>
  C9: the stock on hand balances: a move leaves the quantity of every product in every warehouse
  as it was, a write-off lowers that of its own product and warehouse by the amount asked for, an
  adjustment changes it by the difference to the old quantity.
\<close>

theorem stock_balances:
  assumes "uuid_law P" "inventory_reachable P S w" "pg_uuid E = P" "Change E S action q w = (Inr v, w')"
  shows "\<exists>r. find_row st_ID (st_ID r) (stocks (db w)) = Some r \<and> P (ch_StockID q) = Some (st_ID r) \<and>
    (\<forall>p u. on_hand p u (stocks (db w')) = on_hand p u (stocks (db w)) +
       (if st_ProductID r = p \<and> st_WarehouseID r = u then on_hand_change action q r else 0))"
proof -
  have g: "good_lots P (stocks (db w))" by (rule reachable_good_lots [OF assms(1,2)])
  then have d: "distinct (map st_ID (stocks (db w)))" by (simp add: good_lots_def)
  have c: "changed_lots E action q (stocks (db w)) (stocks (db w'))"
    using leads_result [OF Change_effect _ assms(4)] g assms(3) by simp
  show ?thesis
  proof (cases "action = ''move''")
    case True
    then have m: "moves E q (stocks (db w)) (stocks (db w'))" using c by (simp add: changed_lots_def)
    then obtain r where "find_row st_ID (st_ID r) (stocks (db w)) = Some r" "pg_uuid E (ch_StockID q) = Some (st_ID r)"
      by (auto simp: moves_def)
    then show ?thesis using moves_on_hand [OF g m] True assms(3) by (auto simp: on_hand_change_def)
  next
    case False
    then obtain r n where r: "find_row st_ID (st_ID r) (stocks (db w)) = Some r" "pg_uuid E (ch_StockID q) = Some (st_ID r)"
      and s: "stocks (db w') = put_lot E (r\<lparr>st_Quantity := n\<rparr>) (stocks (db w))" "n - st_Quantity r = on_hand_change action q r"
      using c by (auto simp: changed_lots_def adjusts_def writes_off_def on_hand_change_def split: if_splits)
    then show ?thesis using assms(3) on_hand_put [OF d r(1), of "r\<lparr>st_Quantity := n\<rparr>"]
      by (intro exI [of _ r]) auto
  qed
qed

theorem stock_balances_witness:
  "on_hand ''p1'' ''w1'' (stocks (db demo_moved)) = 10"
proof -
  obtain v where v: "Change demo_env demo_service ''move'' demo_move demo_received = (Inr v, demo_moved)"
    using demo_move_run by blast
  have "on_hand ''p1'' ''w1'' (stocks (db demo_received)) = 10" by code_simp
  then show ?thesis
    using stock_balances [OF demo_uuid_law demo_received_reachable demo_env_uuid v] by (auto simp: on_hand_change_def)
qed

section \<open>Receipts and placements\<close>

text \<open>
  C10: a successful receipt adds exactly one lot, unplaced and unreserved, with the requested
  product, warehouse, quantity, batch and expiry and the sizes the product service reported for an
  active product; it replies with that lot and announces it.
\<close>

theorem receipt_adds_lot:
  assumes "Receive E S q w = (Inr v, w')"
  shows "\<exists>x. v = stock_gov x \<and> receives E S q (stocks (db w)) x (stocks (db w'))
    \<and> announced ''GoodsReceived'' (received_payload x) w'"
  by (rule leads_result [OF Receive_effect _ assms]) simp

theorem receipt_adds_lot_witness:
  "\<exists>x. stock_gov demo_lot = stock_gov x \<and> receives demo_env demo_service demo_goods [] x
     (stocks (db (snd (Receive demo_env demo_service demo_goods demo_start))))"
proof -
  let ?r = "Receive demo_env demo_service demo_goods demo_start"
  have "fst ?r = Inr (stock_gov demo_lot)" by code_simp
  then have r: "?r = (Inr (stock_gov demo_lot), snd ?r)" by (metis prod.collapse)
  have "stocks (db demo_start) = []" by (simp add: demo_start_def empty_idb_def)
  with receipt_adds_lot [OF r] show ?thesis by auto
qed

text \<open>
  C19: a successful placement gives exactly the lot of the assignment, which belongs to the named
  warehouse, its location, if it had none and something of it is left; in every other case it
  changes no lot.
\<close>

theorem placement_places:
  assumes "uuid_law P" "inventory_reachable P S w" "pg_uuid E = P" "place E S p w = (Inr (), w')"
  shows "places E p (stocks (db w)) (stocks (db w'))"
  by (rule leads_result [OF place_effect _ assms(4)]) (use reachable_good_lots [OF assms(1,2)] assms(3) in simp_all)

definition demo_assignment :: gobj where
  "demo_assignment = [(''stockId'', GStr ''u''), (''warehouseId'', GStr ''w1''), (''locationId'', GStr ''l1'')]"

theorem placement_places_witness:
  "\<exists>w'. place demo_env demo_service demo_assignment demo_received = (Inr (), w')
    \<and> places demo_env demo_assignment (stocks (db demo_received)) (stocks (db w'))
    \<and> map st_LocationID (stocks (db w')) = [Some ''l1'']"
proof -
  let ?r = "place demo_env demo_service demo_assignment demo_received"
  have f: "fst ?r = Inr ()" "map st_LocationID (stocks (db (snd ?r))) = [Some ''l1'']" by code_simp+
  then have r: "?r = (Inr (), snd ?r)" by (metis prod.collapse)
  show ?thesis
    by (intro exI [of _ "snd ?r"] conjI r f(2) placement_places [OF demo_uuid_law demo_received_reachable demo_env_uuid r])
qed

text \<open>
  The comparison of the warehouses is one of texts, and a lot keeps the canonical text: an
  assignment that names the warehouse in another spelling of its UUID never goes through.
\<close>

lemma place_needs_canonical:
  assumes "uuid_law P" "inventory_reachable P S w" "pg_uuid E = P" "place E S p w = (Inr (), w')"
  shows "P (p_String p ''warehouseId'') = Some (p_String p ''warehouseId'')"
proof -
  have g: "good_lots P (stocks (db w))" by (rule reachable_good_lots [OF assms(1,2)])
  then have "places E p (stocks (db w)) (stocks (db w'))"
    using leads_result [OF place_effect _ assms(4)] assms(3) by simp
  then obtain r where r: "find_row st_ID (st_ID r) (stocks (db w)) = Some r" "st_WarehouseID r = p_String p ''warehouseId''"
    unfolding places_def by blast
  then show ?thesis using good_lots_find(4) [OF g r(1)] by (simp add: canonical_def)
qed

text \<open>
  An assignment of a lot that has a location by then, or of which nothing is left, succeeds without
  any event: nothing tells the placement service that its job is settled.
\<close>

lemma settled_lot_silent:
  assumes "pg_uuid E (p_String p ''stockId'') = Some i" "find_row st_ID i (stocks (db w)) = Some r"
    and "st_WarehouseID r = p_String p ''warehouseId''" "st_LocationID r \<noteq> None \<or> st_Quantity r = 0"
  shows "place E S p w = (Inr (), w)"
proof -
  have "wp (place E S p) (\<lambda>_ w'. w' = w) (\<lambda>_ _. False) w"
    using assms by (auto simp: place_def stock_def wp_simps Stock.truncate_def)
  from wp_success [OF this] show ?thesis by auto
qed

section \<open>The capacity ledger\<close>

text \<open>
  C11: an inflow is admitted only into a location that the warehouse service reports as belonging
  to the lot's warehouse, being in service and storing the lot's type, and only while the new
  weight and volume stay within its limits (up to the tolerance); the ledger row then holds
  exactly the sums, clamped at zero, and the next revision, and one unpublished
  \<open>LocationCapacityChanged\<close> event is appended to the outbox, whose payload tells the location, the
  warehouse and the row's new weight, volume and revision.
\<close>

theorem inflow_within_limits:
  assumes "uuid_law P" "inventory_reachable P S w" "pg_uuid E = P" "0 < n" "capacity E S x l n w = (Inr (), w')"
  shows "\<exists>u c loc. P l = Some u \<and> location_reply E S l = Inr loc \<and> accepts x loc
    \<and> find_row cap_location u (cap_ensure u (cap_warehouse c) (capacities (db w))) = Some c
    \<and> fits_limit (ledger_add (cap_weight c) n (st_Weight x)) (lo_MaxWeight loc)
    \<and> fits_limit (ledger_add (cap_volume c) n (st_Volume x)) (lo_MaxVolume loc)
    \<and> find_row cap_location u (capacities (db w')) = Some (ledger_row x n c)
    \<and> (\<forall>k. k \<noteq> u \<longrightarrow> find_row cap_location k (capacities (db w')) = find_row cap_location k (capacities (db w)))
    \<and> stocks (db w') = stocks (db w) \<and> outbox (db w') = outbox (db w) @ [last (outbox (db w'))]
    \<and> announced ''LocationCapacityChanged''
        [(''locationId'', GStr l), (''warehouseId'', GStr (st_WarehouseID x)),
         (''currentWeight'', GF64 (cap_weight (ledger_row x n c))),
         (''currentVolume'', GF64 (cap_volume (ledger_row x n c))),
         (''revision'', GI64 (cap_revision (ledger_row x n c)))] w'"
proof -
  have t: "tables_ok P (db w)" using reachable_inventory_ok [OF assms(1,2)] by (simp add: inv_with_def)
  have "wp (capacity E S x l n) (\<lambda>_ w'. capacity_moved E S x l n w w') anyerr w"
    by (rule wp_capacityI [OF t]) simp
  then have "capacity_moved E S x l n w w'" using wp_result [where m = "capacity E S x l n" and s = w] assms(5) by metis
  then obtain u wid c row loc where m: "pg_uuid E l = Some u"
    "find_row cap_location u (cap_ensure u wid (capacities (db w))) = Some c"
    "db w' = (db w)\<lparr>capacities := update_rows cap_location u (\<lambda>_. ledger_row x n c)
        (cap_ensure u wid (capacities (db w))), outbox := outbox (db w) @ [row]\<rparr>"
    "location_reply E S l = Inr loc" "accepts x loc"
    "fits_limit (ledger_add (cap_weight c) n (st_Weight x)) (lo_MaxWeight loc)"
    "fits_limit (ledger_add (cap_volume c) n (st_Volume x)) (lo_MaxVolume loc)"
    and e: "ob_type row = ''LocationCapacityChanged''" "ob_published row = None"
    "ev_type (ob_body row) = ''LocationCapacityChanged''" "ev_version (ob_body row) = 1"
    "marshal (GObj (capacity_payload x l (ledger_row x n c))) = Some (ev_payload (ob_body row))"
    using assms(4) unfolding capacity_moved_def by blast
  have key: "cap_location (ledger_row x n c) = u" using find_row_SomeD [OF m(2)] by (simp add: ledger_row_def)
  have same: "find_row cap_location u (cap_ensure u (cap_warehouse c) (capacities (db w))) = Some c"
    using m(2) by (auto simp: cap_ensure_def find_row_append cap_zero_def split: if_splits)
  have "find_row cap_location k (cap_ensure u wid (capacities (db w))) = find_row cap_location k (capacities (db w))"
    if "k \<noteq> u" for k
    using that by (auto simp: cap_ensure_def find_row_append cap_zero_def split: option.split)
  then have "find_row cap_location k (capacities (db w')) = (if k = u then Some (ledger_row x n c)
      else find_row cap_location k (capacities (db w)))" for k
    using m(2) by (simp add: m(3) find_row_update_const [where key = cap_location, OF key])
  moreover have "announced ''LocationCapacityChanged'' (capacity_payload x l (ledger_row x n c)) w'"
    using e unfolding announced_def m(3) by simp
  ultimately show ?thesis using m same assms(3)
    by (intro exI [of _ u] exI [of _ c] exI [of _ loc]) (simp add: capacity_payload_def)
qed

theorem inflow_within_limits_witness:
  "\<exists>w'. capacity demo_env demo_service demo_lot ''l1'' 10 demo_received = (Inr (), w')
    \<and> location_reply demo_env demo_service ''l1'' \<noteq> Inl not_found_stock
    \<and> map cap_weight (capacities (db w')) = [Fin 20]
    \<and> ob_type (last (outbox (db w'))) = ''LocationCapacityChanged''"
proof -
  let ?r = "capacity demo_env demo_service demo_lot ''l1'' 10 demo_received"
  have f: "fst ?r = Inr ()" "map cap_weight (capacities (db (snd ?r))) = [Fin 20]" by code_simp+
  then have r: "?r = (Inr (), snd ?r)" by (metis prod.collapse)
  have "0 < (10 :: int)" by simp
  from inflow_within_limits [OF demo_uuid_law demo_received_reachable demo_env_uuid this r]
  obtain loc p where "location_reply demo_env demo_service ''l1'' = Inr loc" "announced ''LocationCapacityChanged'' p (snd ?r)"
    by (elim exE conjE)
  then show ?thesis using f(2) r unfolding announced_def by (intro exI [of _ "snd ?r"]) simp
qed

text \<open>
  For whole-numbered sizes the ledger is exact: as long as the amounts stay below \<open>2^53\<close> the
  rounded arithmetic loses nothing, and taking off what was put in restores the total.
\<close>

lemma ledger_exact:
  assumes "\<bar>t\<bar> \<le> 2 ^ 53" "\<bar>n\<bar> \<le> 2 ^ 53" "\<bar>n * k\<bar> \<le> 2 ^ 53" "\<bar>t + n * k\<bar> \<le> 2 ^ 53"
  shows "ledger_add (Fin (of_int t)) n (Fin (of_int k)) = Fin (of_int (t + n * k))
    \<and> ledger_add (ledger_add (Fin (of_int t)) n (Fin (of_int k))) (- n) (Fin (of_int k)) = Fin (of_int t)"
proof -
  have step: "ledger_add (Fin (of_int a)) m (Fin (of_int k)) = Fin (of_int (a + m * k))"
    if "\<bar>m\<bar> \<le> 2 ^ 53" "\<bar>m * k\<bar> \<le> 2 ^ 53" "\<bar>a + m * k\<bar> \<le> 2 ^ 53" for a m
  proof -
    have "fmul (f64_of_int m) (Fin (of_int k)) = Fin (of_int (m * k))"
      using rne_int [OF that(2)] by (simp add: f64_of_int_small [OF that(1)])
    then show ?thesis using rne_int [OF that(3)] by (simp add: ledger_add_def)
  qed
  show ?thesis using step [of n t] step [of "- n" "t + n * k"] assms by simp
qed

text \<open>
  For other sizes it is not: a billion pieces of \<open>1.1\<close>, put into an empty location and taken off
  in two steps, leave a total below the tolerance of the invariant check, which then refuses the
  second step.
\<close>

lemma ledger_drift:
  "flt (ledger_add (ledger_add (ledger_add (Fin 0) 1000000000 (rne (11 / 10))) (- 7) (rne (11 / 10)))
     (- 999999993) (rne (11 / 10))) under_tolerance"
  by code_simp

end
