(* ===== verification/Reservation_Operations.thy ===== *)
theory Reservation_Operations
  imports Inventory_Operations
begin

text \<open>
  The functional behaviour of reservations: the allocation loop refines a greedy choice from the
  lots in expiry order, a confirmed reservation holds exactly what was asked for, releasing and
  shipping give back exactly what was held.
\<close>

section \<open>The greedy choice\<close>

text \<open>The abstract allocation: take from each lot in turn as much as is still wanted.\<close>

fun greedy :: "(string \<times> int) list \<Rightarrow> int \<Rightarrow> (string \<times> int) list" where
  "greedy [] n = []"
| "greedy ((lot, m) # lots) n =
     (let t = min n m in if t \<le> 0 then [] else (lot, t) # greedy lots (n - t))"

definition total_of :: "(string \<times> int) list \<Rightarrow> int" where
  "total_of xs = (\<Sum>x\<leftarrow>xs. snd x)"

lemma total_of_simps [simp]: "total_of [] = 0" "total_of (x # xs) = snd x + total_of xs"
  by (simp_all add: total_of_def)

lemma total_of_nonneg: "\<forall>x \<in> set xs. 0 < snd x \<Longrightarrow> 0 \<le> total_of xs"
  by (induction xs) auto

lemma greedy_total:
  assumes "\<forall>x \<in> set lots. 0 < snd x" "0 \<le> n"
  shows "total_of (greedy lots n) = min n (total_of lots)"
  using assms
proof (induction lots n rule: greedy.induct)
  case (2 lot m lots n)
  then show ?case using total_of_nonneg [of lots] by (auto simp: Let_def min_def)
qed simp

lemma greedy_positive: "x \<in> set (greedy lots n) \<Longrightarrow> 0 < snd x"
  by (induction lots n rule: greedy.induct) (auto simp: Let_def split: if_splits)

text \<open>Every lot but the last one drawn from is emptied: a later lot is touched only when the
  earlier ones are exhausted.\<close>

lemma greedy_exhausts:
  assumes "\<forall>x \<in> set lots. 0 < snd x" "0 < n" "lots \<noteq> []"
  shows "\<exists>pre l m t post. lots = pre @ (l, m) # post \<and> greedy lots n = pre @ [(l, t)] \<and> 0 < t \<and> t \<le> m"
  using assms
proof (induction lots n rule: greedy.induct)
  case (2 lot m lots n)
  show ?case
  proof (cases "m < n \<and> lots \<noteq> []")
    case True
    then have t: "min n m = m" "\<not> m \<le> 0" using 2(2) by auto
    have "\<exists>pre l k t post. lots = pre @ (l, k) # post \<and> greedy lots (n - min n m) = pre @ [(l, t)] \<and> 0 < t \<and> t \<le> k"
      by (rule "2.IH" [OF refl]) (use 2(2) t True in auto)
    then obtain pre l k t post where "lots = pre @ (l, k) # post" "greedy lots (n - m) = pre @ [(l, t)]" "0 < t" "t \<le> k"
      unfolding t(1) by blast
    then show ?thesis using t
      by (intro exI [of _ "(lot, m) # pre"] exI [of _ l] exI [of _ k] exI [of _ t] exI [of _ post]) (simp add: Let_def)
  next
    case False
    have "greedy lots (n - min n m) = []"
      using False by (cases lots) (auto simp: Let_def min_def)
    then show ?thesis using 2(2,3)
      by (intro exI [of _ "[]"] exI [of _ lot] exI [of _ m] exI [of _ "min n m"] exI [of _ lots]) (auto simp: Let_def)
  qed
qed simp

section \<open>The allocation loop refines it\<close>

definition alloc_rows :: "string \<Rightarrow> (string \<times> int) list \<Rightarrow> allocation_row list" where
  "alloc_rows rid xs = map (\<lambda>x. \<lparr>al_reservation = rid, al_stock = fst x, al_quantity = snd x\<rparr>) xs"

fun reserve_rows :: "env \<Rightarrow> (string \<times> int) list \<Rightarrow> stock_row list \<Rightarrow> stock_row list" where
  "reserve_rows E [] ss = ss"
| "reserve_rows E ((l, t) # xs) ss =
     reserve_rows E xs (update_rows st_ID l (\<lambda>r. r\<lparr>st_Reserved := st_Reserved r + t, st_updated := pg_now E\<rparr>) ss)"

definition lot_ready :: "env \<Rightarrow> idb \<Rightarrow> string \<Rightarrow> int \<Rightarrow> bool" where
  "lot_ready E d l m = (pg_uuid E l = Some l \<and> is_i64 m
     \<and> (\<exists>r. find_row st_ID l (stocks d) = Some r \<and> stock_ok r \<and> st_Reserved r + m \<le> st_Quantity r))"

definition lots_ready :: "env \<Rightarrow> string \<Rightarrow> (string \<times> int) list \<Rightarrow> idb \<Rightarrow> bool" where
  "lots_ready E rid lots d = (distinct (map st_ID (stocks d)) \<and> find_row res_id rid (reservations d) \<noteq> None
     \<and> distinct (map fst lots) \<and> (\<forall>x \<in> set lots. lot_ready E d (fst x) (snd x)))"

text \<open>The reservation already holds an allocation on the lot, or on one of those it draws from.\<close>

definition booked :: "string \<Rightarrow> idb \<Rightarrow> string \<Rightarrow> bool" where
  "booked rid d l = (\<exists>a \<in> set (allocations d). al_reservation a = rid \<and> al_stock a = l)"

definition collides :: "string \<Rightarrow> (string \<times> int) list \<Rightarrow> idb \<Rightarrow> bool" where
  "collides rid xs d = (\<exists>x \<in> set xs. booked rid d (fst x))"

text \<open>The database after one lot has been drawn from.\<close>

definition drawn :: "env \<Rightarrow> string \<Rightarrow> string \<Rightarrow> int \<Rightarrow> idb \<Rightarrow> idb" where
  "drawn E rid l t d = d\<lparr>stocks := update_rows st_ID l
       (\<lambda>r. r\<lparr>st_Reserved := st_Reserved r + t, st_updated := pg_now E\<rparr>) (stocks d),
     allocations := allocations d @ [\<lparr>al_reservation = rid, al_stock = l, al_quantity = t\<rparr>]\<rparr>"

lemma lot_ready_drawn:
  assumes "lot_ready E d k m" "k \<noteq> l"
  shows "lot_ready E (drawn E rid l t d) k m"
  using assms by (auto simp: lot_ready_def drawn_def find_row_update_rows)

lemma lots_ready_drawn:
  assumes "lots_ready E rid ((l, m) # lots) d"
  shows "lots_ready E rid lots (drawn E rid l t d)"
proof -
  have "lot_ready E (drawn E rid l t d) (fst x) (snd x)" if "x \<in> set lots" for x
    using assms that by (intro lot_ready_drawn) (auto simp: lots_ready_def)
  moreover have "map st_ID (stocks (drawn E rid l t d)) = map st_ID (stocks d)"
    unfolding drawn_def by (simp add: update_rows_keys)
  ultimately show ?thesis using assms by (simp add: lots_ready_def drawn_def)
qed

lemma greedy_lots: "x \<in> set (greedy lots n) \<Longrightarrow> fst x \<in> fst ` set lots"
  by (induction lots n rule: greedy.induct) (auto simp: Let_def split: if_splits)

lemma collides_drawn:
  assumes "l \<notin> fst ` set lots"
  shows "collides rid (greedy lots n) (drawn E rid l t d) = collides rid (greedy lots n) d"
  using assms greedy_lots by (fastforce simp: collides_def booked_def drawn_def)

lemma wp_reserve_one:
  assumes ready: "lot_ready E (db w) l m" and d: "distinct (map st_ID (stocks (db w)))"
    and i: "pg_uuid E i = Some rid" "find_row res_id rid (reservations (db w)) \<noteq> None"
    and t: "0 < t" "t \<le> m" and Q: "\<not> booked rid (db w) l \<Longrightarrow> Q () (w\<lparr>db := drawn E rid l t (db w)\<rparr>)"
    and R: "\<And>v. booked rid (db w) l \<Longrightarrow> R (Internal ''duplicate key allocations'') v"
  shows "wp (andthen (update_stock E l (add_reserved t)) (insert_allocation E i l t)) Q R w"
proof -
  obtain r where r: "pg_uuid E l = Some l" "find_row st_ID l (stocks (db w)) = Some r" "stock_ok r"
    "st_Reserved r + m \<le> st_Quantity r" "is_i64 m"
    using ready by (auto simp: lot_ready_def)
  let ?f = "\<lambda>r. r\<lparr>st_Reserved := st_Reserved r + t, st_updated := pg_now E\<rparr>"
  let ?v = "set_stocks (update_rows st_ID l ?f (stocks (db w))) w"
  have "add_reserved t r = Some (r\<lparr>st_Reserved := st_Reserved r + t\<rparr>)" "stock_check (r\<lparr>st_Reserved := st_Reserved r + t\<rparr>)"
    using r(3,4) t by (auto simp: add_reserved_def is_i64_bounds stock_ok_def stock_check_def)
  then have u: "update_stock E l (add_reserved t) w = (Inr (), ?v)"
    using r(1,2) update_rows_const [where f = ?f, OF d r(2)]
    by (simp add: update_stock_def sql_uuid_def of_option_def bnd_def gets_def ret_def andthen_def stop_if_def
        modify_def)
  have f: "find_row st_ID l (stocks (db ?v)) \<noteq> None" using r(2) by (simp add: find_row_update_rows)
  have "wp (insert_allocation E i l t) Q R ?v"
    using r(1) i t(1) f Q R unfolding insert_allocation_def wp_bnd wp_sql_uuid wp_gets wp_andthen wp_stop_if wp_modify booked_def
    by (auto simp: drawn_def)
  then show ?thesis unfolding wp_andthen by (simp add: wp_def [of "update_stock E l (add_reserved t)"] u)
qed

text \<open>
  The loop's two outcomes: the greedy choice is carried out, or, when the reservation holds an
  allocation on a lot of that choice, the primary key refuses the second one.
\<close>

lemma take_lots_refines:
  assumes "lots_ready E rid lots (db w)" "pg_uuid E i = Some rid" "is_i64 n" "0 \<le> n"
  shows "wp (take_lots E i lots n) (\<lambda>left w'. \<not> collides rid (greedy lots n) (db w) \<and> left = n - total_of (greedy lots n)
      \<and> db w' = (db w)\<lparr>stocks := reserve_rows E (greedy lots n) (stocks (db w)),
          allocations := allocations (db w) @ alloc_rows rid (greedy lots n)\<rparr>)
      (\<lambda>e _. collides rid (greedy lots n) (db w) \<and> e = Internal ''duplicate key allocations'') w"
  using assms
proof (induction lots arbitrary: n w)
  case Nil
  then show ?case by (simp add: wp_ret alloc_rows_def collides_def)
next
  case (Cons a lots)
  obtain l m where a: "a = (l, m)" by force
  let ?t = "min n m"
  show ?case
  proof (cases "?t \<le> 0")
    case True
    then show ?thesis by (simp add: a wp_ret Let_def alloc_rows_def collides_def)
  next
    case False
    let ?v = "w\<lparr>db := drawn E rid l ?t (db w)\<rparr>" and ?g = "greedy (a # lots) n"
    let ?Q = "\<lambda>left w'. \<not> collides rid ?g (db w) \<and> left = n - total_of ?g
      \<and> db w' = (db w)\<lparr>stocks := reserve_rows E ?g (stocks (db w)), allocations := allocations (db w) @ alloc_rows rid ?g\<rparr>"
    let ?R = "\<lambda>e _. collides rid ?g (db w) \<and> e = Internal ''duplicate key allocations''"
    have g: "?g = (l, ?t) # greedy lots (n - ?t)" using False by (simp add: a Let_def)
    have ready: "lot_ready E (db w) l m" "distinct (map st_ID (stocks (db w)))"
      "find_row res_id rid (reservations (db w)) \<noteq> None" "l \<notin> fst ` set lots"
      using Cons.prems(1) by (auto simp: a lots_ready_def)
    have left: "i64 (n - ?t) = n - ?t" "is_i64 (n - ?t)" "0 \<le> n - ?t"
      using Cons.prems(3) False by (auto simp: is_i64_bounds min_def intro!: i64_id)
    have c: "collides rid ?g (db w) = collides rid (greedy lots (n - ?t)) (db ?v)" if "\<not> booked rid (db w) l"
      using that collides_drawn [OF ready(4)] unfolding g by (simp add: collides_def)
    have "lots_ready E rid lots (db ?v)" using Cons.prems(1) lots_ready_drawn by (simp add: a)
    from Cons.IH [OF this Cons.prems(2) left(2,3)]
    have rest: "wp (take_lots E i lots (n - ?t)) ?Q ?R ?v" if "\<not> booked rid (db w) l"
      by (rule wp_mono) (use c [OF that] in \<open>simp_all add: g drawn_def alloc_rows_def\<close>)
    have "booked rid (db w) l \<Longrightarrow> collides rid ?g (db w)" unfolding g by (simp add: collides_def)
    then have "wp (andthen (update_stock E l (add_reserved ?t)) (insert_allocation E i l ?t))
      (\<lambda>_. wp (take_lots E i lots (n - ?t)) ?Q ?R) ?R w"
      using False rest by (intro wp_reserve_one [OF ready(1,2) Cons.prems(2) ready(3)]) auto
    then show ?thesis
      using False by (simp only: a take_lots.simps Let_def if_False left(1) wp_andthen)
  qed
qed

text \<open>The lots the query returns are ready under the invariant, positive and in expiry order.\<close>

lemma fefo_lots_facts:
  assumes "inv_with (pg_uuid E) [] d"
  shows "distinct (map fst (fefo_lots E u p (stocks d)))"
    and "(l, m) \<in> set (fefo_lots E u p (stocks d)) \<Longrightarrow> 0 < m \<and> (\<exists>r \<in> set (stocks d). st_ID r = l
      \<and> m = st_Quantity r - st_Reserved r \<and> reservable E u p r)"
proof -
  have "distinct (map st_ID (stocks d))" using assms by (simp add: inv_with_def tables_ok_def)
  then have "inj_on st_ID (set (stocks d))" "distinct (stocks d)" by (simp_all add: distinct_map)
  then show "distinct (map fst (fefo_lots E u p (stocks d)))"
    by (auto simp: fefo_lots_def comp_def distinct_map intro: inj_on_subset)
  show "0 < m \<and> (\<exists>r \<in> set (stocks d). st_ID r = l \<and> m = st_Quantity r - st_Reserved r \<and> reservable E u p r)"
    if "(l, m) \<in> set (fefo_lots E u p (stocks d))"
    using that by (auto simp: fefo_lots_def reservable_def)
qed

lemma fefo_lots_ready:
  assumes inv: "inv_with (pg_uuid E) [] d" and "find_row res_id rid (reservations d) \<noteq> None"
  shows "lots_ready E rid (fefo_lots E u p (stocks d)) d"
proof -
  have d: "distinct (map st_ID (stocks d))" using inv by (simp add: inv_with_def tables_ok_def)
  have "lot_ready E d l m" if "(l, m) \<in> set (fefo_lots E u p (stocks d))" for l m
  proof -
    note facts = fefo_lots_facts(2) [OF inv that]
    obtain r where r: "r \<in> set (stocks d)" "st_ID r = l" "m = st_Quantity r - st_Reserved r"
      using facts by blast
    have ok: "stock_ok r" "canonical (pg_uuid E) r" using inv r(1) by (auto simp: inv_with_def tables_ok_def)
    have f: "find_row st_ID l (stocks d) = Some r" using find_row_distinct [OF d r(1)] r(2) by simp
    have "pg_uuid E l = Some l" using ok(2) r(2) by (simp add: canonical_def)
    moreover have "is_i64 m" using ok(1) r(3) by (auto simp: stock_ok_def stock_check_def is_i64_bounds)
    ultimately show ?thesis using f ok(1) r(3) by (auto simp: lot_ready_def)
  qed
  then show ?thesis using assms(2) d fefo_lots_facts(1) [OF inv] by (auto simp: lots_ready_def)
qed

end
