(* ===== verification/Reservation_Outcomes.thy ===== *)
theory Reservation_Outcomes
  imports Reservation_Operations
begin

text \<open>
  What the handlers of reservations lead to: a confirmed reservation holds what was asked for,
  product by product; a release and a shipment settle exactly what was held; a rejected event
  changes nothing but the reservation table and the outbox.
\<close>

section \<open>Confirmed reservations hold what was asked for\<close>

definition product_map :: "stock_row list \<Rightarrow> string \<Rightarrow> string option" where
  "product_map ss i = map_option st_ProductID (find_row st_ID i ss)"

definition allocated_of :: "(string \<Rightarrow> string option) \<Rightarrow> string \<Rightarrow> allocation_row list \<Rightarrow> string \<Rightarrow> int" where
  "allocated_of F rid als pid =
     (\<Sum>a\<leftarrow>als. if al_reservation a = rid \<and> F (al_stock a) = Some pid then al_quantity a else 0)"

definition requested :: "env \<Rightarrow> Line list \<Rightarrow> string \<Rightarrow> int" where
  "requested E lines pid =
     (\<Sum>line\<leftarrow>lines. if pg_uuid E (li_ProductID line) = Some pid then li_Quantity line else 0)"

text \<open>While lines are being filled: the lots keep their products, the allocations add up to \<open>X\<close>.\<close>

definition filling ::
  "env \<Rightarrow> (string \<Rightarrow> string option) \<Rightarrow> string \<Rightarrow> (string \<Rightarrow> int) \<Rightarrow> idb world \<Rightarrow> bool" where
  "filling E F rid X w = (distinct (map st_ID (stocks (db w)))
     \<and> (\<forall>r \<in> set (stocks (db w)). pg_uuid E (st_ID r) = Some (st_ID r))
     \<and> product_map (stocks (db w)) = F \<and> allocated_of F rid (allocations (db w)) = X)"

lemma keeps_filling_update:
  assumes "row_update f"
  shows "keeps (filling E F rid X) (update_stock E i f)"
proof (rule leadsI, rule wp_update_stockI)
  fix w :: "idb world" and u r r'
  assume w: "filling E F rid X w" and f: "find_row st_ID u (stocks (db w)) = Some r" "f r = Some r'"
  have same: "st_ID r' = u" "st_ProductID r' = st_ProductID r" "st_ID r = u"
    using assms f find_row_SomeD [OF f(1)] by (auto simp: row_update_def)
  let ?ss = "update_rows st_ID u (\<lambda>_. r'\<lparr>st_updated := pg_now E\<rparr>) (stocks (db w))"
  have ids: "map st_ID ?ss = map st_ID (stocks (db w))"
    using same by (auto simp: update_rows_def)
  have "find_row st_ID j ?ss = (if j = u then Some (r'\<lparr>st_updated := pg_now E\<rparr>) else find_row st_ID j (stocks (db w)))" for j
    using f(1) same(1) by (simp add: find_row_update_const)
  then have "product_map ?ss = product_map (stocks (db w))"
    using f(1) same by (auto simp: product_map_def fun_eq_iff)
  moreover have "\<forall>r \<in> set ?ss. pg_uuid E (st_ID r) = Some (st_ID r)"
    using w ids by (metis (no_types, lifting) filling_def image_eqI image_iff set_map)
  ultimately show "filling E F rid X (set_stocks ?ss w)" using w ids by (simp add: filling_def)
qed simp

lemma insert_allocation_filling:
  assumes "pg_uuid E i = Some rid" "pg_uuid E l = Some l" "F l = Some pid"
  shows "leads (filling E F rid X) (insert_allocation E i l n) (\<lambda>_. filling E F rid (X(pid := X pid + n)))"
  using assms by (auto simp: leads_def insert_allocation_def wp_simps filling_def allocated_of_def fun_eq_iff)

lemma filling_same: "filling E F rid X w \<Longrightarrow> filling E F rid (X(pid := X pid + (n - n))) w"
  by (simp only: diff_self add_0_right fun_upd_triv)

lemma take_lots_filling:
  assumes "pg_uuid E i = Some rid" "\<forall>x \<in> set lots. pg_uuid E (fst x) = Some (fst x) \<and> F (fst x) = Some pid"
    and "is_i64 n" "0 \<le> n"
  shows "leads (filling E F rid X) (take_lots E i lots n)
    (\<lambda>left w. 0 \<le> left \<and> filling E F rid (X(pid := X pid + (n - left))) w)"
  using assms(2-4)
proof (induction lots arbitrary: n X)
  case Nil
  then show ?case unfolding take_lots.simps by (intro leads_ret conjI filling_same)
next
  case (Cons a lots)
  obtain l m where a: "a = (l, m)" by force
  let ?t = "min n m"
  show ?case
  proof (cases "?t \<le> 0")
    case True
    then have "take_lots E i (a # lots) n = ret n" by (simp add: a)
    then show ?thesis using Cons.prems(3) by (simp only:) (intro leads_ret conjI filling_same)
  next
    case False
    have left: "i64 (n - ?t) = n - ?t" "is_i64 (n - ?t)" "0 \<le> n - ?t"
      using Cons.prems(2) False by (auto simp: is_i64_bounds min_def intro!: i64_id)
    have "leads (filling E F rid (X(pid := X pid + ?t))) (take_lots E i lots (n - ?t))
      (\<lambda>left w. 0 \<le> left \<and> filling E F rid ((X(pid := X pid + ?t))
          (pid := (X(pid := X pid + ?t)) pid + (n - ?t - left))) w)"
      using Cons.prems left by (intro Cons.IH) auto
    then have "leads (filling E F rid (X(pid := X pid + ?t))) (take_lots E i lots (n - ?t))
      (\<lambda>left w. 0 \<le> left \<and> filling E F rid (X(pid := X pid + (n - left))) w)"
      by (rule leads_weaken) (simp add: algebra_simps)
    moreover have "pg_uuid E l = Some l" "F l = Some pid" using Cons.prems(1) by (simp_all add: a)
    ultimately have "leads (filling E F rid X) (andthen (update_stock E l (add_reserved ?t))
        (andthen (insert_allocation E i l ?t) (take_lots E i lots (n - ?t))))
      (\<lambda>left w. 0 \<le> left \<and> filling E F rid (X(pid := X pid + (n - left))) w)"
      using assms(1) by (intro leads_andthen [OF keeps_filling_update] leads_andthen [OF insert_allocation_filling])
        (simp_all only: row_update_simps)
    then show ?thesis using False by (simp only: a take_lots.simps Let_def if_False left(1))
  qed
qed

lemma select_lots_filling:
  assumes "\<And>lots pid. pg_uuid E p = Some pid \<Longrightarrow>
      \<forall>x \<in> set lots. pg_uuid E (fst x) = Some (fst x) \<and> F (fst x) = Some pid \<Longrightarrow>
      leads (filling E F rid X) (f lots) K"
  shows "leads (filling E F rid X) (bnd (select_lots E u p) f) K"
proof (rule leadsI)
  fix w assume w: "filling E F rid X w"
  have "wp (f (fefo_lots E wid pid (stocks (db w)))) K anyerr w" if "pg_uuid E p = Some pid" for wid pid
  proof (rule leadsD [OF assms w], rule that)
    have "find_row st_ID (st_ID r) (stocks (db w)) = Some r" if "r \<in> set (stocks (db w))" for r
      using w that by (intro find_row_distinct) (simp_all add: filling_def)
    then show "\<forall>x \<in> set (fefo_lots E wid pid (stocks (db w))). pg_uuid E (fst x) = Some (fst x) \<and> F (fst x) = Some pid"
      using w by (auto simp: fefo_lots_def reservable_def filling_def product_map_def)
  qed
  then show "wp (bnd (select_lots E u p) f) K anyerr w"
    by (simp add: select_lots_def wp_simps)
qed

lemma reserve_lines_filling:
  assumes "pg_uuid E i = Some rid" "\<forall>line \<in> set lines. is_i64 (li_Quantity line)"
  shows "leads (filling E F rid X) (reserve_lines E i u seen lines)
    (\<lambda>_. filling E F rid (\<lambda>pid. X pid + requested E lines pid))"
  using assms(2)
proof (induction lines arbitrary: seen X)
  case Nil
  then show ?case by (simp add: leads_def wp_ret requested_def)
next
  case (Cons line lines)
  let ?p = "li_ProductID line" and ?n = "li_Quantity line"
  have k: "keeps (filling E F rid X) (ID E ?p)" by (simp add: leads_def wp_simps)
  show ?case unfolding reserve_lines.simps
  proof (intro leads_guard keeps_andthen [OF k] select_lots_filling)
    fix lots :: "(string \<times> int) list" and pid
    assume n: "\<not> (?n \<le> 0 \<or> ?p \<in> set seen)" and pid: "pg_uuid E ?p = Some pid"
      and lots: "\<forall>x \<in> set lots. pg_uuid E (fst x) = Some (fst x) \<and> F (fst x) = Some pid"
    have t: "leads (filling E F rid X) (take_lots E i lots ?n)
        (\<lambda>left w. 0 \<le> left \<and> filling E F rid (X(pid := X pid + (?n - left))) w)"
      using Cons.prems n by (intro take_lots_filling [OF assms(1) lots]) auto
    show "leads (filling E F rid X) (bnd (take_lots E i lots ?n) (\<lambda>remaining.
        andthen (stop_if (0 < remaining) (Fail ''INSUFFICIENT_STOCK'' ''Not enough placed, unexpired stock''))
          (reserve_lines E i u (?p # seen) lines))) (\<lambda>_. filling E F rid (\<lambda>pid. X pid + requested E (line # lines) pid))"
    proof (rule leads_bnd [OF t], rule leads_guard)
      fix left :: int
      assume l: "\<not> 0 < left"
      have "leads (filling E F rid (X(pid := X pid + ?n))) (reserve_lines E i u (?p # seen) lines)
        (\<lambda>_. filling E F rid (\<lambda>q. (X(pid := X pid + ?n)) q + requested E lines q))"
        by (rule Cons.IH) (use Cons.prems in simp)
      moreover have "(\<lambda>q. (X(pid := X pid + ?n)) q + requested E lines q) = (\<lambda>q. X q + requested E (line # lines) q)"
        using pid by (auto simp: requested_def fun_eq_iff)
      ultimately show "leads (\<lambda>w. 0 \<le> left \<and> filling E F rid (X(pid := X pid + (?n - left))) w)
          (reserve_lines E i u (?p # seen) lines) (\<lambda>_. filling E F rid (\<lambda>q. X q + requested E (line # lines) q))"
        using l by (auto simp: leads_def)
    qed
  qed
qed

text \<open>Quantities read from JSON are 64-bit integers.\<close>

lemma decode_lines_i64:
  assumes "Decode decode_lines v = Some lines"
  shows "\<forall>line \<in> set lines. is_i64 (li_Quantity line)"
proof -
  have one: "is_i64 (li_Quantity l)" if "decode_struct False line_fields j zero_Line = Some l" for j l
  proof (rule decode_struct_inv [where P = "\<lambda>l. is_i64 (li_Quantity l)", OF _ that])
    show "is_i64 (li_Quantity zero_Line)" by (simp add: zero_Line_def is_i64_bounds)
  qed (auto simp: line_fields_def str_field_def int64_field_def split: json.splits if_splits)
  have "\<forall>line \<in> set out. is_i64 (li_Quantity line)"
    if "decode_elems (decode_struct False line_fields) zero_Line js = Some out" for js out
    using that by (induction js arbitrary: out) (auto dest: one split: option.splits)
  then show ?thesis using assms
    by (auto simp: Decode_def decode_lines_def decode_slice_def split: option.splits json.splits)
qed

lemma allocated_none: "\<forall>a \<in> set als. al_reservation a \<noteq> rid \<Longrightarrow> allocated_of F rid als = (\<lambda>_. 0)"
  by (induction als) (auto simp: allocated_of_def fun_eq_iff)

lemma reserve_fills:
  assumes inv: "inv_with (pg_uuid E) [] (db w)" and i: "pg_uuid E (p_String payload ''reservationId'') = Some rid"
    and fresh: "find_row res_id rid (reservations (db w)) = None"
  shows "wp (reserve E payload) (\<lambda>_ w'. \<exists>lines. Decode decode_lines (p_items payload) = Some lines \<and> lines \<noteq> []
      \<and> allocated_of (product_map (stocks (db w'))) rid (allocations (db w')) = requested E lines) anyerr w"
proof -
  let ?i = "p_String payload ''reservationId''" and ?u = "p_String payload ''warehouseId''"
  let ?F = "product_map (stocks (db w))"
  have "\<forall>a \<in> set (allocations (db w)). al_reservation a \<noteq> rid"
    using inv fresh by (auto simp: inv_with_def tables_ok_def find_row_None_iff)
  then have start: "filling E ?F rid (\<lambda>_. 0) v" if "stocks (db v) = stocks (db w)" "allocations (db v) = allocations (db w)" for v
    using inv that allocated_none by (auto simp: filling_def inv_with_def tables_ok_def canonical_def)
  have run: "wp (andthen (reserve_lines E ?i ?u [] lines) (andthen (Count ''reserve'' ''success'') (Emit E ''StockReserved'' payload)))
      (\<lambda>_ w'. allocated_of (product_map (stocks (db w'))) rid (allocations (db w')) = requested E lines) anyerr v"
    if v: "stocks (db v) = stocks (db w)" "allocations (db v) = allocations (db w)"
      and lines: "Decode decode_lines (p_items payload) = Some lines" for v lines
  proof (rule leadsD [where I = "filling E ?F rid (\<lambda>_. 0)", OF _ start [OF v]])
    have "leads (filling E ?F rid X) (andthen (Count a b) (Emit E k p)) (\<lambda>_. filling E ?F rid X)" for X a b k p
    proof (rule leadsI, unfold wp_andthen wp_Count, rule wp_EmitI)
      fix z z' :: "idb world"
      assume "filling E ?F rid X z" "emitted E k p (z\<lparr>metrics := (a, b) # metrics z\<rparr>) z'"
      then show "filling E ?F rid X z'" by (elim emittedE) (simp add: filling_def)
    qed simp
    then have "leads (filling E ?F rid (\<lambda>_. 0)) (andthen (reserve_lines E ?i ?u [] lines)
        (andthen (Count ''reserve'' ''success'') (Emit E ''StockReserved'' payload)))
        (\<lambda>_. filling E ?F rid (\<lambda>pid. 0 + requested E lines pid))"
      by (rule leads_andthen [OF reserve_lines_filling [OF i decode_lines_i64 [OF lines]]])
    then show "leads (filling E ?F rid (\<lambda>_. 0)) (andthen (reserve_lines E ?i ?u [] lines)
        (andthen (Count ''reserve'' ''success'') (Emit E ''StockReserved'' payload)))
        (\<lambda>_ w'. allocated_of (product_map (stocks (db w'))) rid (allocations (db w')) = requested E lines)"
      by (rule leads_weaken) (auto simp: filling_def)
  qed
  show ?thesis
    unfolding reserve_def Let_def
    by (simp add: wp_simps select_reservation_def insert_reservation_def i fresh)
      (intro conjI allI impI; (rule wp_mono [OF run [unfolded wp_andthen wp_Count]])?; simp)
qed

end
