(* ===== verification/Reservation_Settlement.thy ===== *)
theory Reservation_Settlement
  imports Reservation_Outcomes
begin

text \<open>
  The end of a reservation: a release (cancelled or expired) frees exactly what the reservation
  held, lot by lot, and cannot fail under the invariant; a shipment takes exactly that off the
  quantities and the reserved quantities.
\<close>

section \<open>What a reservation holds\<close>

abbreviation held_on :: "string \<Rightarrow> allocation_row list \<Rightarrow> string \<Rightarrow> int" where
  "held_on rid als i \<equiv> taken_off (held_by rid als) i"

text \<open>A lot of which \<open>n\<close> reserved pieces are set free, or leave the warehouse.\<close>

definition freed :: "env \<Rightarrow> int \<Rightarrow> stock_row \<Rightarrow> stock_row" where
  "freed E n r = (if n = 0 then r else r\<lparr>st_Reserved := st_Reserved r - n, st_updated := pg_now E\<rparr>)"

definition sent_off :: "env \<Rightarrow> int \<Rightarrow> stock_row \<Rightarrow> stock_row" where
  "sent_off E n r = (if n = 0 then r else
     r\<lparr>st_Quantity := st_Quantity r - n, st_Reserved := st_Reserved r - n, st_updated := pg_now E\<rparr>)"

lemma held_on_sum:
  "held_on rid als i = (\<Sum>a\<leftarrow>als. if al_reservation a = rid \<and> al_stock a = i then al_quantity a else 0)"
  by (induction als) (auto simp: held_by_def allocations_of_def taken_off_def)

lemma held_on_find:
  assumes "distinct (map alloc_key als)"
  shows "held_on rid als i = (case find_row al_stock i (allocations_of rid als) of None \<Rightarrow> 0 | Some a \<Rightarrow> al_quantity a)"
  unfolding held_by_def by (rule taken_off_allocations [OF distinct_allocations_of [OF assms]])

lemma sum_list_mono_int:
  assumes "\<And>x. x \<in> set xs \<Longrightarrow> f x \<le> (g x :: int)"
  shows "(\<Sum>x\<leftarrow>xs. f x) \<le> (\<Sum>x\<leftarrow>xs. g x)"
  using assms by (induction xs) (auto intro: add_mono)

text \<open>A confirmed reservation holds no more of a lot than is reserved.\<close>

lemma held_on_reserved:
  assumes "inv_with P [] d" "confirmed (reservations d) rid" "r \<in> set (stocks d)"
  shows "0 \<le> held_on rid (allocations d) (st_ID r)" "held_on rid (allocations d) (st_ID r) \<le> st_Reserved r"
proof -
  have pos: "0 < al_quantity a" if "a \<in> set (allocations d)" for a
    using assms(1) that by (auto simp: inv_with_def tables_ok_def)
  show "0 \<le> held_on rid (allocations d) (st_ID r)"
    unfolding held_on_sum using pos by (intro sum_list_nonneg_int) (auto dest: less_imp_le)
  have "st_Reserved r = reserved_by (reservations d) (allocations d) (st_ID r)"
    using assms(1,3) by (auto simp: inv_with_def ledger_def)
  then show "held_on rid (allocations d) (st_ID r) \<le> st_Reserved r"
    unfolding held_on_sum reserved_by_def using pos assms(2)
    by (simp, intro sum_list_mono_int) (auto dest: less_imp_le)
qed

lemma allocation_i64:
  assumes "inv_with P [] d" "confirmed (reservations d) rid" "a \<in> set (allocations_of rid (allocations d))"
  shows "is_i64 (al_quantity a)"
proof -
  have a: "a \<in> set (allocations d)" "al_reservation a = rid" using assms(3) by (auto simp: allocations_of_def)
  then obtain r where r: "r \<in> set (stocks d)" "st_ID r = al_stock a"
    using assms(1) by (auto simp: inv_with_def tables_ok_def)
  have d: "distinct (map al_stock (allocations_of rid (allocations d)))"
    using assms(1) by (intro distinct_allocations_of) (simp add: inv_with_def tables_ok_def)
  have "held_on rid (allocations d) (st_ID r) = al_quantity a"
    using find_row_distinct [OF d assms(3)] assms(1) r(2)
    by (subst held_on_find) (simp_all add: inv_with_def tables_ok_def)
  moreover have "stock_ok r" "0 < al_quantity a" using assms(1) r(1) a by (auto simp: inv_with_def tables_ok_def)
  ultimately show ?thesis using held_on_reserved [OF assms(1,2) r(1)]
    by (auto simp: stock_ok_def stock_check_def is_i64_bounds)
qed

section \<open>Release\<close>

definition freed_lots :: "env \<Rightarrow> string \<Rightarrow> idb \<Rightarrow> stock_row list" where
  "freed_lots E rid d = map (\<lambda>r. freed E (held_on rid (allocations d) (st_ID r)) r) (stocks d)"

lemma unreserve_row_freed:
  assumes "inv_with P [] d"
  shows "unreserve_row E (allocations_of rid (allocations d)) r = freed E (held_on rid (allocations d) (st_ID r)) r"
proof -
  have "al_quantity a \<noteq> 0" if "find_row al_stock i (allocations_of rid (allocations d)) = Some a" for i a
    using find_row_SomeD [OF that] assms by (auto simp: allocations_of_def inv_with_def tables_ok_def)
  moreover have "distinct (map alloc_key (allocations d))" using assms by (simp add: inv_with_def tables_ok_def)
  ultimately show ?thesis
    by (auto simp: unreserve_row_def freed_def held_on_find split: option.splits)
qed

lemma wp_unreserve_all:
  assumes "inv_with P [] (db w)" "pg_uuid E i = Some rid" "confirmed (reservations (db w)) rid"
    and "Q () (set_stocks (freed_lots E rid (db w)) w)"
  shows "wp (unreserve_all E i) Q R w"
proof -
  let ?als = "allocations_of rid (allocations (db w))"
  have row: "unreserve_row E ?als r = freed E (held_on rid (allocations (db w)) (st_ID r)) r" for r
    by (rule unreserve_row_freed [OF assms(1)])
  have "stock_ok (unreserve_row E ?als r)" "is_i64 (st_Reserved (unreserve_row E ?als r))" if "r \<in> set (stocks (db w))" for r
  proof -
    have "stock_ok r" using assms(1) that by (auto simp: inv_with_def tables_ok_def)
    with held_on_reserved [OF assms(1,3) that]
    show "stock_ok (unreserve_row E ?als r)" "is_i64 (st_Reserved (unreserve_row E ?als r))"
      unfolding row by (auto simp: freed_def stock_ok_def stock_check_def is_i64_bounds)
  qed
  moreover have "map (unreserve_row E ?als) (stocks (db w)) = freed_lots E rid (db w)"
    unfolding freed_lots_def row ..
  ultimately show ?thesis using assms(2,4)
    unfolding unreserve_all_def wp_bnd wp_sql_uuid wp_gets wp_Let wp_andthen wp_stop_if wp_modify
    by (auto simp: stock_ok_def)
qed

lemma wf_govs_all: "wf_govs vs \<longleftrightarrow> (\<forall>v \<in> set vs. wf_gov v)"
  by (induction vs) auto

lemma release_payload_wf:
  assumes "\<forall>a \<in> set (allocations_of rid (allocations d)). is_i64 (al_quantity a)"
  shows "wf_gov (GObj [(''reservationId'', GStr i), (''warehouseId'', GStr u), (''items'', GArr (release_items rid d))])"
  using assms by (auto simp: wf_govs_all release_items_def valid_f64_of_int)

lemma wp_Emit_total:
  assumes "wf_gov (GObj p)" "fresh_uuids E (outbox (db w))" "\<And>w'. emitted E k p w w' \<Longrightarrow> Q () w'"
  shows "wp (Emit E k p) Q R w"
proof -
  obtain b where "marshal (GObj p) = Some b" using marshal_wf [OF assms(1)] by blast
  note total = wp_Emit_succeeds [OF this assms(2), where k = k]
  have "wp (Emit E k p) Q anyerr w" by (rule wp_EmitI) (simp_all add: assms(3))
  then show ?thesis using total by (cases "Emit E k p w") (auto simp: wp_def split: sum.splits)
qed

text \<open>The release of a confirmed reservation succeeds, and this is all it does.\<close>

definition released ::
  "env \<Rightarrow> string \<Rightarrow> string \<Rightarrow> bool \<Rightarrow> string \<Rightarrow> idb \<Rightarrow> idb \<Rightarrow> bool" where
  "released E i rid expired warehouse d d' = (\<exists>ev.
     d' = d\<lparr>stocks := freed_lots E rid d,
       reservations := update_rows res_id rid (\<lambda>r. r\<lparr>res_status := if expired then ''EXPIRED'' else ''CANCELLED''\<rparr>)
         (reservations d),
       outbox := outbox d @ [ev]\<rparr>
     \<and> ob_type ev = (if expired then ''ReservationExpired'' else ''StockReservationCancelled'')
     \<and> marshal (GObj [(''reservationId'', GStr i), (''warehouseId'', GStr warehouse),
         (''items'', GArr (release_items rid d'))]) = Some (ev_payload (ob_body ev))
     \<and> (\<exists>n. pg_uuid E (new_uuid E n) = Some (ob_id ev)))"

lemma release_frees:
  assumes inv: "inv_with P [] (db w)" and u: "pg_uuid E i = Some rid"
    and row: "find_row res_id rid (reservations (db w)) = Some row" "res_status row = ''CONFIRMED''"
    and fresh: "fresh_uuids E (outbox (db w))"
  shows "wp (release E i expired) (\<lambda>_ w'. released E i rid expired (res_warehouse row) (db w) (db w') \<and> held w' = held w)
    (\<lambda>_ _. False) w"
proof -
  have c: "confirmed (reservations (db w)) rid"
    using find_row_SomeD [OF row(1)] row(2) by (auto simp: confirmed_def)
  have q: "\<forall>a \<in> set (allocations_of rid (allocations (db w))). is_i64 (al_quantity a)"
    using allocation_i64 [OF inv c] by blast
  let ?st = "if expired then ''EXPIRED'' else ''CANCELLED''"
  let ?k = "if expired then ''ReservationExpired'' else ''StockReservationCancelled''"
  let ?v = "set_reservations (update_rows res_id rid (\<lambda>r. r\<lparr>res_status := ?st\<rparr>) (reservations (db w)))
    (set_stocks (freed_lots E rid (db w)) w)"
  have emit: "wp (Emit E ?k [(''reservationId'', GStr i), (''warehouseId'', GStr (res_warehouse row)),
        (''items'', GArr (release_items rid (db ?v)))])
      (\<lambda>_ w'. released E i rid expired (res_warehouse row) (db w) (db w') \<and> held w' = held w) (\<lambda>_ _. False) ?v"
  proof (rule wp_Emit_total [OF release_payload_wf])
    fix w' assume "emitted E ?k [(''reservationId'', GStr i), (''warehouseId'', GStr (res_warehouse row)),
        (''items'', GArr (release_items rid (db ?v)))] ?v w'"
    then obtain ev where "db w' = (db ?v)\<lparr>outbox := outbox (db ?v) @ [ev]\<rparr>" "ob_type ev = ?k" "held w' = held ?v"
      "marshal (GObj [(''reservationId'', GStr i), (''warehouseId'', GStr (res_warehouse row)),
        (''items'', GArr (release_items rid (db ?v)))]) = Some (ev_payload (ob_body ev))"
      "\<exists>n. pg_uuid E (new_uuid E n) = Some (ob_id ev)"
      unfolding emitted_def by blast
    then show "released E i rid expired (res_warehouse row) (db w) (db w') \<and> held w' = held w"
      unfolding released_def by (intro conjI exI [of _ ev]) (simp_all add: release_items_def del: marshal.simps)
  qed (use q fresh in simp_all)
  have rest: "wp (andthen (update_reservation E i (\<lambda>r. r\<lparr>res_status := ?st\<rparr>)) (bnd (select_release_items E i) (\<lambda>items.
        Emit E ?k [(''reservationId'', GStr i), (''warehouseId'', GStr (res_warehouse row)), (''items'', GArr items)])))
      (\<lambda>_ w'. released E i rid expired (res_warehouse row) (db w) (db w') \<and> held w' = held w) (\<lambda>_ _. False)
      (set_stocks (freed_lots E rid (db w)) w)"
    using emit unfolding update_reservation_def select_release_items_def wp_andthen wp_bnd wp_sql_uuid wp_modify wp_gets
    by (simp add: u)
  show ?thesis
    unfolding release_def select_reservation_def wp_bnd wp_sql_uuid wp_gets wp_case_option Let_def
    using u row by (simp add: wp_andthen wp_unreserve_all [OF inv u c] rest [unfolded wp_andthen])
qed

section \<open>Expiry\<close>

text \<open>The worker's transaction for one due reservation cannot fail while the database is up.\<close>

lemma expire_one_frees:
  assumes "inv_with P [] (db w)" "pg_uuid E i = Some rid"
    and "find_row res_id rid (reservations (db w)) = Some row" "res_status row = ''CONFIRMED''"
    and "fresh_uuids E (outbox (db w))" "begin_ok E" "commit_ok E" "uuid_ok E warehouse"
  shows "\<exists>w'. expire_one E (i, warehouse) w = (Inr (), w') \<and> held w' = held w
    \<and> released E i rid True (res_warehouse row) (db w) (db w')"
proof -
  let ?v = "w\<lparr>held := (warehouse, 0) # held w\<rparr>"
  have "wp (release E i True) (\<lambda>_ w'. released E i rid True (res_warehouse row) (db w) (db w')) (\<lambda>_ _. False) v"
    if "db v = db w" for v
  proof -
    have "wp (release E i True) (\<lambda>_ w'. released E i rid True (res_warehouse row) (db v) (db w') \<and> held w' = held v)
        (\<lambda>_ _. False) v"
      by (rule release_frees) (use assms that in simp_all)
    then show ?thesis unfolding that by (rule wp_mono) simp_all
  qed
  then have "wp (andthen (Lock E warehouse) (release E i True))
      (\<lambda>_ w'. released E i rid True (res_warehouse row) (db w) (db w')) (\<lambda>_ _. False) w"
    using assms(8) by (simp add: wp_simps)
  from wp_success [OF this] obtain t where
    t: "andthen (Lock E warehouse) (release E i True) w = (Inr (), t)" "released E i rid True (res_warehouse row) (db w) (db t)"
    by auto
  then show ?thesis using assms(6,7)
    by (intro exI [of _ "t\<lparr>held := held w\<rparr>"]) (simp add: expire_one_def Transaction_success)
qed

section \<open>Shipment\<close>

fun ship_rows :: "env \<Rightarrow> (string \<times> int) list \<Rightarrow> stock_row list \<Rightarrow> stock_row list" where
  "ship_rows E [] ss = ss"
| "ship_rows E ((i, n) # als) ss = ship_rows E als (update_rows st_ID i
     (\<lambda>r. r\<lparr>st_Quantity := st_Quantity r - n, st_Reserved := st_Reserved r - n, st_updated := pg_now E\<rparr>) ss)"

definition shipped_items :: "stock_row list \<Rightarrow> (string \<times> int) list \<Rightarrow> gov list" where
  "shipped_items ss als = map (\<lambda>(i, n). GObj [(''productId'', GStr (the (product_map ss i))), (''stockId'', GStr i),
     (''quantity'', GI64 n)]) als"

lemma ship_one_at:
  assumes "pg_uuid E i = Some i" "distinct (map st_ID ss)"
  shows "leads (lots_are ss) (ship_one E S i n)
    (\<lambda>v w. stocks (db w) = ship_rows E [(i, n)] ss \<and> [v] = shipped_items ss [(i, n)])"
  unfolding ship_one_def
proof (rule leads_stock_at, rule keeps_andthen)
  fix u r assume "pg_uuid E i = Some u" and r: "find_row st_ID u ss = Some r"
  then have u: "u = i" "st_ID r = i" using assms(1) find_row_SomeD [OF r] by auto
  show "keeps (lots_are ss) (case st_Expiration (Stock.truncate r) of None \<Rightarrow> ret ()
      | Some d \<Rightarrow> bnd (Now E) (\<lambda>t. stop_if (\<not> truncate_day t < day_start d)
          (Fail ''EXPIRED_STOCK'' ''Allocated lot expired'')))"
    by (auto simp: leads_def wp_simps split: option.split)
  have upd: "leads (lots_are ss) (andthen (update_stock E i (deduct n)) (ret v))
      (\<lambda>v w. stocks (db w) = ship_rows E [(i, n)] ss \<and> [v] = shipped_items ss [(i, n)])"
    if v: "[v] = shipped_items ss [(i, n)]" for v
    unfolding u(2) [symmetric]
  proof (rule leads_update_at)
    show "pg_uuid E (st_ID r) = Some (st_ID r)" "find_row st_ID (st_ID r) ss = Some r" using assms(1) u r by simp_all
    fix r' assume "deduct n r = Some r'"
    then have r': "r' = r\<lparr>st_Quantity := st_Quantity r - n, st_Reserved := st_Reserved r - n\<rparr>"
      by (auto simp: deduct_def split: option.splits)
    have "put_lot E r' ss = ship_rows E [(i, n)] ss"
      using update_rows_const [OF assms(2), where k = i and r = r and
          f = "\<lambda>r. r\<lparr>st_Quantity := st_Quantity r - n, st_Reserved := st_Reserved r - n, st_updated := pg_now E\<rparr>"] r u
      by (simp add: put_lot_def r')
    then show "leads (lots_are (put_lot E r' ss)) (ret v)
        (\<lambda>v w. stocks (db w) = ship_rows E [(st_ID r, n)] ss \<and> [v] = shipped_items ss [(st_ID r, n)])"
      using v u by (intro leads_ret) simp
  qed simp
  have item: "[GObj [(''productId'', GStr (st_ProductID (Stock.truncate r))), (''stockId'', GStr (st_ID (Stock.truncate r))),
      (''quantity'', GI64 n)]] = shipped_items ss [(i, n)]"
    using r u by (simp add: shipped_items_def product_map_def)
  show "leads (lots_are ss) (case st_LocationID (Stock.truncate r) of
        None \<Rightarrow> throw (Internal ''reserved stock is unplaced'')
      | Some l \<Rightarrow> andthen (capacity E S (Stock.truncate r) l (i64 (- n))) (andthen (update_stock E i (deduct n))
          (ret (GObj [(''productId'', GStr (st_ProductID (Stock.truncate r))), (''stockId'', GStr (st_ID (Stock.truncate r))),
                      (''quantity'', GI64 n)]))))
      (\<lambda>v w. stocks (db w) = ship_rows E [(i, n)] ss \<and> [v] = shipped_items ss [(i, n)])"
    by (intro leads_case_option leads_throw keeps_andthen [OF keeps_lots_capacity] upd item)
qed

lemma ship_rows_step:
  "map st_ID (ship_rows E als ss) = map st_ID ss" "product_map (ship_rows E als ss) = product_map ss"
proof (induction als arbitrary: ss)
  case (Cons a als)
  { case 1 show ?case using Cons by (cases a) (simp add: update_rows_keys) }
  { case 2 show ?case using Cons
      by (cases a) (simp add: product_map_def fun_eq_iff find_row_update_rows map_option.compositionality comp_def) }
qed simp_all

lemma ship_all_at:
  assumes "\<forall>(i, n) \<in> set als. pg_uuid E i = Some i" "distinct (map st_ID ss)"
  shows "leads (lots_are ss) (ship_all E S als)
    (\<lambda>v w. stocks (db w) = ship_rows E als ss \<and> v = shipped_items ss als)"
  using assms
proof (induction als arbitrary: ss)
  case Nil
  then show ?case by (simp add: leads_def wp_ret shipped_items_def)
next
  case (Cons a als)
  obtain i n where a: "a = (i, n)" by force
  let ?ss = "ship_rows E [(i, n)] ss"
  have same: "shipped_items ?ss als = shipped_items ss als" "distinct (map st_ID ?ss)"
    using Cons.prems(2) ship_rows_step [of E "[(i, n)]" ss] by (simp_all add: shipped_items_def)
  have ih: "leads (lots_are ?ss) (ship_all E S als) (\<lambda>v w. stocks (db w) = ship_rows E als ?ss \<and> v = shipped_items ?ss als)"
    using Cons.prems(1) same(2) by (intro Cons.IH) auto
  show ?case unfolding a ship_all.simps
  proof (rule leads_bnd [OF ship_one_at])
    fix item
    have "leads (lots_are ?ss) (bnd (ship_all E S als) (\<lambda>items. ret (item # items)))
        (\<lambda>v w. stocks (db w) = ship_rows E ((i, n) # als) ss \<and> v = item # shipped_items ss als)"
      by (rule leads_bnd [OF ih]) (auto simp: leads_def wp_ret same [unfolded ship_rows.simps])
    then show "leads (\<lambda>w. stocks (db w) = ?ss \<and> [item] = shipped_items ss [(i, n)])
        (bnd (ship_all E S als) (\<lambda>items. ret (item # items)))
        (\<lambda>v w. stocks (db w) = ship_rows E ((i, n) # als) ss \<and> v = shipped_items ss ((i, n) # als))"
      by (auto simp: leads_def shipped_items_def elim!: wp_mono)
  qed (use Cons.prems a in auto)
qed

text \<open>Lot by lot, in whatever order the allocations come.\<close>

definition sent_lots :: "env \<Rightarrow> string \<Rightarrow> idb \<Rightarrow> stock_row list" where
  "sent_lots E rid d = map (\<lambda>r. sent_off E (held_on rid (allocations d) (st_ID r)) r) (stocks d)"

lemma ship_rows_map:
  assumes "distinct (map fst als)" "\<forall>x \<in> set als. snd x \<noteq> 0"
  shows "ship_rows E als ss = map (\<lambda>r. sent_off E (taken_off als (st_ID r)) r) ss"
  using assms
proof (induction als arbitrary: ss)
  case Nil
  then show ?case by (simp add: sent_off_def)
next
  case (Cons a als)
  obtain i n where a: "a = (i, n)" by force
  have "i \<notin> fst ` set als" "n \<noteq> 0" using Cons.prems a by auto
  moreover have "taken_off als i = 0" if "i \<notin> fst ` set als" for als
    using that by (induction als) (auto simp: taken_off_def)
  ultimately show ?case using Cons
    by (auto simp: a update_rows_def sent_off_def taken_off_def)
qed

text \<open>What a shipment that goes through has done.\<close>

definition allocated_to :: "string \<Rightarrow> idb \<Rightarrow> (string \<times> int) list" where
  "allocated_to rid d = map (\<lambda>a. (al_stock a, al_quantity a)) (sort_key al_stock (allocations_of rid (allocations d)))"

definition shipped :: "env \<Rightarrow> string \<Rightarrow> gobj \<Rightarrow> idb \<Rightarrow> idb world \<Rightarrow> bool" where
  "shipped E rid p d w' = (\<exists>sid. pg_uuid E (p_String p ''shipmentId'') = Some sid
     \<and> stocks (db w') = sent_lots E rid d \<and> allocations (db w') = allocations d
     \<and> reservations (db w') = update_rows res_id rid
         (\<lambda>r. r\<lparr>res_status := ''COMPLETED'', res_shipment := Some sid\<rparr>) (reservations d)
     \<and> announced ''StockShipped'' (obj_put ''items'' (GArr (shipped_items (stocks d) (allocated_to rid d))) p) w')"

lemma allocated_to_facts:
  assumes "inv_with P [] d"
  shows "ship_rows E (allocated_to rid d) (stocks d) = sent_lots E rid d"
    "\<forall>(i, n) \<in> set (allocated_to rid d). P i = Some i"
proof -
  have k: "distinct (map alloc_key (allocations d))" "\<forall>a \<in> set (allocations d). 0 < al_quantity a"
    "\<forall>a \<in> set (allocations d). al_stock a \<in> st_ID ` set (stocks d)" "\<forall>r \<in> set (stocks d). canonical P r"
    using assms by (auto simp: inv_with_def tables_ok_def)
  have "map fst (allocated_to rid d) = map al_stock (sort_key al_stock (allocations_of rid (allocations d)))"
    by (simp add: allocated_to_def comp_def)
  moreover have "distinct (map al_stock (sort_key al_stock als)) = distinct (map al_stock als)" for als :: "allocation_row list"
    by (simp add: distinct_map)
  ultimately have "distinct (map fst (allocated_to rid d))" using distinct_allocations_of [OF k(1)] by (simp only:)
  moreover have "\<forall>x \<in> set (allocated_to rid d). snd x \<noteq> 0"
    using k(2) by (auto simp: allocated_to_def allocations_of_def)
  moreover have "taken_off (allocated_to rid d) i = held_on rid (allocations d) i" for i
  proof -
    have "mset (allocated_to rid d) = mset (held_by rid (allocations d))" by (simp add: allocated_to_def held_by_def)
    then show ?thesis by (metis taken_off_mset)
  qed
  ultimately show "ship_rows E (allocated_to rid d) (stocks d) = sent_lots E rid d"
    by (simp add: ship_rows_map sent_lots_def)
  show "\<forall>(i, n) \<in> set (allocated_to rid d). P i = Some i"
    using k(3,4) by (fastforce simp: allocated_to_def allocations_of_def canonical_def)
qed

abbreviation books_are :: "reservation_row list \<Rightarrow> allocation_row list \<Rightarrow> idb world \<Rightarrow> bool" where
  "books_are rs als \<equiv> \<lambda>w. reservations (db w) = rs \<and> allocations (db w) = als"

lemma ship_all_books:
  assumes "\<forall>(i, n) \<in> set als. pg_uuid E i = Some i" "distinct (map st_ID (stocks (db w)))"
    and "\<And>items w'. stocks (db w') = ship_rows E als (stocks (db w)) \<Longrightarrow> items = shipped_items (stocks (db w)) als \<Longrightarrow>
      reservations (db w') = reservations (db w) \<Longrightarrow> allocations (db w') = allocations (db w) \<Longrightarrow> Q items w'"
  shows "wp (ship_all E S als) Q anyerr w"
proof -
  have "leads (\<lambda>v. stocks (db v) = stocks (db w) \<and> books_are (reservations (db w)) (allocations (db w)) v) (ship_all E S als)
    (\<lambda>v w'. (stocks (db w') = ship_rows E als (stocks (db w)) \<and> v = shipped_items (stocks (db w)) als)
      \<and> books_are (reservations (db w)) (allocations (db w)) w')"
    by (rule leads_conj [OF ship_all_at [OF assms(1,2)]
        bookings.keeps_ship_all [where C = "\<lambda>r a. r = reservations (db w) \<and> a = allocations (db w)"]])
  from leadsD [OF this, of w] show ?thesis by (auto elim!: wp_mono intro: assms(3))
qed

lemma ship_effect:
  assumes inv: "inv_with (pg_uuid E) [] (db w)"
  shows "wp (ship E S p) (\<lambda>_ w'. \<exists>rid row. pg_uuid E (p_String p ''reservationId'') = Some rid
      \<and> find_row res_id rid (reservations (db w)) = Some row
      \<and> (if res_status row = ''COMPLETED'' \<and> res_shipment row = Some (p_String p ''shipmentId'') then w' = w
         else res_status row = ''CONFIRMED'' \<and> go_now E (ticks w) < of_pg_time (res_expires row)
           \<and> res_warehouse row = p_String p ''warehouseId'' \<and> shipped E rid p (db w) w')) anyerr w"
proof -
  have d: "distinct (map st_ID (stocks (db w)))" using inv by (simp add: inv_with_def tables_ok_def)
  let ?ship = "\<lambda>rid. bnd (ship_all E S (allocated_to rid (db w))) (\<lambda>items. bnd (sql_uuid E (p_String p ''shipmentId''))
      (\<lambda>sid. andthen (update_reservation E (p_String p ''reservationId'')
          (\<lambda>r. r\<lparr>res_status := ''COMPLETED'', res_shipment := Some sid\<rparr>))
        (andthen (Count ''ship'' ''success'') (Emit E ''StockShipped'' (obj_put ''items'' (GArr items) p)))))"
  have run: "wp (?ship rid) (\<lambda>_ w'. shipped E rid p (db w) w') anyerr v"
    if rid: "pg_uuid E (p_String p ''reservationId'') = Some rid" and v: "db v = db w" for rid v
    unfolding wp_bnd [of "ship_all E S (allocated_to rid (db w))"]
  proof (rule ship_all_books)
    fix items and w1 :: "idb world"
    assume w1: "stocks (db w1) = ship_rows E (allocated_to rid (db w)) (stocks (db v))"
      "items = shipped_items (stocks (db v)) (allocated_to rid (db w))"
      "reservations (db w1) = reservations (db v)" "allocations (db w1) = allocations (db v)"
    have "wp (Emit E ''StockShipped'' (obj_put ''items'' (GArr items) p)) (\<lambda>_ w'. shipped E rid p (db w) w') anyerr
        (w2\<lparr>metrics := m\<rparr>)"
      if "pg_uuid E (p_String p ''shipmentId'') = Some sid"
        and w2: "w2 = set_reservations (update_rows res_id rid
          (\<lambda>r. r\<lparr>res_status := ''COMPLETED'', res_shipment := Some sid\<rparr>) (reservations (db w1))) w1" for sid w2 m
    proof (rule wp_EmitI)
      fix w' assume "emitted E ''StockShipped'' (obj_put ''items'' (GArr items) p) (w2\<lparr>metrics := m\<rparr>) w'"
      then obtain row where "db w' = (db w2)\<lparr>outbox := outbox (db w2) @ [row]\<rparr>" "ob_type row = ''StockShipped''"
        "ob_published row = None" "ev_type (ob_body row) = ''StockShipped''" "ev_version (ob_body row) = 1"
        "marshal (GObj (obj_put ''items'' (GArr items) p)) = Some (ev_payload (ob_body row))"
        by (auto simp: emitted_def simp del: marshal.simps)
      then show "shipped E rid p (db w) w'" unfolding shipped_def announced_def
        using that(1) w1 allocated_to_facts(1) [OF inv, of E rid]
        by (intro exI [of _ sid]) (simp add: w2 v del: marshal.simps)
    qed simp
    then show "wp (bnd (sql_uuid E (p_String p ''shipmentId''))
      (\<lambda>sid. andthen (update_reservation E (p_String p ''reservationId'')
          (\<lambda>r. r\<lparr>res_status := ''COMPLETED'', res_shipment := Some sid\<rparr>))
        (andthen (Count ''ship'' ''success'') (Emit E ''StockShipped'' (obj_put ''items'' (GArr items) p)))))
      (\<lambda>_ w'. shipped E rid p (db w) w') anyerr w1"
      unfolding wp_bnd [of "sql_uuid E x" for x] wp_sql_uuid wp_andthen wp_Count update_reservation_def wp_modify
      using rid by simp
  qed (use allocated_to_facts(2) [OF inv] d v in simp_all)
  show ?thesis
    using run [of _ "w\<lparr>ticks := Suc (ticks w)\<rparr>"]
    unfolding ship_def select_reservation_def select_allocations_def Let_def allocated_to_def
    by (simp add: wp_bnd wp_sql_uuid wp_gets wp_case_option wp_if wp_andthen wp_throw wp_ret wp_Now wp_stop_if)
qed

text \<open>
  \<open>ship\<close> writes the items into the map of the event it was given. A later attempt at the event that
  finds them there ships all the same: it reads none of them and writes its own.
\<close>

lemma obj_put_twice: "obj_put k v (obj_put k u p) = obj_put k v p"
  by (induction k v p rule: obj_put.induct) auto

lemma ship_ignores_items: "ship E S (obj_put ''items'' v p) = ship E S p"
proof -
  have "p_String (obj_put ''items'' v p) ''reservationId'' = p_String p ''reservationId''"
    "p_String (obj_put ''items'' v p) ''shipmentId'' = p_String p ''shipmentId''"
    "p_String (obj_put ''items'' v p) ''warehouseId'' = p_String p ''warehouseId''" by simp_all
  then show ?thesis unfolding ship_def obj_put_twice by (simp only:)
qed

end
