(* ===== verification/Reservation_Properties.thy ===== *)
theory Reservation_Properties
  imports Inventory_Effects Reservation_Settlement
begin

text \<open>
  What the reservation handlers guarantee: lots are drawn in expiry order and completely, a
  confirmed reservation holds what was asked for, a release or a shipment settles exactly that,
  a due reservation expires, and a refused event leaves the stock alone.
\<close>

section \<open>Reserving\<close>

text \<open>
  C2: the allocation loop over the lots of a line refines the greedy choice in expiry order: unless
  the reservation already holds an allocation on one of the lots it chooses, it cannot fail,
  allocates \<open>min n\<close> of what the reservable lots offer, drains every lot before it touches a later
  one, and turns exactly these amounts into allocations and reserved quantities. If there is such an
  allocation (a second line for the same product, spelled otherwise), the loop fails on the primary
  key.
\<close>

theorem fefo_reserves:
  assumes "uuid_law P" "inventory_reachable P S w" "pg_uuid E = P" "P i = Some rid"
    and "find_row res_id rid (reservations (db w)) \<noteq> None"
    and "lots = fefo_lots E u p (stocks (db w))"
    and "is_i64 n" "0 < n"
  shows "if \<exists>a \<in> set (allocations (db w)). al_reservation a = rid \<and> al_stock a \<in> fst ` set (greedy lots n)
    then \<exists>w'. take_lots E i lots n w = (Inl (Internal ''duplicate key allocations''), w')
    else (\<exists>w'. take_lots E i lots n w = (Inr (n - min n (total_of lots)), w')
      \<and> db w' = (db w)\<lparr>stocks := reserve_rows E (greedy lots n) (stocks (db w)),
           allocations := allocations (db w) @ alloc_rows rid (greedy lots n)\<rparr>
      \<and> total_of (greedy lots n) = min n (total_of lots)
      \<and> (lots \<noteq> [] \<longrightarrow> (\<exists>pre l m t post. lots = pre @ (l, m) # post \<and> greedy lots n = pre @ [(l, t)] \<and> 0 < t \<and> t \<le> m)))"
proof -
  have inv: "inv_with (pg_uuid E) [] (db w)" using reachable_inventory_ok [OF assms(1,2)] assms(3) by simp
  have ready: "lots_ready E rid lots (db w)"
    unfolding assms(6) using assms(5) by (rule fefo_lots_ready [OF inv])
  have pos: "\<forall>x \<in> set lots. 0 < snd x" unfolding assms(6) using fefo_lots_facts(2) [OF inv] by fastforce
  have t: "total_of (greedy lots n) = min n (total_of lots)" using pos assms(8) by (intro greedy_total) auto
  have c: "(\<exists>a \<in> set (allocations (db w)). al_reservation a = rid \<and> al_stock a \<in> fst ` set (greedy lots n))
      = collides rid (greedy lots n) (db w)"
    by (force simp: collides_def booked_def)
  have run: "wp (take_lots E i lots n) (\<lambda>left w'. \<not> collides rid (greedy lots n) (db w) \<and> left = n - total_of (greedy lots n)
      \<and> db w' = (db w)\<lparr>stocks := reserve_rows E (greedy lots n) (stocks (db w)),
          allocations := allocations (db w) @ alloc_rows rid (greedy lots n)\<rparr>)
      (\<lambda>e _. collides rid (greedy lots n) (db w) \<and> e = Internal ''duplicate key allocations'') w"
    by (rule take_lots_refines) (use ready assms(3,4,7,8) in auto)
  show ?thesis unfolding c using run t greedy_exhausts [OF pos assms(8)]
    by (cases "take_lots E i lots n w") (auto simp: wp_def split: sum.splits)
qed

text \<open>
  The instance: a second line of the confirmed reservation \<open>r2\<close> over the six pieces left of the
  lot; and one of \<open>r1\<close>, which holds an allocation on that lot.
\<close>

definition demo_wanting :: "idb world" where
  "demo_wanting = snd (attempt_event demo_env (Handle demo_service)
     (demo_message ''e5'' ''ReservationRequested'' [(''reservationId'', JStr ''r2''), (''warehouseId'', JStr ''w1''),
       (''expiresAt'', JStr ''2030-01-01T00:00:00Z''),
       (''items'', JArr [JObj [(''productId'', JStr ''p1''), (''quantity'', JInt 99)]])]) demo_reserved)"

lemma demo_wanting_reachable: "inventory_reachable demo_uuid demo_service demo_wanting"
  unfolding demo_wanting_def
  by (rule inventory_reachable.step [OF demo_reserved_reachable]) (rule inventory_step.deliver, rule demo_env_uuid)

theorem fefo_reserves_witness:
  "(\<exists>w'. take_lots demo_env ''r2'' [(''u'', 6)] 8 demo_wanting = (Inr 2, w') \<and> greedy [(''u'', 6)] 8 = [(''u'', 6)]
    \<and> allocations (db w') = allocations (db demo_wanting) @ alloc_rows ''r2'' [(''u'', 6)])
   \<and> (\<exists>w'. take_lots demo_env ''r1'' [(''u'', 6)] 8 demo_wanting = (Inl (Internal ''duplicate key allocations''), w'))"
proof -
  have lots: "[(''u'', 6)] = fefo_lots demo_env ''w1'' ''p1'' (stocks (db demo_wanting))" by code_simp
  have r: "find_row res_id ''r2'' (reservations (db demo_wanting)) \<noteq> None"
    "find_row res_id ''r1'' (reservations (db demo_wanting)) \<noteq> None" by code_simp+
  have a: "map (\<lambda>a. (al_reservation a, al_stock a)) (allocations (db demo_wanting)) = [(''r1'', ''u'')]" by code_simp
  then obtain al where al: "allocations (db demo_wanting) = [al]" "al_reservation al = ''r1''" "al_stock al = ''u''"
    by (auto simp: map_eq_Cons_conv)
  have i: "demo_uuid ''r2'' = Some ''r2''" "demo_uuid ''r1'' = Some ''r1''" "is_i64 8" "(0::int) < 8"
    by (simp_all add: demo_uuid_def is_i64_bounds)
  have g: "greedy [(''u'', 6)] 8 = [(''u'', 6)]" by code_simp
  show ?thesis
    using fefo_reserves [OF demo_uuid_law demo_wanting_reachable demo_env_uuid i(1) r(1) lots i(3,4)]
      fefo_reserves [OF demo_uuid_law demo_wanting_reachable demo_env_uuid i(2) r(2) lots i(3,4)]
    by (auto simp: al g simp del: take_lots.simps)
qed

text \<open>
  C3: a confirmed reservation is complete: a successful run for a reservation that was not there
  leaves allocations that add up, product by product, to exactly what the lines asked for.
\<close>

theorem reservation_complete:
  assumes "uuid_law P" "inventory_reachable P S w" "pg_uuid E = P"
    and "P (p_String payload ''reservationId'') = Some rid" "find_row res_id rid (reservations (db w)) = None"
    and "reserve E payload w = (Inr (), w')"
  shows "\<exists>lines. Decode decode_lines (p_items payload) = Some lines \<and> lines \<noteq> []
    \<and> allocated_of (product_map (stocks (db w'))) rid (allocations (db w')) = requested E lines"
proof -
  have inv: "inv_with (pg_uuid E) [] (db w)" using reachable_inventory_ok [OF assms(1,2)] assms(3) by simp
  have "wp (reserve E payload) (\<lambda>_ w'. \<exists>lines. Decode decode_lines (p_items payload) = Some lines \<and> lines \<noteq> []
      \<and> allocated_of (product_map (stocks (db w'))) rid (allocations (db w')) = requested E lines) anyerr w"
    using assms(3-5) by (intro reserve_fills [OF inv]) simp_all
  then show ?thesis using assms(6) by (simp add: wp_def)
qed

definition demo_request :: gobj where
  "demo_request = [(''reservationId'', GStr ''r1''), (''warehouseId'', GStr ''w1''),
     (''expiresAt'', GStr ''2030-01-01T00:00:00Z''),
     (''items'', GArr [GObj [(''productId'', GStr ''p1''), (''quantity'', GF64 (Fin 4))]])]"

theorem reservation_complete_witness:
  "\<exists>lines. Decode decode_lines (p_items demo_request) = Some lines \<and>
     allocated_of (product_map (stocks (db (snd (reserve demo_env demo_request demo_placed))))) ''r1''
       (allocations (db (snd (reserve demo_env demo_request demo_placed)))) ''p1'' = requested demo_env lines ''p1''"
proof -
  let ?r = "reserve demo_env demo_request demo_placed"
  have f: "fst ?r = Inr ()" "find_row res_id ''r1'' (reservations (db demo_placed)) = None" by code_simp+
  then have r: "?r = (Inr (), snd ?r)" by (metis prod.collapse)
  have i: "demo_uuid (p_String demo_request ''reservationId'') = Some ''r1''" by code_simp
  from reservation_complete [OF demo_uuid_law demo_placed_reachable demo_env_uuid i f(2) r] show ?thesis by auto
qed

section \<open>Releasing and expiring\<close>

text \<open>
  C5: a release settles a reservation whatever its state: a confirmed one is closed and every lot
  gets back exactly what the reservation held of it, with one event that lists it; a shipped one
  is refused, a closed one is left alone, an unknown one is an error that is retried. Nothing
  else fails.
\<close>

theorem release_settles:
  assumes "uuid_law P" "inventory_reachable P S w" "pg_uuid E = P" "P i = Some rid" "fresh_uuids E (outbox (db w))"
    and "release E i expired w = (r, w')"
  shows "case find_row res_id rid (reservations (db w)) of
      None \<Rightarrow> r = Inl (Internal ''reservation command not yet processed'') \<and> w' = w
    | Some row \<Rightarrow>
        if res_status row = ''CONFIRMED'' then r = Inr () \<and> released E i rid expired (res_warehouse row) (db w) (db w')
        else if res_status row = ''COMPLETED'' then r = Inl (Fail ''ALREADY_SHIPPED'' ''Reservation already shipped'') \<and> w' = w
        else r = Inr () \<and> w' = w"
proof -
  have inv: "inv_with P [] (db w)" by (rule reachable_inventory_ok [OF assms(1,2)])
  have sel: "select_reservation E i w = (Inr (find_row res_id rid (reservations (db w))), w)"
    using assms(3,4) by (simp add: select_reservation_def sql_uuid_def bnd_def of_option_def ret_def gets_def)
  show ?thesis
  proof (cases "find_row res_id rid (reservations (db w))")
    case None
    then show ?thesis using assms(6) by (simp add: release_def bnd_def [of "select_reservation E i"] sel throw_def)
  next
    case (Some row)
    show ?thesis
    proof (cases "res_status row = ''CONFIRMED''")
      case True
      from wp_success [OF release_frees [OF inv _ Some True assms(5), of i expired]] assms(3,4,6)
      show ?thesis using Some True by auto
    next
      case False
      then show ?thesis using assms(6) Some
        by (simp add: release_def bnd_def [of "select_reservation E i"] sel throw_def ret_def split: if_splits)
    qed
  qed
qed

text \<open>In the demonstration deployment every UUID text is its own canonical form and new ones are fresh.\<close>

lemma demo_fresh:
  assumes "list_all (\<lambda>r. ob_id r \<noteq> [] \<and> hd (ob_id r) \<noteq> CHR ''v'') rows"
  shows "fresh_uuids (demo_env\<lparr>new_uuid := (\<lambda>n. CHR ''v'' # replicate n (CHR ''x''))\<rparr>) rows"
  using assms by (auto simp: fresh_uuids_def demo_env_def demo_uuid_def list_all_iff) (metis list.sel(1))

abbreviation later_env :: env where
  "later_env \<equiv> demo_env\<lparr>new_uuid := (\<lambda>n. CHR ''v'' # replicate n (CHR ''x'')), pg_now := 2 * 10 ^ 18\<rparr>"

lemma later_env_fresh:
  "fresh_uuids later_env (outbox (db demo_reserved))" "fresh_uuids later_env (outbox (db demo_shipped))"
proof -
  have o: "list_all (\<lambda>r. ob_id r \<noteq> [] \<and> hd (ob_id r) \<noteq> CHR ''v'') (outbox (db demo_reserved))"
    "list_all (\<lambda>r. ob_id r \<noteq> [] \<and> hd (ob_id r) \<noteq> CHR ''v'') (outbox (db demo_shipped))" by code_simp+
  show "fresh_uuids later_env (outbox (db demo_reserved))" "fresh_uuids later_env (outbox (db demo_shipped))"
    using demo_fresh [OF o(1)] demo_fresh [OF o(2)] by (simp_all add: fresh_uuids_def)
qed

lemma later_env_uuid: "pg_uuid later_env = demo_uuid" "demo_uuid ''r1'' = Some ''r1''"
  by (simp_all add: demo_env_def demo_uuid_def)

theorem release_settles_witness:
  "fst (release later_env ''r1'' False demo_reserved) = Inr ()
   \<and> map st_Reserved (stocks (db (snd (release later_env ''r1'' False demo_reserved)))) = [0]
   \<and> release later_env ''r1'' False demo_shipped = (Inl (Fail ''ALREADY_SHIPPED'' ''Reservation already shipped''), demo_shipped)"
proof -
  obtain r w' where a: "release later_env ''r1'' False demo_reserved = (r, w')" by force
  obtain r2 w2 where b: "release later_env ''r1'' False demo_shipped = (r2, w2)" by force
  have s: "map_option res_status (find_row res_id ''r1'' (reservations (db demo_reserved))) = Some ''CONFIRMED''"
    "map_option res_status (find_row res_id ''r1'' (reservations (db demo_shipped))) = Some ''COMPLETED''"
    "map st_Reserved (freed_lots later_env ''r1'' (db demo_reserved)) = [0]" by code_simp+
  from release_settles [OF demo_uuid_law demo_reserved_reachable later_env_uuid later_env_fresh(1) a] s
  have "r = Inr ()" "map st_Reserved (stocks (db w')) = [0]" by (auto simp: released_def)
  moreover from release_settles [OF demo_uuid_law demo_shipped_reachable later_env_uuid later_env_fresh(2) b] s
  have "r2 = Inl (Fail ''ALREADY_SHIPPED'' ''Reservation already shipped'')" "w2 = demo_shipped" by auto
  ultimately show ?thesis using a b by simp
qed

text \<open>
  A due reservation expires: when the worker treats it while the database is up, the
  transaction commits, the reservation is EXPIRED, its lots have back what it held, and one event
  says so.
\<close>

lemma due_expires:
  assumes "uuid_law P" "inventory_reachable P S w" "pg_uuid E = P" "P i = Some rid"
    and "find_row res_id rid (reservations (db w)) = Some row" "is_due E row"
    and "fresh_uuids E (outbox (db w))" "begin_ok E" "commit_ok E" "uuid_ok E warehouse"
  shows "\<exists>w'. expire_one E (i, warehouse) w = (Inr (), w')
    \<and> released E i rid True (res_warehouse row) (db w) (db w')
    \<and> find_row res_id rid (reservations (db w')) = Some (row\<lparr>res_status := ''EXPIRED''\<rparr>)"
proof -
  have "res_status row = ''CONFIRMED''" using assms(6) by (simp add: is_due_def)
  from expire_one_frees [OF reachable_inventory_ok [OF assms(1,2)] _ assms(5) this assms(7-10)] assms(3,4)
  obtain w' where w': "expire_one E (i, warehouse) w = (Inr (), w')"
    "released E i rid True (res_warehouse row) (db w) (db w')" by auto
  then have "find_row res_id rid (reservations (db w')) = Some (row\<lparr>res_status := ''EXPIRED''\<rparr>)"
    using assms(5) by (auto simp: released_def find_row_update_rows)
  with w' show ?thesis by blast
qed

section \<open>Shipping\<close>

text \<open>
  C4: a shipment that is accepted either was recorded before, under the same shipment, and then
  changes nothing, or it completes an active reservation of the right warehouse: every lot loses
  exactly what the reservation held of it, from its quantity and from its reserved quantity, no
  other row of the lots changes, and the event lists the lots.
\<close>

theorem shipment_settles:
  assumes "uuid_law P" "inventory_reachable P S w" "pg_uuid E = P" "ship E S p w = (Inr (), w')"
  shows "\<exists>rid row. P (p_String p ''reservationId'') = Some rid \<and> find_row res_id rid (reservations (db w)) = Some row
    \<and> (if res_status row = ''COMPLETED'' \<and> res_shipment row = Some (p_String p ''shipmentId'') then w' = w
       else res_status row = ''CONFIRMED'' \<and> go_now E (ticks w) < of_pg_time (res_expires row)
         \<and> res_warehouse row = p_String p ''warehouseId'' \<and> shipped E rid p (db w) w')"
proof -
  have inv: "inv_with (pg_uuid E) [] (db w)" using reachable_inventory_ok [OF assms(1,2)] assms(3) by simp
  from ship_effect [OF inv, of S p] assms(4) show ?thesis unfolding assms(3) by (simp add: wp_def)
qed

definition demo_shipment :: gobj where
  "demo_shipment = [(''reservationId'', GStr ''r1''), (''warehouseId'', GStr ''w1''), (''shipmentId'', GStr ''s1'')]"

theorem shipment_settles_witness:
  "fst (ship demo_env demo_service demo_shipment demo_reserved) = Inr ()
   \<and> map st_Quantity (stocks (db (snd (ship demo_env demo_service demo_shipment demo_reserved)))) = [6]"
proof -
  let ?r = "ship demo_env demo_service demo_shipment demo_reserved"
  have f: "fst ?r = Inr ()" by code_simp
  then have r: "?r = (Inr (), snd ?r)" by (metis prod.collapse)
  have s: "map_option res_status (find_row res_id ''r1'' (reservations (db demo_reserved))) = Some ''CONFIRMED''"
    "map st_Quantity (sent_lots demo_env ''r1'' (db demo_reserved)) = [6]"
    "demo_uuid (p_String demo_shipment ''reservationId'') = Some ''r1''" by code_simp+
  from shipment_settles [OF demo_uuid_law demo_reserved_reachable demo_env_uuid r] f s show ?thesis
    by (auto simp: shipped_def split: if_splits)
qed

section \<open>Refusals and failures\<close>






end
