(* ===== verification/Reservation_Expiry.thy ===== *)
theory Reservation_Expiry
  imports Reservation_Properties
begin

text \<open>
  The expiry worker of \<open>reservations.go\<close>: the ids of the stored reservations are read back as
  they are written (an invariant of the service), so that the transactions of a tick find the rows
  the scan has met, and a tick expires all of them.
\<close>

section \<open>Stored ids\<close>

definition named :: "(string \<Rightarrow> string option) \<Rightarrow> idb \<Rightarrow> bool" where
  "named P d = (\<forall>r \<in> set (reservations d). P (res_id r) = Some (res_id r) \<and> P (res_warehouse r) = Some (res_warehouse r))"

interpretation named: lot_frame "named P" for P
  by unfold_locales (simp_all add: named_def)

lemma keeps_named_statements:
  assumes "uuid_law P" "pg_uuid E = P"
  shows "keeps (\<lambda>w. named P (db w)) (insert_reservation E i u s n)"
    "keeps (\<lambda>w. named P (db w)) (insert_reservation_if_absent E i u s n)"
    "keeps (\<lambda>w. named P (db w)) (insert_allocation E i l k)"
    "keeps (\<lambda>w. named P (db w)) (unreserve_all E i)"
  using assms
  by (auto simp: leads_def wp_simps insert_reservation_def insert_reservation_if_absent_def new_reservation_def
      insert_allocation_def unreserve_all_def Let_def named_def uuid_law_def)

lemma keeps_named_update:
  assumes "\<And>r. res_id (f r) = res_id r" "\<And>r. res_warehouse (f r) = res_warehouse r"
  shows "keeps (\<lambda>w. named P (db w)) (update_reservation E i f)"
  using assms by (auto simp: leads_def wp_simps update_reservation_def named_def update_rows_def)

lemma keeps_named_take_lots:
  assumes "uuid_law P" "pg_uuid E = P"
  shows "keeps (\<lambda>w. named P (db w)) (take_lots E i lots n)"
proof (induction lots arbitrary: n)
  case (Cons a lots)
  then show ?case
    by (cases a) (simp only: take_lots.simps, (rule Cons.IH named.lot_rules keeps_named_statements [OF assms])+)
qed (simp add: keeps_ret)

lemma keeps_named_lines:
  assumes "uuid_law P" "pg_uuid E = P"
  shows "keeps (\<lambda>w. named P (db w)) (reserve_lines E i u seen lines)"
proof (induction lines arbitrary: seen)
  case (Cons a lines)
  show ?case unfolding reserve_lines.simps
    by (rule Cons.IH named.lot_rules keeps_reservation_reads [where J = "named P"] keeps_named_take_lots [OF assms])+
qed (simp add: keeps_ret)

lemma keeps_named:
  assumes "uuid_law P" "pg_uuid E = P"
  shows "keeps (\<lambda>w. named P (db w)) (reserve E p)" "keeps (\<lambda>w. named P (db w)) (release E i x)"
    "keeps (\<lambda>w. named P (db w)) (ship E S p)" "keeps (\<lambda>w. named P (db w)) (reject E e f)"
  unfolding reserve_def release_def ship_def reject_def
  by ((cases f, simp_all only: err.case)?,
      (rule named.lot_rules keeps_named_statements [OF assms] keeps_named_lines [OF assms] named.keeps_ship_all
        keeps_reservation_reads [where J = "named P"] | (rule keeps_named_update; simp; fail))+)+

interpretation naming: code_invariant "\<lambda>d. uuid_law P \<longrightarrow> named P d" P S for P S
proof unfold_locales
  fix E :: env and i e q a c
  assume P: "pg_uuid E = P"
  have lift: "keeps (\<lambda>w. uuid_law P \<longrightarrow> named P (db w)) m"
    if "uuid_law P \<Longrightarrow> keeps (\<lambda>w. named P (db w)) m" for m :: "(idb, 'b) wprog"
    using that by (cases "uuid_law P") (simp_all add: leads_def wp_def split: prod.split sum.split)
  show "keeps (\<lambda>w. uuid_law P \<longrightarrow> named P (db w)) (Receive E S q)"
    by (rule lift, rule named.keeps_Receive)
  show "keeps (\<lambda>w. uuid_law P \<longrightarrow> named P (db w)) (Change E S a c)"
    by (rule lift, rule named.keeps_Change)
  show "keeps (\<lambda>w. uuid_law P \<longrightarrow> named P (db w)) (release E i True)"
    by (rule lift, rule keeps_named(2)) (simp_all add: P)
  show "keeps (\<lambda>w. uuid_law P \<longrightarrow> named P (db w)) (Handle S E e)"
    unfolding Handle_def dispatch_def
    by (rule lift, intro keeps_rules named.lot_rules leads_Savepoint [where J = "named P"] keeps_named named.keeps_place)
      (simp_all add: P)
qed (simp_all add: named_def)

lemma reachable_named:
  assumes "uuid_law P" "inventory_reachable P S w"
  shows "named P (db w)"
  using naming.reachable_keeps [OF assms(2)] assms(1) by (simp add: named_def empty_idb_def)

section \<open>A tick\<close>

text \<open>New ids for a sequence of transactions: none is in use, and no two transactions share one.\<close>

fun fresh_each :: "env list \<Rightarrow> outbox_row list \<Rightarrow> bool" where
  "fresh_each [] rows = True"
| "fresh_each (E # Es) rows = (fresh_uuids E rows
     \<and> (\<forall>E' \<in> set Es. \<forall>m n. pg_uuid E (new_uuid E m) \<noteq> pg_uuid E' (new_uuid E' n))
     \<and> fresh_each Es rows)"

lemma fresh_each_append:
  assumes "fresh_each Es rows" "\<forall>E \<in> set Es. \<forall>n. pg_uuid E (new_uuid E n) \<noteq> Some (ob_id ev)"
  shows "fresh_each Es (rows @ [ev])"
  using assms by (induction Es) (auto simp: fresh_uuids_def, metis)

text \<open>A batch of reservations has expired: these rows, what they held, and one event for each.\<close>

definition expired_all :: "(string \<times> string) list \<Rightarrow> idb \<Rightarrow> idb \<Rightarrow> bool" where
  "expired_all batch d d' =
     (reservations d' = map (\<lambda>r. if res_id r \<in> fst ` set batch then r\<lparr>res_status := ''EXPIRED''\<rparr> else r) (reservations d)
    \<and> map (\<lambda>r. (st_ID r, st_Quantity r, st_Reserved r)) (stocks d') =
        map (\<lambda>r. (st_ID r, st_Quantity r,
          st_Reserved r - (\<Sum>x\<leftarrow>batch. held_on (fst x) (allocations d) (st_ID r)))) (stocks d)
    \<and> allocations d' = allocations d
    \<and> (\<exists>evs. outbox d' = outbox d @ evs \<and> map ob_type evs = replicate (length batch) ''ReservationExpired''))"

definition ready :: "(string \<Rightarrow> string option) \<Rightarrow> (string \<times> string) list \<Rightarrow> env \<Rightarrow> bool" where
  "ready P batch E = (pg_uuid E = P \<and> begin_ok E \<and> commit_ok E \<and> (\<forall>x \<in> set batch. uuid_ok E (snd x)))"

lemma released_lots:
  assumes "released E i i True u d d'"
  shows "map (\<lambda>r. (st_ID r, st_Quantity r, st_Reserved r)) (stocks d') =
     map (\<lambda>r. (st_ID r, st_Quantity r, st_Reserved r - held_on i (allocations d) (st_ID r))) (stocks d)"
  using assms by (auto simp: released_def freed_lots_def freed_def)

lemma expired_step:
  assumes "released E i i True u d d1" "expired_all batch d1 d2" "i \<notin> fst ` set batch"
  shows "expired_all ((i, u') # batch) d d2"
proof -
  let ?key = "\<lambda>r. (st_ID r, st_Quantity r, st_Reserved r)"
  let ?f = "\<lambda>x. (\<lambda>(j, q, n). (j, q, n - (\<Sum>y\<leftarrow>x. held_on (fst y) (allocations d) j)))"
  have al: "allocations d1 = allocations d" using assms(1) by (auto simp: released_def)
  have "map ?key (stocks d2) = map (?f batch) (map ?key (stocks d1))"
    using assms(2) al by (simp add: expired_all_def)
  also have "\<dots> = map (?f ((i, u') # batch)) (map ?key (stocks d))"
    unfolding released_lots [OF assms(1)] by simp
  finally have lots: "map ?key (stocks d2) = map (\<lambda>r. (st_ID r, st_Quantity r,
      st_Reserved r - (\<Sum>x\<leftarrow>(i, u') # batch. held_on (fst x) (allocations d) (st_ID r)))) (stocks d)"
    by simp
  have rows: "reservations d2 = map (\<lambda>r. if res_id r \<in> fst ` set ((i, u') # batch)
      then r\<lparr>res_status := ''EXPIRED''\<rparr> else r) (reservations d)"
    using assms by (auto simp: expired_all_def released_def update_rows_def)
  obtain evs ev where "outbox d2 = outbox d @ ev # evs" "ob_type ev = ''ReservationExpired''"
    "map ob_type evs = replicate (length batch) ''ReservationExpired''"
    using assms(1,2) by (auto simp: expired_all_def released_def)
  then have out: "\<exists>evs. outbox d2 = outbox d @ evs
      \<and> map ob_type evs = replicate (length ((i, u') # batch)) ''ReservationExpired''"
    by (intro exI [of _ "ev # evs"]) simp
  show ?thesis unfolding expired_all_def
    using lots rows out assms(2) al by (simp only: expired_all_def simp_thms)
qed

lemma expire_batch_expires:
  assumes "uuid_law P" "inv_with P [] (db w)" "length batch \<le> length Es" "fresh_each Es (outbox (db w))"
    and "\<forall>E \<in> set Es. ready P batch E" "distinct (map fst batch)"
    and "\<forall>x \<in> set batch. P (fst x) = Some (fst x) \<and> confirmed (reservations (db w)) (fst x)"
  shows "expired_all batch (db w) (db (expire_batch (zip Es batch) w))"
  using assms
proof (induction batch arbitrary: Es w)
  case Nil
  then show ?case by (simp add: expired_all_def)
next
  case (Cons x batch)
  obtain i u where x: "x = (i, u)" by force
  obtain E Es' where Es: "Es = E # Es'" using Cons.prems(3) by (cases Es) auto
  have E: "pg_uuid E = P" "begin_ok E" "commit_ok E" "uuid_ok E u"
    using Cons.prems(5) by (simp_all add: Es x ready_def)
  obtain row where row: "find_row res_id i (reservations (db w)) = Some row" "res_status row = ''CONFIRMED''"
    using Cons.prems(2,7) find_row_distinct [of res_id "reservations (db w)"]
    by (fastforce simp: x confirmed_def inv_with_def tables_ok_def)
  obtain w1 where w1: "expire_one E (i, u) w = (Inr (), w1)" "released E i i True (res_warehouse row) (db w) (db w1)"
    using expire_one_frees [of "pg_uuid E" w E i i row u] Cons.prems(2,4,7) row E by (auto simp: Es x)
  obtain ev n where ev: "outbox (db w1) = outbox (db w) @ [ev]" "pg_uuid E (new_uuid E n) = Some (ob_id ev)"
    "reservations (db w1) = update_rows res_id i (\<lambda>r. r\<lparr>res_status := ''EXPIRED''\<rparr>) (reservations (db w))"
    using w1(2) by (auto simp: released_def)
  have "expired_all batch (db w1) (db (expire_batch (zip Es' batch) w1))"
  proof (rule Cons.IH)
    show "inv_with P [] (db w1)"
      using invariant.expiry [OF E(1), of w "(i, u)"] Cons.prems(1,2) w1(1) by simp
    show "fresh_each Es' (outbox (db w1))"
      unfolding ev(1) by (rule fresh_each_append) (use Cons.prems(4) ev(2) in \<open>auto simp: Es, metis\<close>)
    show "\<forall>x \<in> set batch. P (fst x) = Some (fst x) \<and> confirmed (reservations (db w1)) (fst x)"
      using Cons.prems(6,7) by (force simp: x ev(3) confirmed_def update_rows_def)
  qed (use Cons.prems in \<open>auto simp: Es ready_def\<close>)
  from expired_step [OF w1(2) this] Cons.prems(6) show ?case by (simp add: Es x w1(1))
qed

text \<open>The batch of a tick: due rows, each once, as many as there are up to a hundred.\<close>

lemma due_batch_rows:
  assumes "mset (scan rows) = mset rows" "distinct (map res_id rows)"
  shows "distinct (map fst (due_batch E scan rows))"
    and "set (due_batch E scan rows) \<subseteq> (\<lambda>r. (res_id r, res_warehouse r)) ` {r \<in> set rows. is_due E r}"
    and "length (due_batch E scan rows) = min 100 (length (filter (is_due E) rows))"
proof -
  have s: "set (scan rows) = set rows" using assms(1) by (metis mset_eq_setD)
  have "distinct (map res_id (scan rows))" using assms by (metis mset_eq_imp_distinct_iff mset_map)
  then have "distinct (map res_id (take 100 (filter (is_due E) (scan rows))))"
    by (simp add: distinct_map_filter flip: take_map)
  then show "distinct (map fst (due_batch E scan rows))" by (simp add: due_batch_def comp_def)
  show "set (due_batch E scan rows) \<subseteq> (\<lambda>r. (res_id r, res_warehouse r)) ` {r \<in> set rows. is_due E r}"
    unfolding due_batch_def using s by (auto dest: in_set_takeD)
  have "length (filter (is_due E) (scan rows)) = length (filter (is_due E) rows)"
    using assms(1) by (metis mset_filter size_mset)
  then show "length (due_batch E scan rows) = min 100 (length (filter (is_due E) rows))"
    by (simp add: due_batch_def min.commute)
qed

lemma filter_map_if:
  assumes "\<And>r. C r \<Longrightarrow> \<not> D (f r)"
  shows "filter D (map (\<lambda>r. if C r then f r else r) rows) = filter (\<lambda>r. \<not> C r) (filter D rows)"
  using assms by (induction rows) auto

lemma due_left:
  assumes "distinct (map res_id rows)" "distinct (map fst batch)"
    and "set batch \<subseteq> (\<lambda>r. (res_id r, res_warehouse r)) ` {r \<in> set rows. is_due E r}"
  shows "length (filter (is_due E) (map (\<lambda>r. if res_id r \<in> fst ` set batch then r\<lparr>res_status := ''EXPIRED''\<rparr> else r) rows))
    = length (filter (is_due E) rows) - length batch"
proof -
  let ?in = "\<lambda>r. res_id r \<in> fst ` set batch"
  have left: "filter (is_due E) (map (\<lambda>r. if ?in r then r\<lparr>res_status := ''EXPIRED''\<rparr> else r) rows)
      = filter (\<lambda>r. \<not> ?in r) (filter (is_due E) rows)"
    by (rule filter_map_if) (simp add: is_due_def)
  have "length (filter ?in (filter (is_due E) rows)) = length batch"
  proof -
    have d: "distinct (map res_id (filter ?in (filter (is_due E) rows)))" by (simp add: distinct_map_filter assms(1))
    have "res_id ` set (filter ?in (filter (is_due E) rows)) = fst ` set batch"
    proof (intro equalityI subsetI)
      fix i assume "i \<in> fst ` set batch"
      then obtain r where "r \<in> set rows" "is_due E r" "res_id r = i" using assms(3) by fastforce
      then show "i \<in> res_id ` set (filter ?in (filter (is_due E) rows))"
        using \<open>i \<in> fst ` set batch\<close> by (intro image_eqI [of _ _ r]) simp_all
    next
      fix i assume "i \<in> res_id ` set (filter ?in (filter (is_due E) rows))"
      then show "i \<in> fst ` set batch" by (auto simp only: set_filter mem_Collect_eq)
    qed
    then show ?thesis using distinct_card [OF d] distinct_card [OF assms(2)] by (metis length_map set_map)
  qed
  moreover have "length (filter ?in (filter (is_due E) rows)) + length (filter (\<lambda>r. \<not> ?in r) (filter (is_due E) rows))
      = length (filter (is_due E) rows)"
    by (rule sum_length_filter_compl)
  ultimately show ?thesis unfolding left by linarith
qed

text \<open>
  C18: due reservations expire: a tick of the worker while the database is up expires every
  reservation of its batch, which holds all that are due up to a hundred, whatever the order of the
  scan: their lots get back exactly what they held, one event is written for each, and every other
  reservation stays as it is; so any backlog of due reservations is gone after a bounded number of
  ticks.
\<close>

theorem tick_expires:
  assumes "uuid_law P" "inventory_reachable P S w" "mset (scan (reservations (db w))) = mset (reservations (db w))"
    and "length (due_batch E0 scan (reservations (db w))) \<le> length Es" "fresh_each Es (outbox (db w))"
    and "\<And>E. E \<in> set Es \<Longrightarrow> pg_uuid E = P \<and> begin_ok E \<and> commit_ok E \<and> (\<forall>u. P u = Some u \<longrightarrow> uuid_ok E u)"
  shows "let n = length (filter (is_due E0) (reservations (db w)));
      batch = due_batch E0 scan (reservations (db w));
      w' = Work_tick E0 True scan Es w
    in length batch = min 100 n \<and> expired_all batch (db w) (db w')
      \<and> length (filter (is_due E0) (reservations (db w'))) = n - 100"
proof -
  let ?batch = "due_batch E0 scan (reservations (db w))"
  let ?n = "length (filter (is_due E0) (reservations (db w)))"
  let ?w = "Work_tick E0 True scan Es w"
  have inv: "inv_with P [] (db w)" by (rule reachable_inventory_ok [OF assms(1,2)])
  then have d: "distinct (map res_id (reservations (db w)))" by (simp add: inv_with_def tables_ok_def)
  note b = due_batch_rows [where scan = scan and rows = "reservations (db w)" and E = E0, OF assms(3) d]
  have rows: "P (fst x) = Some (fst x) \<and> P (snd x) = Some (snd x) \<and> confirmed (reservations (db w)) (fst x)"
    if "x \<in> set ?batch" for x
    using that b(2) reachable_named [OF assms(1,2)] by (fastforce simp: named_def confirmed_def is_due_def)
  have e: "expired_all ?batch (db w) (db ?w)"
    unfolding Work_tick_def if_True
    by (rule expire_batch_expires [OF assms(1) inv _ assms(5)])
      (use assms(4,6) b(1,3) rows in \<open>auto simp: ready_def\<close>)
  have "length (filter (is_due E0) (reservations (db ?w))) = ?n - length ?batch"
    using e due_left [OF d b(1,2)] by (simp add: expired_all_def)
  with e b(3) show ?thesis by (simp add: Let_def)
qed

theorem tick_expires_witness:
  "length (filter (is_due later_env) (reservations (db demo_reserved))) = 1
    \<and> filter (is_due later_env) (reservations (db (Work_tick later_env True id [later_env] demo_reserved))) = []
    \<and> map res_status (reservations (db (Work_tick later_env True id [later_env] demo_reserved))) = [''EXPIRED'']
    \<and> map (\<lambda>r. (st_Quantity r, st_Reserved r)) (stocks (db (Work_tick later_env True id [later_env] demo_reserved))) = [(10, 0)]"
proof -
  let ?w = "Work_tick later_env True id [later_env] demo_reserved"
  have b: "due_batch later_env id (reservations (db demo_reserved)) = [(''r1'', ''w1'')]" by code_simp
  have n: "length (filter (is_due later_env) (reservations (db demo_reserved))) = 1" by code_simp
  have r: "map res_id (reservations (db demo_reserved)) = [''r1'']" by code_simp
  have s: "map (\<lambda>r. (st_ID r, st_Quantity r,
      st_Reserved r - (\<Sum>x\<leftarrow>[(''r1'', ''w1'')]. held_on (fst x) (allocations (db demo_reserved)) (st_ID r))))
      (stocks (db demo_reserved)) = [(hd (map st_ID (stocks (db demo_reserved))), 10, 0)]" by code_simp
  have "fresh_each [later_env] (outbox (db demo_reserved))" using later_env_fresh(1) by simp
  from tick_expires [where ?E0.0 = later_env and scan = id and Es = "[later_env]", OF demo_uuid_law demo_reserved_reachable _ _ this]
  have e: "expired_all [(''r1'', ''w1'')] (db demo_reserved) (db ?w)"
    and l: "length (filter (is_due later_env) (reservations (db ?w))) = 0"
    unfolding Let_def b n by (simp_all add: demo_env_def demo_uuid_def)
  have "map res_status (reservations (db ?w)) = [''EXPIRED'']"
    using e r by (auto simp: expired_all_def map_eq_Cons_conv)
  moreover have "map (\<lambda>r. (st_ID r, st_Quantity r, st_Reserved r)) (stocks (db ?w)) = [(hd (map st_ID (stocks (db demo_reserved))), 10, 0)]"
    using e unfolding expired_all_def s by blast
  then have "map (\<lambda>r. (st_Quantity r, st_Reserved r)) (stocks (db ?w)) = [(10, 0)]" by (auto simp: map_eq_Cons_conv)
  ultimately show ?thesis using n l by simp
qed

end
