(* ===== verification/Audit_Service.thy ===== *)
theory Audit_Service
  imports Delivery "HOL-Library.Product_Lexorder"
begin

text \<open>
  The audit service (\<open>services/audit-service/internal/application/service.go\<close>): it records every
  event it consumes once, under the first identifier its payload carries, and serves filtered and
  paged reads of the record.
\<close>

section \<open>The table\<close>

record audit_row =
  au_id :: string
  au_type :: string
  au_kind :: string
  au_aggregate :: string
  au_payload :: json
  au_time :: int
  au_correlation :: string
  au_source :: string

record adb = pdb +
  audit_events :: "audit_row list"

section \<open>The event handler\<close>

definition aggregate_fields :: "string list" where
  "aggregate_fields = [''stockId'', ''shipmentId'', ''reservationId'', ''locationId'', ''productId'',
     ''warehouseId'', ''id'']"

fun first_aggregate :: "string list \<Rightarrow> gobj \<Rightarrow> string \<times> string \<Rightarrow> string \<times> string" where
  "first_aggregate [] payload d = d"
| "first_aggregate (field # rest) payload d =
     (let v = p_String payload field
      in if v \<noteq> [] then (field, v) else first_aggregate rest payload d)"

text \<open>\<open>event_id\<close> holds the same value as the key \<open>id\<close>.\<close>

definition audit_entry :: "gobj delivered \<Rightarrow> string \<Rightarrow> json \<Rightarrow> audit_row" where
  "audit_entry e u body =
     (case first_aggregate aggregate_fields (ev_payload e) (''event'', ev_id e) of (kind, aggregate) \<Rightarrow>
      \<lparr>au_id = u, au_type = ev_type e, au_kind = kind, au_aggregate = aggregate, au_payload = body,
       au_time = to_pg_time (ev_time e), au_correlation = ev_correlation e, au_source = ev_source e\<rparr>)"

text \<open>A nil payload is sent as NULL, which the column refuses before it looks for a conflict.\<close>

definition Audit_Handle :: "env \<Rightarrow> gobj delivered \<Rightarrow> (adb, unit) wprog" where
  "Audit_Handle E e =
     bnd (sql_uuid E (ev_id e)) (\<lambda>u.
     andthen (stop_if (ev_nil e) not_null_payload)
     (bnd (of_option (Internal ''json: unsupported value'') (marshal (GObj (ev_payload e)))) (\<lambda>body.
     modify (\<lambda>w. if find_row au_id u (audit_events (db w)) = None
       then w\<lparr>db := (db w)\<lparr>audit_events := audit_events (db w) @ [audit_entry e u body]\<rparr>\<rparr>
       else w))))"

section \<open>Reading the record\<close>

text \<open>
  \<open>strconv.Atoi\<close>: an optional sign and decimal digits, within 64 bits.
\<close>

definition digits_number :: "string \<Rightarrow> int option" where
  "digits_number s = (if s \<noteq> [] \<and> list_all is_digit s then Some (digits_val s) else None)"

definition Atoi :: "string \<Rightarrow> int option" where
  "Atoi s =
     (let n = (case s of
          [] \<Rightarrow> None
        | c # r \<Rightarrow> if c = CHR ''-'' then map_option uminus (digits_number r)
                 else if c = CHR ''+'' then digits_number r else digits_number s)
      in case n of None \<Rightarrow> None | Some v \<Rightarrow> if is_i64 v then Some v else None)"

text \<open>
  What the query leaves to PostgreSQL: the text of a JSON value that is not a string, and whether
  the planner looks into the items of a row that the other conditions exclude.
\<close>

record audit_env =
  aq_text :: "json \<Rightarrow> string"
  aq_eager :: "string \<Rightarrow> bool"

text \<open>\<open>j ->> key\<close>, \<open>None\<close> for SQL null.\<close>

definition json_text :: "audit_env \<Rightarrow> string \<Rightarrow> json \<Rightarrow> string option" where
  "json_text A key j = (case j of
      JObj kvs \<Rightarrow> (case map_of kvs key of
          None \<Rightarrow> None | Some JNull \<Rightarrow> None | Some (JStr s) \<Rightarrow> Some s | Some v \<Rightarrow> Some (aq_text A v))
    | _ \<Rightarrow> None)"

text \<open>\<open>jsonb_array_elements(coalesce(payload->'items', '[]'))\<close>, an error on what is no array.\<close>

definition item_elements :: "json \<Rightarrow> json list option" where
  "item_elements payload = (case payload of
      JObj kvs \<Rightarrow> (case map_of kvs ''items'' of
          None \<Rightarrow> Some [] | Some (JArr js) \<Rightarrow> Some js | Some _ \<Rightarrow> None)
    | _ \<Rightarrow> Some [])"

text \<open>The condition on the product: true, false or an error.\<close>

definition product_matches :: "audit_env \<Rightarrow> string \<Rightarrow> audit_row \<Rightarrow> bool option" where
  "product_matches A product r =
     (if product = [] \<or> json_text A ''productId'' (au_payload r) = Some product then Some True
      else map_option (list_ex (\<lambda>item. json_text A ''productId'' item = Some product))
        (item_elements (au_payload r)))"

definition other_matches :: "audit_env \<Rightarrow> string \<Rightarrow> string \<Rightarrow> audit_row \<Rightarrow> bool" where
  "other_matches A warehouse kind r =
     ((warehouse = [] \<or> json_text A ''warehouseId'' (au_payload r) = Some warehouse)
      \<and> (kind = [] \<or> au_type r = kind))"

definition row_matches :: "audit_env \<Rightarrow> string \<Rightarrow> string \<Rightarrow> string \<Rightarrow> audit_row \<Rightarrow> bool option" where
  "row_matches A product warehouse kind r =
     (if \<not> other_matches A warehouse kind r \<and> \<not> aq_eager A (au_id r) then Some False
      else map_option (\<lambda>b. b \<and> other_matches A warehouse kind r) (product_matches A product r))"

definition audit_order :: "audit_row list \<Rightarrow> audit_row list" where
  "audit_order rows = sort_key (\<lambda>r. (au_time r, au_id r)) rows"

definition audit_query ::
  "audit_env \<Rightarrow> string \<Rightarrow> string \<Rightarrow> string \<Rightarrow> int \<Rightarrow> int \<Rightarrow> audit_row list \<Rightarrow> audit_row list option" where
  "audit_query A product warehouse kind limit offset rows =
     (if list_ex (\<lambda>r. row_matches A product warehouse kind r = None) rows then None
      else Some (take (nat limit) (drop (nat offset)
        (audit_order (filter (\<lambda>r. row_matches A product warehouse kind r = Some True) rows)))))"

definition audit_json :: "env \<Rightarrow> audit_row \<Rightarrow> json" where
  "audit_json E r = JObj
     [(''id'', JStr (au_id r)), (''event_id'', JStr (au_id r)), (''event_type'', JStr (au_type r)),
      (''aggregate_type'', JStr (au_kind r)), (''aggregate_id'', JStr (au_aggregate r)),
      (''payload'', au_payload r), (''timestamp'', JStr (pg_ts_text E (au_time r))),
      (''correlation_id'', JStr (au_correlation r)), (''source'', JStr (au_source r))]"

definition page_limit :: "string \<Rightarrow> err + int" where
  "page_limit v =
     (if v = [] then Inr 100 else case Atoi v of
        Some n \<Rightarrow> if n < 1 \<or> 500 < n then Inl (Fault ''VALIDATION_ERROR'' ''limit 1..500'' 400) else Inr n
      | None \<Rightarrow> Inl (Fault ''VALIDATION_ERROR'' ''limit 1..500'' 400))"

definition page_offset :: "string \<Rightarrow> err + int" where
  "page_offset v =
     (if v = [] then Inr 0 else case Atoi v of
        Some n \<Rightarrow> if n < 0 then Inl (Fault ''VALIDATION_ERROR'' ''offset >= 0'' 400) else Inr n
      | None \<Rightarrow> Inl (Fault ''VALIDATION_ERROR'' ''offset >= 0'' 400))"

definition audit_list ::
  "audit_env \<Rightarrow> string \<Rightarrow> string \<Rightarrow> string \<Rightarrow> string \<Rightarrow> string \<Rightarrow> env \<Rightarrow> (adb, gov) wprog" where
  "audit_list A product warehouse kind limit_text offset_text E =
     andthen (if product \<noteq> [] then ID E product else ret ())
     (andthen (if warehouse \<noteq> [] then ID E warehouse else ret ())
     (bnd (of_sum (page_limit limit_text)) (\<lambda>limit.
      bnd (of_sum (page_offset offset_text)) (\<lambda>offset.
      bnd (gets (\<lambda>w. audit_query A product warehouse kind limit offset (audit_events (db w)))) (\<lambda>found.
      bnd (of_option (Internal ''audit query'') found) (\<lambda>rows.
      bnd (read_rows (map (audit_json E) rows)) (\<lambda>out. ret (GArr (map GObj out)))))))))"

definition audit_get :: "string \<Rightarrow> env \<Rightarrow> (adb, gov) wprog" where
  "audit_get i E =
     andthen (ID E i)
     (bnd (sql_uuid E i) (\<lambda>u.
      bnd (gets (\<lambda>w. filter (\<lambda>r. au_id r = u) (audit_events (db w)))) (\<lambda>rows.
      bnd (read_rows (map (audit_json E) rows)) (\<lambda>out.
      case out of
        [] \<Rightarrow> throw (Fault ''NOT_FOUND'' ''Event not found'' 404)
      | x # _ \<Rightarrow> ret (GObj x)))))"

section \<open>Every run of the service\<close>

inductive audit_step ::
  "(string \<Rightarrow> string option) \<Rightarrow> string \<Rightarrow> adb world \<Rightarrow> adb world \<Rightarrow> bool" for P N where
  deliver: "pg_uuid E = P \<Longrightarrow> svc_name E = N \<Longrightarrow>
    audit_step P N w (snd (attempt_event E Audit_Handle m w))"
| dead_letter: "audit_step P N w (snd (WriteMessages E (dead_letter E m e) w))"
| publish: "audit_step P N w (Outbox_tick E w)"
| listing: "audit_step P N w (snd (Wrap E header (audit_list A p u k l i) w))"
| get: "audit_step P N w (snd (Wrap E header (audit_get i) w))"

definition empty_adb :: adb where
  "empty_adb = \<lparr>outbox = [], processed = [], commands = [], audit_events = []\<rparr>"

inductive audit_reachable ::
  "(string \<Rightarrow> string option) \<Rightarrow> string \<Rightarrow> adb world \<Rightarrow> bool" for P N where
  start: "db w = empty_adb \<Longrightarrow> audit_reachable P N w"
| step: "audit_reachable P N w \<Longrightarrow> audit_step P N w w' \<Longrightarrow> audit_reachable P N w'"

lemma audit_query_db [simp]:
  "db (snd (audit_list A p u k l i E w)) = db w" "db (snd (audit_get i E w)) = db w"
proof -
  have "wp (audit_list A p u k l i E) (\<lambda>_ t. db t = db w) (\<lambda>_ t. db t = db w) w"
    by (simp add: audit_list_def read_rows_def wp_simps)
  then show "db (snd (audit_list A p u k l i E w)) = db w"
    by (auto simp: wp_def split: prod.splits sum.splits)
  have "wp (audit_get i E) (\<lambda>_ t. db t = db w) (\<lambda>_ t. db t = db w) w"
    by (auto simp: audit_get_def read_rows_def wp_simps split: list.split)
  then show "db (snd (audit_get i E w)) = db w"
    by (auto simp: wp_def split: prod.splits sum.splits)
qed

lemma Audit_Handle_run:
  "Audit_Handle E e w = (case pg_uuid E (ev_id e) of
      None \<Rightarrow> (Inl (Internal ''invalid input syntax for type uuid''), w)
    | Some u \<Rightarrow> if ev_nil e then (Inl not_null_payload, w) else (case marshal (GObj (ev_payload e)) of
        None \<Rightarrow> (Inl (Internal ''json: unsupported value''), w)
      | Some body \<Rightarrow> (Inr (), if u \<in> au_id ` set (audit_events (db w)) then w
          else w\<lparr>db := (db w)\<lparr>audit_events := audit_events (db w) @ [audit_entry e u body]\<rparr>\<rparr>)))"
  by (simp add: Audit_Handle_def bnd_def sql_uuid_def of_option_def modify_def throw_def ret_def
      andthen_def stop_if_def find_row_None_iff split: option.split)

lemma audit_entry_id [simp]: "au_id (audit_entry e u body) = u"
  by (simp add: audit_entry_def split: prod.split)

interpretation audit: inbox_handler Audit_Handle
  by unfold_locales (auto simp: Audit_Handle_run split: option.splits if_splits)

text \<open>The record only grows.\<close>

definition extends :: "audit_row list \<Rightarrow> adb \<Rightarrow> bool" where
  "extends rows d = (take (length rows) (audit_events d) = rows)"

interpretation growing: handler_invariant "extends rows" Audit_Handle P for rows P
proof unfold_locales
  fix E :: env and e
  show "keeps (\<lambda>w. extends rows (db w)) (Audit_Handle E e)"
    by (auto simp: leads_def wp_def Audit_Handle_run extends_def split: option.split)
qed (simp_all add: extends_def)

lemma audit_step_extends:
  assumes "audit_step P N w w'" "extends rows (db w)"
  shows "extends rows (db w')"
  using assms(1)
proof (cases rule: audit_step.cases)
  case (deliver E m)
  then show ?thesis using assms(2) by (auto intro: growing.attempt_keeps)
qed (use assms(2) in \<open>auto intro: growing.Outbox_tick_keeps growing.Wrap_keeps\<close>)

text \<open>The record and the inbox name the same events, each once.\<close>

definition audit_ok :: "string \<Rightarrow> adb \<Rightarrow> bool" where
  "audit_ok N d = (distinct (map au_id (audit_events d))
     \<and> set (processed d) = (\<lambda>r. (au_id r, N)) ` set (audit_events d))"

lemma audit_ok_outbox: "audit_ok N (d\<lparr>outbox := a\<rparr>) = audit_ok N d"
  by (simp add: audit_ok_def)

interpretation consistent: outbox_invariant "audit_ok N" for N
  by unfold_locales (rule audit_ok_outbox)

lemma Process_audit_ok:
  assumes "audit_ok N (db w)" "svc_name E = N"
  shows "audit_ok N (db (snd (Process E ev Audit_Handle w)))"
proof (cases "Process E ev Audit_Handle w")
  case (Pair r w')
  show ?thesis
  proof (cases r)
    case (Inl e)
    then have "db w' = db w" using Pair by (auto simp: Process_def dest: Transaction_error_db)
    then show ?thesis using assms Pair by simp
  next
    case (Inr x)
    with Pair have "Process E ev Audit_Handle w = (Inr x, w')" by simp
    then show ?thesis
    proof (cases rule: Process_InrE)
      case 1
      then show ?thesis using assms Pair by simp
    next
      case (2 u t)
      have "u \<notin> au_id ` set (audit_events (db w))" using 2(4) assms by (auto simp: audit_ok_def)
      with 2 assms Pair show ?thesis
        by (auto simp: Audit_Handle_run marked_def audit_ok_def split: option.splits if_splits)
    qed
  qed
qed

lemma audit_step_ok:
  assumes "audit_step P N w w'" "audit_ok N (db w)"
  shows "audit_ok N (db w')"
  using assms(1)
proof (cases rule: audit_step.cases)
  case (deliver E m)
  then show ?thesis using assms(2)
    by (auto simp: attempt_event_def attempt_read_def throw_def intro: Process_audit_ok split: sum.split)
qed (use assms(2) in \<open>auto intro: consistent.Outbox_tick_keeps consistent.Wrap_keeps\<close>)

lemma audit_reachable_ok:
  assumes "audit_reachable P N w"
  shows "audit_ok N (db w)"
  using assms
proof (induction rule: audit_reachable.induct)
  case (start w)
  then show ?case by (simp add: audit_ok_def empty_adb_def)
next
  case (step w w')
  then show ?case by (blast intro: audit_step_ok)
qed

end
