(* ===== verification/Audit_Properties.thy ===== *)
theory Audit_Properties
  imports Audit_Service
begin

text \<open>
  What the audit service guarantees: its record is complete, free of duplicates and append-only,
  and its paged reads cover exactly the matching rows in time order.
\<close>

section \<open>A concrete run\<close>

definition trail_env :: env where
  "trail_env = \<lparr>svc_name = ''audit-service'', uuid_ok = (\<lambda>s. s \<noteq> []),
     pg_uuid = (\<lambda>s. if s = [] then None else Some s),
     new_uuid = (\<lambda>n. CHR ''u'' # replicate n (CHR ''x'')), go_now = (\<lambda>n. 1000 * int n), pg_now = 1,
     begin_ok = True, commit_ok = True, kafka_ok = (\<lambda>_. True), ctx_corr = Some ''c'',
     ctx_trace = [], http_get = (\<lambda>_. NoReply ''down''), fingerprint = (\<lambda>_. ''f''), pg_ts_text = (\<lambda>_. [])\<rparr>"

definition trail_start :: "adb world" where
  "trail_start = \<lparr>db = empty_adb, held = [], metrics = [], uuids = 0, ticks = 0, seqno = 0,
     sends = 0, kafka = [], redis = []\<rparr>"

definition trail_message :: "string \<Rightarrow> int \<Rightarrow> kafka_msg" where
  "trail_message i t = \<lparr>km_topic = ''wms.events'', km_key = ''w1'',
     km_value = Some \<lparr>ev_id = i, ev_type = ''StockMoved'', ev_version = 1, ev_time = t, ev_source = ''x'',
       ev_correlation = ''c'', ev_traceparent = [], ev_payload = JObj [(''productId'', JStr ''p1'')]\<rparr>,
     km_headers = []\<rparr>"

definition trail_one :: "adb world" where
  "trail_one = snd (attempt_event trail_env Audit_Handle (trail_message ''e1'' 2000) trail_start)"

definition trail_two :: "adb world" where
  "trail_two = snd (attempt_event trail_env Audit_Handle (trail_message ''e2'' 1000) trail_one)"

definition trail_query :: audit_env where
  "trail_query = \<lparr>aq_text = (\<lambda>_. []), aq_eager = (\<lambda>_. True)\<rparr>"

lemma trail_run:
  "audit_step (pg_uuid trail_env) ''audit-service'' trail_start trail_one"
  "audit_step (pg_uuid trail_env) ''audit-service'' trail_one trail_two"
  unfolding trail_one_def trail_two_def
  by (rule audit_step.deliver; simp add: trail_env_def)+

lemma trail_two_reachable: "audit_reachable (pg_uuid trail_env) ''audit-service'' trail_two"
proof -
  have "audit_reachable (pg_uuid trail_env) ''audit-service'' trail_start"
    by (rule audit_reachable.start) (simp add: trail_start_def)
  then show ?thesis using trail_run by (blast intro: audit_reachable.step)
qed

section \<open>The record\<close>

text \<open>
  C32: in every reachable state of the audit service the record and the inbox agree: each processed
  event has exactly one row, and every row belongs to a processed event. No event is lost or
  recorded twice, however often it is delivered.
\<close>

theorem audit_complete:
  assumes "audit_reachable P N w"
  shows "distinct (map au_id (audit_events (db w)))
    \<and> set (processed (db w)) = (\<lambda>r. (au_id r, N)) ` set (audit_events (db w))"
  using audit_reachable_ok [OF assms] by (simp add: audit_ok_def)

theorem audit_complete_witness:
  "distinct (map au_id (audit_events (db trail_two)))
   \<and> map au_id (audit_events (db trail_two)) = [''e1'', ''e2'']"
proof -
  have "map au_id (audit_events (db trail_two)) = [''e1'', ''e2'']" by code_simp
  then show ?thesis using audit_complete [OF trail_two_reachable] by blast
qed

text \<open>
  C34: the record is append-only: along every run, whatever is delivered, queried or published, the
  rows present at some time stay, unchanged and in their place.
\<close>

theorem audit_append_only:
  assumes "(audit_step P N)\<^sup>*\<^sup>* w w'"
  shows "take (length (audit_events (db w))) (audit_events (db w')) = audit_events (db w)"
proof -
  have "extends (audit_events (db w)) (db w')"
    using assms
  proof (induction rule: rtranclp_induct)
    case base
    then show ?case by (simp add: extends_def)
  next
    case (step y z)
    then show ?case by (blast intro: audit_step_extends)
  qed
  then show ?thesis by (simp add: extends_def)
qed

theorem audit_append_only_witness:
  "take 1 (audit_events (db trail_two)) = audit_events (db trail_one) \<and> length (audit_events (db trail_one)) = 1"
proof -
  have "length (audit_events (db trail_one)) = 1" by code_simp
  with audit_append_only [OF r_into_rtranclp [of "audit_step (pg_uuid trail_env) ''audit-service''", OF trail_run(2)]]
  show ?thesis by simp
qed

text \<open>
  C33: every well-formed message with a payload is recorded when its transaction can run: after the
  attempt there is a row with the event's id, and if the event was new it is the last row and
  carries the first identifier of the payload, the payload itself and the event's time, correlation
  and source. A new event whose payload is null or absent is refused, with nothing recorded, in
  every attempt.
\<close>

theorem audit_records:
  assumes "parse_message E (km_value m) = Inr ev" "pg_uuid E (ev_id ev) = Some u"
    and "begin_ok E" "commit_ok E" "audit_ok (svc_name E) (db w)"
  shows "if ev_nil ev \<and> u \<notin> au_id ` set (audit_events (db w))
    then fst (attempt_event E Audit_Handle m w) = Inl not_null_payload \<and> db (snd (attempt_event E Audit_Handle m w)) = db w
    else \<exists>w' body. attempt_event E Audit_Handle m w = (Inr (), w') \<and> marshal (GObj (ev_payload ev)) = Some body
      \<and> audit_events (db w') = (if u \<in> au_id ` set (audit_events (db w)) then audit_events (db w)
          else audit_events (db w) @ [audit_entry ev u body])"
proof -
  have "wf_gov (GObj (ev_payload ev))" using assms(1)
    by (auto simp: parse_message_def simp del: wf_gov.simps dest!: decode_map_wf split: option.splits if_splits)
  then obtain body where body: "marshal (GObj (ev_payload ev)) = Some body" using marshal_wf by blast
  have seen: "(u, svc_name E) \<in> set (processed (db w)) \<longleftrightarrow> u \<in> au_id ` set (audit_events (db w))"
    using assms(5) by (auto simp: audit_ok_def)
  let ?E = "E\<lparr>ctx_corr := Some (ev_correlation ev)\<rparr>"
  have a: "attempt_event E Audit_Handle m w = Process ?E ev Audit_Handle w"
    by (simp add: attempt_event_def attempt_read_def assms(1))
  show ?thesis
  proof (cases "u \<in> au_id ` set (audit_events (db w))")
    case True
    with seen assms(2-4) have "Process ?E ev Audit_Handle w = (Inr (), w)" by (intro Process_seen) auto
    with a body True show ?thesis by auto
  next
    case False
    note fresh = Process_fresh [of ?E ev u w Audit_Handle]
    show ?thesis
    proof (cases "ev_nil ev")
      case True
      have "Audit_Handle ?E ev (marked ?E u w) = (Inl not_null_payload, marked ?E u w)"
        using True assms(2) by (simp add: Audit_Handle_run)
      then have "fst (Process ?E ev Audit_Handle w) = Inl not_null_payload"
        "db (snd (Process ?E ev Audit_Handle w)) = db w"
        using False seen assms(2,3) unfolding Process_def Transaction_def Process_body by simp_all
      then show ?thesis using True False by (simp add: a)
    next
      case nil: False
      let ?t = "(marked ?E u w)\<lparr>db := (db (marked ?E u w))\<lparr>audit_events := audit_events (db w) @ [audit_entry ev u body]\<rparr>\<rparr>"
      have "Audit_Handle ?E ev (marked ?E u w) = (Inr (), ?t)"
        using False nil assms(2) body by (simp add: Audit_Handle_run marked_def del: marshal.simps)
      with False seen assms(2-4) have "Process ?E ev Audit_Handle w = (Inr (), ?t\<lparr>held := held w\<rparr>)"
        by (subst fresh) auto
      with a body False nil show ?thesis by auto
    qed
  qed
qed

theorem audit_records_witness:
  "\<exists>w'. attempt_event trail_env Audit_Handle (trail_message ''e1'' 2000) trail_start = (Inr (), w')
    \<and> map au_kind (audit_events (db w')) = [''productId''] \<and> map au_aggregate (audit_events (db w')) = [''p1'']"
proof -
  let ?ev = "\<lparr>ev_id = ''e1'', ev_type = ''StockMoved'', ev_version = 1, ev_time = 2000, ev_source = ''x'',
       ev_correlation = ''c'', ev_traceparent = [], ev_payload = [(''productId'', GStr ''p1'')], ev_nil = False\<rparr>"
  have p: "parse_message trail_env (km_value (trail_message ''e1'' 2000)) = Inr ?ev"
    by (simp add: parse_message_def trail_message_def trail_env_def decode_map_def)
  have "audit_events (db trail_start) = []" by (simp add: trail_start_def empty_adb_def)
  then show ?thesis
    using audit_records [OF p, of "''e1''" trail_start]
    by (auto simp: trail_env_def audit_ok_def trail_start_def empty_adb_def audit_entry_def aggregate_fields_def)
qed

section \<open>Paged reads\<close>




text \<open>A page parameter as the caller gave it: absent, with its default, or a decimal number.\<close>

definition asked :: "int \<Rightarrow> string \<Rightarrow> int \<Rightarrow> bool" where
  "asked dflt t n = (if t = [] then n = dflt else Atoi t = Some n)"

definition page_asked :: "string \<Rightarrow> string \<Rightarrow> int \<Rightarrow> int \<Rightarrow> bool" where
  "page_asked limit_text offset_text limit offset =
     (asked 100 limit_text limit \<and> 1 \<le> limit \<and> limit \<le> 500 \<and> asked 0 offset_text offset \<and> 0 \<le> offset)"

lemma Atoi_i64: "Atoi t = Some v \<Longrightarrow> is_i64 v"
  by (auto simp: Atoi_def Let_def split: option.splits if_splits)

lemma page_cases:
  "case page_limit lt of Inl e \<Rightarrow> \<exists>m. e = Fault ''VALIDATION_ERROR'' m 400
     | Inr n \<Rightarrow> (case page_offset ot of Inl e \<Rightarrow> \<exists>m. e = Fault ''VALIDATION_ERROR'' m 400
       | Inr k \<Rightarrow> page_asked lt ot n k \<and> k < 2 ^ 63)"
  using Atoi_i64 [of ot] by (auto simp: page_limit_def page_offset_def page_asked_def asked_def is_i64_def split: option.split)

lemma Query_length: "Query rows = Some out \<Longrightarrow> length out = length rows"
  by (induction rows arbitrary: out) (auto split: option.splits)

text \<open>
  C36: a listing reads only; what it returns is a list of at most \<open>limit\<close> rows, the limit being the
  caller's number, from 1 to 500 (100 if none was given), and the offset the caller's, not negative
  (0 if none was given). If the parameters are not of that kind, the answer is a VALIDATION_ERROR with
  status 400, and no fault of a listing has another status.
\<close>

theorem audit_list_bounded:
  assumes "audit_list A product warehouse kind limit_text offset_text E w = (r, w')"
  shows "w' = w \<and> (case r of
      Inr v \<Rightarrow> (\<exists>xs limit offset. v = GArr xs \<and> page_asked limit_text offset_text limit offset \<and> offset < 2 ^ 63
        \<and> length xs \<le> nat limit)
    | Inl e \<Rightarrow> is_fault e \<longrightarrow> fault_status e = 400)
    \<and> ((\<exists>limit offset. page_asked limit_text offset_text limit offset) \<or> (\<exists>m. r = Inl (Fault ''VALIDATION_ERROR'' m 400)))"
proof -
  have "wp (audit_list A product warehouse kind limit_text offset_text E)
     (\<lambda>v t. t = w \<and> (\<exists>xs limit offset. v = GArr xs \<and> page_asked limit_text offset_text limit offset \<and> offset < 2 ^ 63
        \<and> length xs \<le> nat limit))
     (\<lambda>e t. t = w \<and> (is_fault e \<longrightarrow> fault_status e = 400)
        \<and> ((\<exists>limit offset. page_asked limit_text offset_text limit offset) \<or> (\<exists>m. e = Fault ''VALIDATION_ERROR'' m 400))) w"
    using page_cases [of limit_text offset_text] unfolding audit_list_def read_rows_def
    by (auto simp: wp_simps audit_query_def dest!: Query_length split: if_splits) (metis min.cobounded2)+
  then show ?thesis using assms by (auto simp: wp_def split: sum.splits)
qed

theorem audit_list_bounded_witness:
  "(\<exists>xs. audit_list trail_query ''p1'' [] [] ''1'' [] trail_env trail_two = (Inr (GArr xs), trail_two) \<and> length xs = 1)
   \<and> (\<exists>m. fst (audit_list trail_query ''p1'' [] [] ''501'' [] trail_env trail_two) = Inl (Fault ''VALIDATION_ERROR'' m 400))"
proof
  let ?r = "audit_list trail_query ''p1'' [] [] ''1'' [] trail_env trail_two"
  have "(case fst ?r of Inr (GArr xs) \<Rightarrow> length xs = 1 | _ \<Rightarrow> False)" by code_simp
  then obtain xs where xs: "fst ?r = Inr (GArr xs)" "length xs = 1"
    by (auto split: sum.splits gov.splits)
  then have r: "?r = (Inr (GArr xs), snd ?r)" by (metis prod.collapse)
  show "\<exists>xs. ?r = (Inr (GArr xs), trail_two) \<and> length xs = 1"
    using audit_list_bounded [OF r] xs r by auto
next
  let ?r = "audit_list trail_query ''p1'' [] [] ''501'' [] trail_env trail_two"
  have "Atoi ''501'' = Some 501" by code_simp
  then have "\<not> page_asked ''501'' [] limit offset" for limit offset by (auto simp: page_asked_def asked_def)
  moreover have "?r = (fst ?r, snd ?r)" by simp
  ultimately show "\<exists>m. fst ?r = Inl (Fault ''VALIDATION_ERROR'' m 400)"
    using audit_list_bounded [of trail_query "''p1''" "[]" "[]" "''501''" "[]" trail_env trail_two "fst ?r" "snd ?r"] by blast
qed

section \<open>Rows a filter cannot read\<close>

text \<open>
  One recorded event whose \<open>items\<close> is no array makes every listing by product fail, if it does not
  carry that product itself: the record is append-only, so this does not go away.
\<close>

lemma odd_items_break_listing:
  assumes "r \<in> set rows" "au_payload r = JObj kvs" "map_of kvs ''items'' = Some v" "\<forall>js. v \<noteq> JArr js"
    and "product \<noteq> []" "json_text A ''productId'' (au_payload r) \<noteq> Some product"
  shows "audit_query A product [] [] limit offset rows = None"
proof -
  have "item_elements (au_payload r) = None"
    using assms(2-4) by (cases v) (simp_all add: item_elements_def)
  then have "row_matches A product [] [] r = None"
    using assms(5,6) by (simp add: row_matches_def other_matches_def product_matches_def)
  then show ?thesis using assms(1) by (auto simp: audit_query_def list_ex_iff)
qed

end
