(* ===== verification/Placement.thy ===== *)
theory Placement
  imports Delivery
begin

text \<open>
  The placement service (\<open>services/placement-service\<close>): the scoring of candidate locations
  (\<open>internal/domain/scoring.go\<close>), the table of placement jobs, the event handler, the assignment
  worker under its Redis mutex and the two queries (\<open>internal/application/service.go\<close>).
\<close>

section \<open>Scoring\<close>

record Candidate =
  ca_ID :: string
  ca_WarehouseID :: string
  ca_MaxWeight :: f64
  ca_MaxVolume :: f64
  ca_CurrentWeight :: f64
  ca_CurrentVolume :: f64
  ca_Distance :: f64
  ca_StorageType :: string
  ca_ZoneType :: string
  ca_Status :: string

definition zero_Candidate :: Candidate where
  "zero_Candidate = \<lparr>ca_ID = [], ca_WarehouseID = [], ca_MaxWeight = Fin 0, ca_MaxVolume = Fin 0,
     ca_CurrentWeight = Fin 0, ca_CurrentVolume = Fin 0, ca_Distance = Fin 0, ca_StorageType = [],
     ca_ZoneType = [], ca_Status = []\<rparr>"

definition candidate_fields :: "Candidate field list" where
  "candidate_fields =
     [str_field ''id'' (\<lambda>s r. r\<lparr>ca_ID := s\<rparr>),
      str_field ''warehouseId'' (\<lambda>s r. r\<lparr>ca_WarehouseID := s\<rparr>),
      f64_field ''maxWeight'' (\<lambda>v r. r\<lparr>ca_MaxWeight := v\<rparr>),
      f64_field ''maxVolume'' (\<lambda>v r. r\<lparr>ca_MaxVolume := v\<rparr>),
      f64_field ''currentWeight'' (\<lambda>v r. r\<lparr>ca_CurrentWeight := v\<rparr>),
      f64_field ''currentVolume'' (\<lambda>v r. r\<lparr>ca_CurrentVolume := v\<rparr>),
      f64_field ''distance'' (\<lambda>v r. r\<lparr>ca_Distance := v\<rparr>),
      str_field ''storageType'' (\<lambda>s r. r\<lparr>ca_StorageType := s\<rparr>),
      str_field ''zoneType'' (\<lambda>s r. r\<lparr>ca_ZoneType := s\<rparr>),
      str_field ''status'' (\<lambda>s r. r\<lparr>ca_Status := s\<rparr>)]"

text \<open>A slice is decoded anew, whatever it held.\<close>

definition decode_candidates :: "json \<Rightarrow> Candidate list \<Rightarrow> Candidate list option" where
  "decode_candidates j _ = decode_slice (decode_struct False candidate_fields) zero_Candidate j"

text \<open>The tolerance \<open>1e-9\<close> of the capacity comparisons.\<close>

definition score_tolerance :: f64 where
  "score_tolerance = rne (1 / 10 ^ 9)"

definition occupancy :: "Candidate \<Rightarrow> f64" where
  "occupancy c = fmax (fdiv (ca_CurrentWeight c) (ca_MaxWeight c)) (fdiv (ca_CurrentVolume c) (ca_MaxVolume c))"

definition remaining_share :: "Candidate \<Rightarrow> f64 \<Rightarrow> f64 \<Rightarrow> f64" where
  "remaining_share c weight volume =
     fmin (fdiv (fsub (fsub (ca_MaxWeight c) (ca_CurrentWeight c)) weight) (ca_MaxWeight c))
          (fdiv (fsub (fsub (ca_MaxVolume c) (ca_CurrentVolume c)) volume) (ca_MaxVolume c))"

definition Score :: "Candidate \<Rightarrow> string \<Rightarrow> string \<Rightarrow> f64 \<Rightarrow> f64 \<Rightarrow> f64 \<times> bool" where
  "Score c warehouse storageType weight volume =
     (if ca_WarehouseID c \<noteq> warehouse \<or> ca_ZoneType c \<noteq> ''STORAGE'' \<or> ca_StorageType c \<noteq> storageType
         \<or> ca_Status c = ''BLOCKED'' \<or> ca_Status c = ''MAINTENANCE''
         \<or> fle (ca_MaxWeight c) (Fin 0) \<or> fle (ca_MaxVolume c) (Fin 0)
         \<or> fle weight (Fin 0) \<or> fle volume (Fin 0)
      then (Fin 0, False)
      else if fgt (fadd (ca_CurrentWeight c) weight) (fadd (ca_MaxWeight c) score_tolerance)
         \<or> fgt (fadd (ca_CurrentVolume c) volume) (fadd (ca_MaxVolume c) score_tolerance)
      then (Fin 0, False)
      else (fsub (fadd (fadd (Fin 40) (fmul (Fin 30) (remaining_share c weight volume)))
                   (fdiv (Fin 30) (fadd (Fin 1) (fdiv (ca_Distance c) (Fin 10)))))
                 (fmul (Fin 20) (occupancy c)), True))"

section \<open>Jobs\<close>

record job_row =
  jb_stock :: string
  jb_warehouse :: string
  jb_payload :: json
  jb_status :: string
  jb_attempts :: int
  jb_next :: int
  jb_error :: "string option"
  jb_location :: "string option"
  jb_score :: "f64 option"
  jb_updated :: int

record pldb = pdb +
  jobs :: "job_row list"

record peers =
  PWarehouseURL :: string
  InventoryURL :: string

abbreviation set_jobs :: "job_row list \<Rightarrow> pldb world \<Rightarrow> pldb world" where
  "set_jobs rows w \<equiv> w\<lparr>db := (db w)\<lparr>jobs := rows\<rparr>\<rparr>"

text \<open>The statements of the service on \<open>placement_jobs\<close>.\<close>

definition new_job :: "env \<Rightarrow> string \<Rightarrow> string \<Rightarrow> json \<Rightarrow> job_row" where
  "new_job E i warehouse payload = \<lparr>jb_stock = i, jb_warehouse = warehouse, jb_payload = payload,
     jb_status = ''PENDING'', jb_attempts = 0, jb_next = pg_now E, jb_error = None,
     jb_location = None, jb_score = None, jb_updated = pg_now E\<rparr>"

definition insert_job :: "env \<Rightarrow> string \<Rightarrow> string \<Rightarrow> gobj \<Rightarrow> (pldb, unit) wprog" where
  "insert_job E i warehouse payload =
     bnd (sql_uuid E i) (\<lambda>u.
     bnd (sql_uuid E warehouse) (\<lambda>wid.
     bnd (of_option (Internal ''json: unsupported value'') (marshal (GObj payload))) (\<lambda>body.
     modify (\<lambda>w. if find_row jb_stock u (jobs (db w)) = None
       then set_jobs (jobs (db w) @ [new_job E u wid body]) w else w))))"

definition update_job :: "env \<Rightarrow> string \<Rightarrow> (job_row \<Rightarrow> job_row) \<Rightarrow> (pldb, unit) wprog" where
  "update_job E i f =
     bnd (sql_uuid E i) (\<lambda>u.
     modify (\<lambda>w. set_jobs (update_rows jb_stock u (\<lambda>r. (f r)\<lparr>jb_updated := pg_now E\<rparr>) (jobs (db w))) w))"

definition back_to_pending :: "env \<Rightarrow> string \<Rightarrow> job_row \<Rightarrow> job_row" where
  "back_to_pending E reason r = r\<lparr>jb_status := ''PENDING'', jb_error := Some reason,
     jb_next := pg_now E + 3 * 10 ^ 6\<rparr>"

text \<open>\<open>where stock_id = \<dots> and status <> 'PLACED'\<close>.\<close>

definition reject_job :: "env \<Rightarrow> string \<Rightarrow> string \<Rightarrow> (pldb, unit) wprog" where
  "reject_job E i reason =
     bnd (sql_uuid E i) (\<lambda>u.
     modify (\<lambda>w. set_jobs (map (\<lambda>r. if jb_stock r = u \<and> jb_status r \<noteq> ''PLACED''
        then (back_to_pending E reason r)\<lparr>jb_updated := pg_now E\<rparr> else r) (jobs (db w))) w))"

definition mark_placed :: "job_row \<Rightarrow> job_row" where
  "mark_placed r = r\<lparr>jb_status := ''PLACED'', jb_error := None\<rparr>"

definition mark_cancelled :: "job_row \<Rightarrow> job_row" where
  "mark_cancelled r = r\<lparr>jb_status := ''CANCELLED'', jb_error := Some ''NO_REMAINING_STOCK''\<rparr>"

section \<open>The event handler\<close>

definition Placement_Handle :: "env \<Rightarrow> gobj delivered \<Rightarrow> (pldb, unit) wprog" where
  "Placement_Handle E e =
     (let v = ev_payload e in
      if ev_type e = ''GoodsReceived''
      then andthen (stop_if (ev_nil e) not_null_payload) (insert_job E (p_String v ''stockId'') (p_String v ''warehouseId'') v)
      else if ev_type e = ''PlacementRejected''
      then reject_job E (p_String v ''stockId'') (p_String v ''reason'')
      else if ev_type e = ''StockAdded'' then update_job E (p_String v ''stockId'') mark_placed
      else ret ())"

section \<open>The Redis mutex\<close>

text \<open>
  What happens to a command: it is not executed, it is executed at a server time (milliseconds)
  and answered, or it is executed and the answer is lost.
\<close>

datatype redis_reply = RDown | RLost int | ROk int

definition redis_get :: "int \<Rightarrow> string \<Rightarrow> (string \<times> string \<times> int) list \<Rightarrow> string option" where
  "redis_get t key store = (case map_of store key of
      Some (v, expires) \<Rightarrow> if t < expires then Some v else None
    | None \<Rightarrow> None)"

definition redis_del :: "string \<Rightarrow> (string \<times> string \<times> int) list \<Rightarrow> (string \<times> string \<times> int) list" where
  "redis_del key store = filter (\<lambda>x. fst x \<noteq> key) store"

definition set_nx ::
  "int \<Rightarrow> string \<Rightarrow> string \<Rightarrow> int \<Rightarrow> (string \<times> string \<times> int) list \<Rightarrow> bool \<times> (string \<times> string \<times> int) list" where
  "set_nx t key token ttl store =
     (if redis_get t key store = None then (True, (key, token, t + ttl) # redis_del key store)
      else (False, store))"

text \<open>The script \<open>if get(key) == token then del(key)\<close>.\<close>

definition compare_del ::
  "int \<Rightarrow> string \<Rightarrow> string \<Rightarrow> (string \<times> string \<times> int) list \<Rightarrow> (string \<times> string \<times> int) list" where
  "compare_del t key token store =
     (if redis_get t key store = Some token then redis_del key store else store)"

definition SetNX :: "redis_reply \<Rightarrow> string \<Rightarrow> string \<Rightarrow> int \<Rightarrow> ('d, bool) wprog" where
  "SetNX reply key token ttl =
     (case reply of
        RDown \<Rightarrow> throw (Internal ''redis'')
      | RLost t \<Rightarrow> andthen (modify (\<lambda>w. w\<lparr>redis := snd (set_nx t key token ttl (redis w))\<rparr>))
          (throw (Internal ''redis''))
      | ROk t \<Rightarrow> bnd (gets (\<lambda>w. set_nx t key token ttl (redis w))) (\<lambda>(ok, store).
          andthen (modify (\<lambda>w. w\<lparr>redis := store\<rparr>)) (ret ok)))"

text \<open>The result of the deferred call is dropped.\<close>

definition Unlock :: "redis_reply \<Rightarrow> string \<Rightarrow> string \<Rightarrow> 'd world \<Rightarrow> 'd world" where
  "Unlock reply key token w =
     (case reply of
        RDown \<Rightarrow> w
      | RLost t \<Rightarrow> w\<lparr>redis := compare_del t key token (redis w)\<rparr>
      | ROk t \<Rightarrow> w\<lparr>redis := compare_del t key token (redis w)\<rparr>)"

definition deferred :: "('s \<Rightarrow> 's) \<Rightarrow> ('s, 'a) prog \<Rightarrow> ('s, 'a) prog" where
  "deferred f m = (\<lambda>s. case m s of (r, t) \<Rightarrow> (r, f t))"

section \<open>Assigning a location\<close>

text \<open>
  What a run of the worker meets: the order in which PostgreSQL scans the table, the rows other
  transactions have locked, and what happens to the two Redis commands.
\<close>

record work_env =
  wk_scan :: "job_row list \<Rightarrow> job_row list"
  wk_locked :: "string \<Rightarrow> bool"
  wk_setnx :: redis_reply
  wk_eval :: redis_reply

definition due_jobs :: "env \<Rightarrow> work_env \<Rightarrow> job_row list \<Rightarrow> job_row list" where
  "due_jobs E W rows = sort_key jb_next
     (filter (\<lambda>r. jb_status r = ''PENDING'' \<and> jb_next r \<le> pg_now E \<and> \<not> wk_locked W (jb_stock r))
       (wk_scan W rows))"

definition select_job :: "env \<Rightarrow> work_env \<Rightarrow> (pldb, job_row option) wprog" where
  "select_job E W = gets (\<lambda>w. case due_jobs E W (jobs (db w)) of [] \<Rightarrow> None | r # _ \<Rightarrow> Some r)"

text \<open>The loop over the candidates.\<close>

fun pick_best ::
  "string \<Rightarrow> string \<Rightarrow> f64 \<Rightarrow> f64 \<Rightarrow> Candidate list \<Rightarrow> f64 \<Rightarrow> Candidate option \<Rightarrow> f64 \<times> Candidate option" where
  "pick_best warehouse storageType weight volume [] best chosen = (best, chosen)"
| "pick_best warehouse storageType weight volume (c # cs) best chosen =
     (case Score c warehouse storageType weight volume of (score, eligible) \<Rightarrow>
      if eligible \<and> (fgt score best
           \<or> feq score best \<and> (case chosen of None \<Rightarrow> False | Some d \<Rightarrow> ca_ID c < ca_ID d))
      then pick_best warehouse storageType weight volume cs score (Some c)
      else pick_best warehouse storageType weight volume cs best chosen)"

definition start_best :: f64 where
  "start_best = rne (- (10 ^ 9))"

definition best_location :: "string \<Rightarrow> gobj \<Rightarrow> Candidate list \<Rightarrow> f64 \<times> Candidate option" where
  "best_location warehouse payload locations =
     pick_best warehouse (p_String payload ''storageType'')
       (fmul (p_Number payload ''weight'') (p_Number payload ''quantity''))
       (fmul (p_Number payload ''volume'') (p_Number payload ''quantity'')) locations start_best None"

text \<open>\<open>attempts = attempts + 1\<close> on an \<open>integer\<close> column.\<close>

definition update_attempts :: "env \<Rightarrow> string \<Rightarrow> (job_row \<Rightarrow> job_row) \<Rightarrow> (pldb, unit) wprog" where
  "update_attempts E i f =
     bnd (sql_uuid E i) (\<lambda>u.
     bnd (gets (\<lambda>w. find_row jb_stock u (jobs (db w)))) (\<lambda>r.
     andthen (stop_if (case r of None \<Rightarrow> False | Some job \<Rightarrow> 2 ^ 31 \<le> jb_attempts job + 1)
       (Internal ''integer out of range''))
     (update_job E i (\<lambda>r. (f r)\<lparr>jb_attempts := jb_attempts r + 1\<rparr>))))"

definition no_location :: "env \<Rightarrow> job_row \<Rightarrow> job_row" where
  "no_location E r = r\<lparr>jb_error := Some ''NO_SUITABLE_LOCATION'', jb_next := pg_now E + 10 * 10 ^ 6\<rparr>"

definition mark_assigned :: "string \<Rightarrow> f64 \<Rightarrow> job_row \<Rightarrow> job_row" where
  "mark_assigned location score r = r\<lparr>jb_status := ''ASSIGNED'', jb_location := Some location, jb_score := Some score\<rparr>"

text \<open>What the worker does with the job while it holds the mutex of the warehouse.\<close>

definition assign_job :: "env \<Rightarrow> peers \<Rightarrow> job_row \<Rightarrow> (pldb, unit) wprog" where
  "assign_job E S job =
     bnd (of_option (Internal ''json: cannot unmarshal'') (decode_map (jb_payload job) [])) (\<lambda>payload.
     bnd (Get E decode_map [] (InventoryURL S @ ''/inventory/lots/'' @ jb_stock job)) (\<lambda>lot.
     let quantity = p_Number lot ''quantity'' in
     if feq quantity (Fin 0) then update_job E (jb_stock job) mark_cancelled
     else if map_of lot ''locationId'' \<noteq> None \<and> map_of lot ''locationId'' \<noteq> Some GNil
     then update_job E (jb_stock job) mark_placed
     else
       (let payload1 = obj_put ''quantity'' (GF64 quantity) payload in
        bnd (Get E decode_candidates []
               (PWarehouseURL S @ ''/warehouses/'' @ jb_warehouse job @ ''/locations'')) (\<lambda>locations.
        case best_location (jb_warehouse job) payload1 locations of
          (best, None) \<Rightarrow>
            andthen (Count ''placement'' ''no_capacity'') (update_attempts E (jb_stock job) (no_location E))
        | (best, Some c) \<Rightarrow>
            (let payload2 = obj_put ''score'' (GF64 best) (obj_put ''locationId'' (GStr (ca_ID c)) payload1) in
             bnd (sql_uuid E (ca_ID c)) (\<lambda>l.
             andthen (update_attempts E (jb_stock job) (mark_assigned l best))
             (andthen (Count ''placement'' ''assigned'')
             (Emit E ''ProductPlacementAssigned'' payload2))))))))"

definition lock_key :: "job_row \<Rightarrow> string" where
  "lock_key job = ''placement:'' @ jb_warehouse job"

definition assign_tx :: "env \<Rightarrow> work_env \<Rightarrow> peers \<Rightarrow> (pldb, unit) wprog" where
  "assign_tx E W S =
     bnd (select_job E W) (\<lambda>found.
     case found of
       None \<Rightarrow> ret ()
     | Some job \<Rightarrow>
        bnd (NewString E) (\<lambda>token.
        bnd (SetNX (wk_setnx W) (lock_key job) token 15000) (\<lambda>ok.
        if \<not> ok then ret ()
        else deferred (Unlock (wk_eval W) (lock_key job) token) (assign_job E S job))))"

definition assign :: "env \<Rightarrow> work_env \<Rightarrow> peers \<Rightarrow> (pldb, unit) wprog" where
  "assign E W S = Transaction E (assign_tx E W S)"

text \<open>One tick of the worker: an error is logged and the loop goes on.\<close>

definition Placement_tick :: "env \<Rightarrow> work_env \<Rightarrow> peers \<Rightarrow> pldb world \<Rightarrow> pldb world" where
  "Placement_tick E W S w = snd (assign E W S w)"

section \<open>Routes\<close>

text \<open>A row as \<open>to_jsonb\<close> shows it; a non-finite float is shown as a string.\<close>

definition pg_float_json :: "f64 \<Rightarrow> json" where
  "pg_float_json v = (case v of Fin x \<Rightarrow> JFlt (Fin x) | NaN \<Rightarrow> JStr ''NaN''
     | PInf \<Rightarrow> JStr ''Infinity'' | NInf \<Rightarrow> JStr ''-Infinity'')"

definition pg_null :: "('a \<Rightarrow> json) \<Rightarrow> 'a option \<Rightarrow> json" where
  "pg_null f x = (case x of None \<Rightarrow> JNull | Some v \<Rightarrow> f v)"

definition job_json :: "env \<Rightarrow> job_row \<Rightarrow> json" where
  "job_json E r = JObj
     [(''stock_id'', JStr (jb_stock r)), (''warehouse_id'', JStr (jb_warehouse r)),
      (''payload'', jb_payload r), (''status'', JStr (jb_status r)),
      (''attempts'', JInt (jb_attempts r)), (''next_attempt'', JStr (pg_ts_text E (jb_next r))),
      (''last_error'', pg_null JStr (jb_error r)), (''location_id'', pg_null JStr (jb_location r)),
      (''score'', pg_null pg_float_json (jb_score r)), (''updated_at'', JStr (pg_ts_text E (jb_updated r)))]"

text \<open>\<open>order by updated_at desc limit 500\<close>, ties in scan order.\<close>

definition placements_endpoint :: "(job_row list \<Rightarrow> job_row list) \<Rightarrow> env \<Rightarrow> (pldb, gov) wprog" where
  "placements_endpoint scan E =
     bnd (gets (\<lambda>w. take 500 (sort_key (\<lambda>r. - jb_updated r) (scan (jobs (db w)))))) (\<lambda>rows.
     bnd (read_rows (map (job_json E) rows)) (\<lambda>out. ret (GArr (map GObj out))))"

definition placement_endpoint :: "string \<Rightarrow> env \<Rightarrow> (pldb, gov) wprog" where
  "placement_endpoint i E =
     andthen (ID E i)
     (bnd (sql_uuid E i) (\<lambda>u.
      bnd (gets (\<lambda>w. filter (\<lambda>r. jb_stock r = u) (jobs (db w)))) (\<lambda>rows.
      bnd (read_rows (map (job_json E) rows)) (\<lambda>out.
      case out of
        [] \<Rightarrow> throw (Fault ''NOT_FOUND'' ''Placement job not found'' 404)
      | x # _ \<Rightarrow> ret (GObj x)))))"

end
