(* ===== verification/Placement_Scoring.thy ===== *)
theory Placement_Scoring
  imports Placement
begin

text \<open>
  The scoring of the placement service: what makes a candidate eligible, an upper bound of the
  score, and the loop over the candidates as the search for the best eligible one.
\<close>

section \<open>Comparisons under rounding\<close>

lemma fle_refl: "a \<noteq> NaN \<Longrightarrow> fle a a"
  by (simp add: fle_def feq_iff)

lemma fle_trans: "fle a b \<Longrightarrow> fle b c \<Longrightarrow> fle a c"
  by (auto simp: fle_def feq_iff intro: flt_trans)

lemma fle_FinD: "fle a (Fin B) \<Longrightarrow> a = NInf \<or> (\<exists>x. a = Fin x \<and> x \<le> B)"
  by (cases a) (auto simp: fle_def feq_iff)

lemma Fin_fleD: "fle (Fin B) a \<Longrightarrow> a = PInf \<or> (\<exists>x. a = Fin x \<and> B \<le> x)"
  by (cases a) (auto simp: fle_def feq_iff)

lemma NInf_fle [simp]: "fle NInf (Fin B)" and Fin_fle_PInf [simp]: "fle (Fin B) PInf"
  by (simp_all add: fle_def)

lemma rne_le:
  assumes "x \<le> B" "valid_f64 (Fin B)"
  shows "fle (rne x) (Fin B)"
proof -
  have "rnd x \<le> B" "B < 2 ^ 1024"
    using rnd_mono [OF assms(1)] assms(2) by (auto simp: valid_f64_Fin)
  moreover have "- (2 ^ 1024) < (2 ^ 1024 :: rat)" by simp
  ultimately show ?thesis using rne_cases [of x] by (auto simp: rne_def Let_def)
qed

lemma rne_ge:
  assumes "B \<le> x" "valid_f64 (Fin B)"
  shows "fle (Fin B) (rne x)"
proof -
  have "B \<le> rnd x" "- (2 ^ 1024) < B"
    using rnd_mono [OF assms(1)] assms(2) by (auto simp: valid_f64_Fin)
  then show ?thesis by (auto simp: rne_def Let_def)
qed

lemma valid_small [simp]: "\<bar>n\<bar> \<le> 2 ^ 53 \<Longrightarrow> valid_f64 (Fin (of_int n))"
  using rne_int rne_valid by blast

lemma valid_numeral [simp]: "valid_f64 (Fin 1)" "valid_f64 (Fin 20)" "valid_f64 (Fin 30)"
  "valid_f64 (Fin 70)" "valid_f64 (Fin 100)"
  using valid_small [of 1] valid_small [of 20] valid_small [of 30] valid_small [of 70] valid_small [of 100]
  by simp_all

text \<open>Upper bounds of sums, differences, shares and quotients.\<close>

lemma fadd_le:
  assumes "fle a (Fin A)" "fle b (Fin B)" "valid_f64 (Fin (A + B))"
  shows "fle (fadd a b) (Fin (A + B))"
  using fle_FinD [OF assms(1)] fle_FinD [OF assms(2)] assms(3) by (auto intro!: rne_le)

lemma fsub_le:
  assumes "fle a (Fin A)" "fle (Fin 0) b" "valid_f64 (Fin A)"
  shows "fle (fsub a b) (Fin A)"
  using fle_FinD [OF assms(1)] Fin_fleD [OF assms(2)] assms(3)
  by (auto simp: fsub_def fneg_def intro!: rne_le)

lemma fmul_le:
  assumes "fle a (Fin 1)" "0 < k" "valid_f64 (Fin k)"
  shows "fle (fmul (Fin k) a) (Fin k)"
  using fle_FinD [OF assms(1)] assms(2,3) mult_left_mono [of _ 1 k]
  by (auto simp: inf_of_sign_def intro!: rne_le)

lemma fmul_nonneg: "fle (Fin 0) a \<Longrightarrow> 0 < k \<Longrightarrow> fle (Fin 0) (fmul (Fin k) a)"
  by (auto simp: inf_of_sign_def dest!: Fin_fleD intro!: rne_ge)

lemma fdiv_share_le:
  assumes "fle a (Fin m)" "0 < m"
  shows "fle (fdiv a (Fin m)) (Fin 1)"
  using fle_FinD [OF assms(1)] assms(2) by (auto intro!: rne_le)

lemma fdiv_share_nonneg:
  assumes "fle (Fin 0) a" "0 < m"
  shows "fle (Fin 0) (fdiv a (Fin m))"
  using Fin_fleD [OF assms(1)] assms(2) by (auto intro!: rne_ge)

lemma fdiv_into_le:
  assumes "fle (Fin 1) a" "0 < k" "valid_f64 (Fin k)"
  shows "fle (fdiv (Fin k) a) (Fin k)"
proof -
  have "k / x \<le> k" if "1 \<le> x" for x
    using that assms(2) by (simp add: divide_le_eq)
  then show ?thesis using Fin_fleD [OF assms(1)] assms(2,3) by (auto intro!: rne_le)
qed

lemma fmax_nonneg: "fle (Fin 0) a \<Longrightarrow> fle (Fin 0) b \<Longrightarrow> fle (Fin 0) (fmax a b)"
  by (auto simp: fmax_def dest!: Fin_fleD)

lemma fmin_le: "fle a (Fin B) \<Longrightarrow> fle b (Fin B) \<Longrightarrow> fle (fmin a b) (Fin B)"
  by (auto simp: fmin_def dest!: fle_FinD)

section \<open>Eligibility\<close>

definition suits :: "Candidate \<Rightarrow> string \<Rightarrow> string \<Rightarrow> bool" where
  "suits c warehouse storageType = (ca_WarehouseID c = warehouse \<and> ca_ZoneType c = ''STORAGE''
     \<and> ca_StorageType c = storageType \<and> ca_Status c \<noteq> ''BLOCKED'' \<and> ca_Status c \<noteq> ''MAINTENANCE'')"

definition has_room :: "Candidate \<Rightarrow> f64 \<Rightarrow> f64 \<Rightarrow> bool" where
  "has_room c weight volume =
     (\<not> fgt (fadd (ca_CurrentWeight c) weight) (fadd (ca_MaxWeight c) score_tolerance)
      \<and> \<not> fgt (fadd (ca_CurrentVolume c) volume) (fadd (ca_MaxVolume c) score_tolerance))"

lemma Score_eligible:
  "snd (Score c warehouse storageType weight volume) \<longleftrightarrow>
     suits c warehouse storageType \<and> has_room c weight volume
     \<and> \<not> fle (ca_MaxWeight c) (Fin 0) \<and> \<not> fle (ca_MaxVolume c) (Fin 0)
     \<and> \<not> fle weight (Fin 0) \<and> \<not> fle volume (Fin 0)"
  unfolding Score_def suits_def has_room_def by auto

lemma Score_value:
  assumes "snd (Score c warehouse storageType weight volume)"
  shows "fst (Score c warehouse storageType weight volume) =
    fsub (fadd (fadd (Fin 40) (fmul (Fin 30) (remaining_share c weight volume)))
           (fdiv (Fin 30) (fadd (Fin 1) (fdiv (ca_Distance c) (Fin 10)))))
         (fmul (Fin 20) (occupancy c))"
  using assms unfolding Score_def by (auto split: if_splits)

text \<open>A location with sane data: positive finite limits, nothing negative.\<close>

definition sane :: "Candidate \<Rightarrow> bool" where
  "sane c = ((\<exists>m. ca_MaxWeight c = Fin m \<and> 0 < m \<and> valid_f64 (Fin m))
     \<and> (\<exists>m. ca_MaxVolume c = Fin m \<and> 0 < m \<and> valid_f64 (Fin m))
     \<and> fle (Fin 0) (ca_CurrentWeight c) \<and> fle (Fin 0) (ca_CurrentVolume c) \<and> fle (Fin 0) (ca_Distance c))"

lemma score_at_most_100:
  assumes "sane c" "fle (Fin 0) weight" "fle (Fin 0) volume" "snd (Score c u s weight volume)"
  shows "fle (fst (Score c u s weight volume)) (Fin 100)"
proof -
  obtain mw mv where m: "ca_MaxWeight c = Fin mw" "0 < mw" "valid_f64 (Fin mw)"
    "ca_MaxVolume c = Fin mv" "0 < mv" "valid_f64 (Fin mv)"
    and n: "fle (Fin 0) (ca_CurrentWeight c)" "fle (Fin 0) (ca_CurrentVolume c)" "fle (Fin 0) (ca_Distance c)"
    using assms(1) unfolding sane_def by blast
  have "fle (fdiv (fsub (fsub (Fin mw) (ca_CurrentWeight c)) weight) (Fin mw)) (Fin 1)"
    "fle (fdiv (fsub (fsub (Fin mv) (ca_CurrentVolume c)) volume) (Fin mv)) (Fin 1)"
    using m n assms(2,3) by (intro fdiv_share_le fsub_le; simp)+
  then have "fle (remaining_share c weight volume) (Fin 1)"
    unfolding remaining_share_def m by (rule fmin_le)
  then have "fle (fadd (Fin 40) (fmul (Fin 30) (remaining_share c weight volume))) (Fin (40 + 30))"
    by (intro fadd_le fmul_le) simp_all
  moreover have "fle (fdiv (Fin 30) (fadd (Fin 1) (fdiv (ca_Distance c) (Fin 10)))) (Fin 30)"
  proof (rule fdiv_into_le)
    have "fle (Fin 0) (fdiv (ca_Distance c) (Fin 10))" by (rule fdiv_share_nonneg [OF n(3)]) simp
    then show "fle (Fin 1) (fadd (Fin 1) (fdiv (ca_Distance c) (Fin 10)))"
      by (auto dest!: Fin_fleD intro!: rne_ge)
  qed simp_all
  ultimately have "fle (fadd (fadd (Fin 40) (fmul (Fin 30) (remaining_share c weight volume)))
      (fdiv (Fin 30) (fadd (Fin 1) (fdiv (ca_Distance c) (Fin 10))))) (Fin (40 + 30 + 30))"
    by (rule fadd_le) simp
  moreover have "fle (Fin 0) (fmul (Fin 20) (occupancy c))"
    unfolding occupancy_def m using m n by (intro fmul_nonneg fmax_nonneg fdiv_share_nonneg) simp_all
  ultimately show ?thesis unfolding Score_value [OF assms(4)] by (intro fsub_le) simp_all
qed

section \<open>The loop as a search\<close>

text \<open>\<open>(s, i)\<close> is no better than \<open>(t, j)\<close>: a lower score, or the same one and no smaller id.\<close>

definition no_better :: "f64 \<Rightarrow> string \<Rightarrow> f64 \<Rightarrow> string \<Rightarrow> bool" where
  "no_better s i t j = (\<not> fgt s t \<and> (feq s t \<longrightarrow> j \<le> i))"

text \<open>What the loop has found among the candidates it has seen.\<close>

definition found_best ::
  "string \<Rightarrow> string \<Rightarrow> f64 \<Rightarrow> f64 \<Rightarrow> f64 \<Rightarrow> Candidate set \<Rightarrow> f64 \<Rightarrow> Candidate option \<Rightarrow> bool" where
  "found_best u s x y start seen best chosen =
     (case chosen of
        None \<Rightarrow> best = start \<and> (\<forall>d \<in> seen. snd (Score d u s x y) \<longrightarrow> \<not> fgt (fst (Score d u s x y)) start)
      | Some c \<Rightarrow> c \<in> seen \<and> Score c u s x y = (best, True) \<and> fgt best start
          \<and> (\<forall>d \<in> seen. snd (Score d u s x y) \<longrightarrow> no_better (fst (Score d u s x y)) (ca_ID d) best (ca_ID c)))"

lemma fgt_trans: "fgt a b \<Longrightarrow> fgt b c \<Longrightarrow> fgt a c"
  unfolding fgt_def by (rule flt_trans)

lemma no_better_step:
  assumes "fgt s' t \<or> feq s' t \<and> i' < j" "no_better s i t j"
  shows "no_better s i s' i'"
  using assms(2) assms(1) unfolding no_better_def feq_iff fgt_def
  by (metis flt_irrefl flt_total flt_trans less_imp_le order_trans)

lemma found_best_step:
  assumes "found_best u s x y start seen best chosen" "start \<noteq> NaN"
    and "Score c u s x y = (score, eligible)"
  shows "if eligible \<and> (fgt score best \<or> feq score best \<and> (case chosen of None \<Rightarrow> False | Some d \<Rightarrow> ca_ID c < ca_ID d))
     then found_best u s x y start (insert c seen) score (Some c)
     else found_best u s x y start (insert c seen) best chosen"
proof (cases chosen)
  case None
  then have n: "best = start" "\<And>d. d \<in> seen \<Longrightarrow> snd (Score d u s x y) \<Longrightarrow> \<not> fgt (fst (Score d u s x y)) start"
    using assms(1) by (auto simp: found_best_def)
  show ?thesis
  proof (cases "eligible \<and> fgt score start")
    case True
    have "no_better (fst (Score d u s x y)) (ca_ID d) score (ca_ID c)" if "d \<in> seen" "snd (Score d u s x y)" for d
    proof -
      have "flt start score" "\<not> flt start (fst (Score d u s x y))" using True n(2) [OF that] by (auto simp: fgt_def)
      then show ?thesis unfolding no_better_def fgt_def feq_iff by (metis flt_trans)
    qed
    then show ?thesis using True None n assms(3)
      by (auto simp: found_best_def no_better_def fgt_def)
  next
    case False
    then show ?thesis using None n assms(3) by (auto simp: found_best_def)
  qed
next
  case (Some c')
  then have f: "c' \<in> seen" "Score c' u s x y = (best, True)" "fgt best start"
    "\<And>d. d \<in> seen \<Longrightarrow> snd (Score d u s x y) \<Longrightarrow> no_better (fst (Score d u s x y)) (ca_ID d) best (ca_ID c')"
    using assms(1) by (auto simp: found_best_def)
  show ?thesis
  proof (cases "eligible \<and> (fgt score best \<or> feq score best \<and> ca_ID c < ca_ID c')")
    case True
    then have b: "fgt score best \<or> feq score best \<and> ca_ID c < ca_ID c'" by blast
    have "fgt score start" using b f(3) by (auto simp: feq_iff intro: fgt_trans)
    then show ?thesis using True Some f assms(3) no_better_step [OF b]
      by (auto simp: found_best_def no_better_def fgt_def)
  next
    case False
    then show ?thesis using Some f assms(3)
      by (auto simp: found_best_def no_better_def)
  qed
qed

lemma pick_best_found:
  assumes "found_best u s x y start seen best chosen" "start \<noteq> NaN"
  shows "case pick_best u s x y cs best chosen of (b, ch) \<Rightarrow> found_best u s x y start (seen \<union> set cs) b ch"
  using assms
proof (induction cs arbitrary: seen best chosen)
  case (Cons c cs)
  obtain score eligible where sc: "Score c u s x y = (score, eligible)" by force
  have "seen \<union> set (c # cs) = insert c seen \<union> set cs" by auto
  then show ?case
    using Cons.IH [of "insert c seen" score "Some c"] Cons.IH [of "insert c seen" best chosen]
      found_best_step [OF Cons.prems sc] Cons.prems(2)
    by (auto simp: sc split: if_splits)
qed simp

lemma start_best_fin: "start_best = Fin (- (10 ^ 9))"
proof -
  have "rne (of_int (- (10 ^ 9))) = Fin (of_int (- (10 ^ 9)))" by (rule rne_int) simp
  then show ?thesis by (simp add: start_best_def)
qed

lemma best_location_found:
  assumes "best_location u payload cs = (best, chosen)"
  shows "found_best u (p_String payload ''storageType'')
     (fmul (p_Number payload ''weight'') (p_Number payload ''quantity''))
     (fmul (p_Number payload ''volume'') (p_Number payload ''quantity'')) start_best (set cs) best chosen"
proof -
  let ?x = "fmul (p_Number payload ''weight'') (p_Number payload ''quantity'')"
  let ?y = "fmul (p_Number payload ''volume'') (p_Number payload ''quantity'')"
  have "found_best u (p_String payload ''storageType'') ?x ?y start_best {} start_best None"
    by (simp add: found_best_def)
  from pick_best_found [OF this, of cs] assms show ?thesis
    by (simp add: best_location_def start_best_fin)
qed

end
