(* ===== verification/Placement_System.thy ===== *)
theory Placement_System
  imports Placement_Scoring
begin

text \<open>
  The placement service as a transition system: what each statement does to the jobs, the
  invariant of the table, the life cycle of a job, and what one run of the assignment worker can
  lead to.
\<close>

section \<open>The jobs a run goes through\<close>

definition job_states :: "string list" where
  "job_states = [''PENDING'', ''ASSIGNED'', ''PLACED'', ''CANCELLED'']"

definition job_ok :: "(string \<Rightarrow> string option) \<Rightarrow> job_row \<Rightarrow> bool" where
  "job_ok P r = (P (jb_stock r) = Some (jb_stock r) \<and> P (jb_warehouse r) = Some (jb_warehouse r)
     \<and> jb_status r \<in> set job_states \<and> 0 \<le> jb_attempts r \<and> jb_attempts r < 2 ^ 31
     \<and> (\<exists>kvs. jb_payload r = JObj kvs)
     \<and> (jb_status r = ''ASSIGNED'' \<longrightarrow> jb_location r \<noteq> None \<and> jb_score r \<noteq> None \<and> 0 < jb_attempts r))"

text \<open>A job keeps its identity and payload, counts its attempts up, and once placed stays placed.\<close>

definition job_succeeds :: "job_row \<Rightarrow> job_row \<Rightarrow> bool" where
  "job_succeeds r r' = (jb_stock r' = jb_stock r \<and> jb_warehouse r' = jb_warehouse r
     \<and> jb_payload r' = jb_payload r \<and> jb_attempts r \<le> jb_attempts r'
     \<and> (jb_status r = ''PLACED'' \<longrightarrow> jb_status r' = ''PLACED''))"

interpretation job_life: row_order job_succeeds jb_stock
  by unfold_locales (auto simp: job_succeeds_def)

definition good_jobs :: "(string \<Rightarrow> string option) \<Rightarrow> job_row list \<Rightarrow> job_row list \<Rightarrow> bool" where
  "good_jobs P rows js = (uuid_law P \<and> distinct (map jb_stock js) \<and> (\<forall>r \<in> set js. job_ok P r)
     \<and> grown job_succeeds rows js)"

lemma good_jobs_append:
  assumes "good_jobs P rows js" "jb_stock r \<notin> jb_stock ` set js" "job_ok P r"
  shows "good_jobs P rows (js @ [r])"
  using assms by (auto simp: good_jobs_def job_life.grown_append)

lemma good_jobs_map:
  assumes "good_jobs P rows js"
    and "\<And>r. r \<in> set js \<Longrightarrow> job_succeeds r (f r) \<and> job_ok P (f r)"
  shows "good_jobs P rows (map f js)"
proof -
  have "map jb_stock (map f js) = map jb_stock js"
    using assms(2) by (auto simp: job_succeeds_def)
  then show ?thesis using assms by (auto simp: good_jobs_def simp del: map_map intro!: job_life.grown_map)
qed

lemma good_jobs_update:
  assumes "good_jobs P rows js"
    and "\<And>r. r \<in> set js \<Longrightarrow> jb_stock r = u \<Longrightarrow> job_succeeds r (f r) \<and> job_ok P (f r)"
  shows "good_jobs P rows (update_rows jb_stock u f js)"
  unfolding update_rows_def using assms
  by (intro good_jobs_map [OF assms(1)]) (auto simp: good_jobs_def job_life.R_refl)

text \<open>The changes the service makes to a job.\<close>

lemma job_changes:
  assumes "job_ok P r"
  shows "job_succeeds r ((mark_placed r)\<lparr>jb_updated := t\<rparr>) \<and> job_ok P ((mark_placed r)\<lparr>jb_updated := t\<rparr>)"
    and "jb_status r \<noteq> ''PLACED'' \<Longrightarrow> job_succeeds r ((back_to_pending E e r)\<lparr>jb_updated := t\<rparr>)
      \<and> job_ok P ((back_to_pending E e r)\<lparr>jb_updated := t\<rparr>)"
    and "jb_status r \<noteq> ''PLACED'' \<Longrightarrow> job_succeeds r ((mark_cancelled r)\<lparr>jb_updated := t\<rparr>)
      \<and> job_ok P ((mark_cancelled r)\<lparr>jb_updated := t\<rparr>)"
    and "jb_attempts r + 1 < 2 ^ 31 \<Longrightarrow> jb_status r = ''PENDING'' \<Longrightarrow>
      job_succeeds r ((no_location E r)\<lparr>jb_attempts := jb_attempts r + 1, jb_updated := t\<rparr>)
      \<and> job_ok P ((no_location E r)\<lparr>jb_attempts := jb_attempts r + 1, jb_updated := t\<rparr>)"
    and "jb_attempts r + 1 < 2 ^ 31 \<Longrightarrow> jb_status r = ''PENDING'' \<Longrightarrow>
      job_succeeds r ((mark_assigned l s r)\<lparr>jb_attempts := jb_attempts r + 1, jb_updated := t\<rparr>)
      \<and> job_ok P ((mark_assigned l s r)\<lparr>jb_attempts := jb_attempts r + 1, jb_updated := t\<rparr>)"
  using assms by (auto simp: job_ok_def job_succeeds_def job_states_def mark_placed_def
      back_to_pending_def mark_cancelled_def no_location_def mark_assigned_def)

section \<open>The handler\<close>

lemma insert_job_good:
  assumes "pg_uuid E = P"
  shows "keeps (\<lambda>w. good_jobs P rows (jobs (db w))) (insert_job E i u p)"
proof (rule leadsI)
  fix w :: "pldb world" assume w: "good_jobs P rows (jobs (db w))"
  have "good_jobs P rows (jobs (db w) @ [new_job E v wid body])"
    if "P i = Some v" "P u = Some wid" "marshal (GObj p) = Some body"
      "find_row jb_stock v (jobs (db w)) = None" for v wid body
    using that w by (intro good_jobs_append)
      (auto simp: new_job_def job_ok_def job_states_def good_jobs_def uuid_law_def find_row_None_iff)
  then show "wp (insert_job E i u p) (\<lambda>_ w. good_jobs P rows (jobs (db w))) anyerr w"
    using w assms by (simp add: insert_job_def wp_simps del: marshal.simps)
qed

lemma reject_job_good: "keeps (\<lambda>w. good_jobs P rows (jobs (db w))) (reject_job E i reason)"
proof (rule leadsI)
  fix w :: "pldb world" assume w: "good_jobs P rows (jobs (db w))"
  have ok: "job_ok P r" if "r \<in> set (jobs (db w))" for r using w that by (simp add: good_jobs_def)
  have "good_jobs P rows (map (\<lambda>r. if jb_stock r = u \<and> jb_status r \<noteq> ''PLACED''
      then (back_to_pending E reason r)\<lparr>jb_updated := pg_now E\<rparr> else r) (jobs (db w)))" for u
    by (rule good_jobs_map [OF w]) (use job_changes(2) [OF ok] ok in \<open>auto simp: job_life.R_refl\<close>)
  then show "wp (reject_job E i reason) (\<lambda>_ w. good_jobs P rows (jobs (db w))) anyerr w"
    by (simp add: reject_job_def wp_simps)
qed

lemma placed_job_good: "keeps (\<lambda>w. good_jobs P rows (jobs (db w))) (update_job E i mark_placed)"
proof (rule leadsI)
  fix w :: "pldb world" assume w: "good_jobs P rows (jobs (db w))"
  have "good_jobs P rows (update_rows jb_stock u (\<lambda>r. (mark_placed r)\<lparr>jb_updated := pg_now E\<rparr>) (jobs (db w)))" for u
    by (rule good_jobs_update [OF w]) (use w in \<open>auto simp: good_jobs_def job_changes(1)\<close>)
  then show "wp (update_job E i mark_placed) (\<lambda>_ w. good_jobs P rows (jobs (db w))) anyerr w"
    by (simp add: update_job_def wp_simps)
qed

interpretation job_table: handler_invariant "\<lambda>d. good_jobs P rows (jobs d)" Placement_Handle P for P rows
proof unfold_locales
  fix E :: env and e :: "gobj delivered"
  assume "pg_uuid E = P"
  then show "keeps (\<lambda>w. good_jobs P rows (jobs (db w))) (Placement_Handle E e)"
    unfolding Placement_Handle_def Let_def
    by (intro leads_if leads_guard insert_job_good reject_job_good placed_job_good keeps_ret)
qed simp_all

interpretation placement: inbox_handler Placement_Handle
proof
  fix E :: env and e and w w' :: "pldb world"
  assume h: "Placement_Handle E e w = (Inr (), w')"
  have "keeps (\<lambda>w. processed (db w) = X) (Placement_Handle E e)" for X
    by (auto simp: leads_def Placement_Handle_def insert_job_def reject_job_def update_job_def
        wp_simps Let_def simp del: marshal.simps)
  from leads_result [OF this [of "processed (db w)"] refl h] show "set (processed (db w)) \<subseteq> set (processed (db w'))"
    by simp
qed

section \<open>The worker\<close>

lemma due_jobs_mem:
  assumes "due_jobs E W rows = job # rest" "\<And>rs. mset (wk_scan W rs) = mset rs"
  shows "job \<in> set rows" "jb_status job = ''PENDING''" "jb_next job \<le> pg_now E" "\<not> wk_locked W (jb_stock job)"
    "\<And>r. r \<in> set rows \<Longrightarrow> jb_status r = ''PENDING'' \<Longrightarrow> jb_next r \<le> pg_now E \<Longrightarrow>
       \<not> wk_locked W (jb_stock r) \<Longrightarrow> jb_next job \<le> jb_next r"
proof -
  have s: "set (wk_scan W rows) = set rows" using assms(2) mset_eq_setD by blast
  have m: "set (due_jobs E W rows) = {r \<in> set rows. jb_status r = ''PENDING'' \<and> jb_next r \<le> pg_now E
      \<and> \<not> wk_locked W (jb_stock r)}"
    by (simp add: due_jobs_def s)
  have "job \<in> set (due_jobs E W rows)" using assms(1) by simp
  then show "job \<in> set rows" "jb_status job = ''PENDING''" "jb_next job \<le> pg_now E" "\<not> wk_locked W (jb_stock job)"
    unfolding m by auto
  show "jb_next job \<le> jb_next r" if "r \<in> set rows" "jb_status r = ''PENDING''" "jb_next r \<le> pg_now E"
    "\<not> wk_locked W (jb_stock r)" for r
  proof -
    have "r \<in> set (job # rest)" using that m unfolding assms(1) by blast
    moreover have "sorted (map jb_next (job # rest))"
      unfolding assms(1) [symmetric] due_jobs_def by simp
    ultimately show ?thesis by auto
  qed
qed

text \<open>The reply of the inventory service for the lot, and what the worker reads in it.\<close>

definition lot_reply :: "env \<Rightarrow> peers \<Rightarrow> job_row \<Rightarrow> err + gobj" where
  "lot_reply E S job = reply_value decode_map [] (http_get E (InventoryURL S @ ''/inventory/lots/'' @ jb_stock job))"

definition locations_reply :: "env \<Rightarrow> peers \<Rightarrow> job_row \<Rightarrow> err + Candidate list" where
  "locations_reply E S job = reply_value decode_candidates []
     (http_get E (PWarehouseURL S @ ''/warehouses/'' @ jb_warehouse job @ ''/locations''))"

definition lot_placed :: "gobj \<Rightarrow> bool" where
  "lot_placed lot = (map_of lot ''locationId'' \<noteq> None \<and> map_of lot ''locationId'' \<noteq> Some GNil)"

text \<open>The job's row after an assignment, and the payload that announces it.\<close>

definition changed :: "env \<Rightarrow> job_row \<Rightarrow> (job_row \<Rightarrow> job_row) \<Rightarrow> job_row list \<Rightarrow> job_row list" where
  "changed E job f rows = update_rows jb_stock (jb_stock job) (\<lambda>r. (f r)\<lparr>jb_updated := pg_now E\<rparr>) rows"

definition one_more :: "(job_row \<Rightarrow> job_row) \<Rightarrow> job_row \<Rightarrow> job_row" where
  "one_more f r = (f r)\<lparr>jb_attempts := jb_attempts r + 1\<rparr>"

definition assignment_payload :: "gobj \<Rightarrow> f64 \<Rightarrow> f64 \<Rightarrow> string \<Rightarrow> gobj" where
  "assignment_payload payload quantity best location =
     obj_put ''score'' (GF64 best) (obj_put ''locationId'' (GStr location) (obj_put ''quantity'' (GF64 quantity) payload))"

text \<open>
  What a successful run did to the jobs \<open>rows\<close> and the outbox \<open>ob\<close>: nothing is left of the lot,
  it has a location already, no candidate qualifies, or the best candidate is assigned and announced.
\<close>

definition assign_outcome ::
  "env \<Rightarrow> peers \<Rightarrow> job_row \<Rightarrow> job_row list \<Rightarrow> outbox_row list \<Rightarrow> job_row list \<Rightarrow> outbox_row list \<Rightarrow> bool" where
  "assign_outcome E S job rows ob rows' ob' =
     (\<exists>payload lot. decode_map (jb_payload job) [] = Some payload \<and> lot_reply E S job = Inr lot \<and>
       (let n = p_Number lot ''quantity'' in
        if feq n (Fin 0) then rows' = changed E job mark_cancelled rows \<and> ob' = ob
        else if lot_placed lot then rows' = changed E job mark_placed rows \<and> ob' = ob
        else (\<exists>cs best chosen. locations_reply E S job = Inr cs
          \<and> best_location (jb_warehouse job) (obj_put ''quantity'' (GF64 n) payload) cs = (best, chosen)
          \<and> jb_attempts job + 1 < 2 ^ 31
          \<and> (case chosen of
               None \<Rightarrow> rows' = changed E job (one_more (no_location E)) rows \<and> ob' = ob
             | Some c \<Rightarrow> (\<exists>l row. pg_uuid E (ca_ID c) = Some l
                 \<and> rows' = changed E job (one_more (mark_assigned l best)) rows
                 \<and> ob' = ob @ [row] \<and> ob_type row = ''ProductPlacementAssigned'' \<and> ob_published row = None
                 \<and> marshal (GObj (assignment_payload payload n best (ca_ID c))) = Some (ev_payload (ob_body row)))))))"

lemma wp_update_job [wp_simps]:
  "wp (update_job E i f) Q anyerr w = (\<forall>u. pg_uuid E i = Some u \<longrightarrow>
     Q () (set_jobs (update_rows jb_stock u (\<lambda>r. (f r)\<lparr>jb_updated := pg_now E\<rparr>) (jobs (db w))) w))"
  by (simp add: update_job_def wp_simps)

lemma wp_update_attempts:
  assumes "pg_uuid E (jb_stock job) = Some (jb_stock job)" "find_row jb_stock (jb_stock job) (jobs (db w)) = Some job"
    and "jb_attempts job + 1 < 2 ^ 31 \<Longrightarrow> Q () (set_jobs (changed E job (one_more f) (jobs (db w))) w)"
  shows "wp (update_attempts E (jb_stock job) f) Q anyerr w"
  using assms by (simp add: update_attempts_def wp_simps changed_def one_more_def not_le)

lemma assign_job_outcome:
  assumes "pg_uuid E (jb_stock job) = Some (jb_stock job)" "find_row jb_stock (jb_stock job) (jobs (db w)) = Some job"
  shows "wp (assign_job E S job)
    (\<lambda>_ t. assign_outcome E S job (jobs (db w)) (outbox (db w)) (jobs (db t)) (outbox (db t))
       \<and> processed (db t) = processed (db w) \<and> commands (db t) = commands (db w)) anyerr w"
  unfolding assign_job_def wp_bnd wp_Get wp_of_option wp_Let wp_if wp_update_job lot_reply_def [symmetric]
    lot_placed_def [symmetric] locations_reply_def [symmetric]
proof (intro conjI allI impI TrueI)
  fix payload lot u
  let ?n = "p_Number lot ''quantity''"
  assume p: "decode_map (jb_payload job) [] = Some payload" and lot: "lot_reply E S job = Inr lot"
  note known = assign_outcome_def p lot Let_def changed_def
  { assume "feq ?n (Fin 0)" "pg_uuid E (jb_stock job) = Some u"
    then show "assign_outcome E S job (jobs (db w)) (outbox (db w))
       (jobs (db (set_jobs (update_rows jb_stock u (\<lambda>r. (mark_cancelled r)\<lparr>jb_updated := pg_now E\<rparr>)
          (jobs (db (after_correlation E w)))) (after_correlation E w))))
       (outbox (db (set_jobs (update_rows jb_stock u (\<lambda>r. (mark_cancelled r)\<lparr>jb_updated := pg_now E\<rparr>)
          (jobs (db (after_correlation E w)))) (after_correlation E w))))"
      using assms(1) by (simp add: known) }
  { assume "\<not> feq ?n (Fin 0)" "lot_placed lot" "pg_uuid E (jb_stock job) = Some u"
    then show "assign_outcome E S job (jobs (db w)) (outbox (db w))
       (jobs (db (set_jobs (update_rows jb_stock u (\<lambda>r. (mark_placed r)\<lparr>jb_updated := pg_now E\<rparr>)
          (jobs (db (after_correlation E w)))) (after_correlation E w))))
       (outbox (db (set_jobs (update_rows jb_stock u (\<lambda>r. (mark_placed r)\<lparr>jb_updated := pg_now E\<rparr>)
          (jobs (db (after_correlation E w)))) (after_correlation E w))))"
      using assms(1) by (simp add: known) }
  { fix cs
    let ?v = "after_correlation E (after_correlation E w)"
    assume q: "\<not> feq ?n (Fin 0)" "\<not> lot_placed lot" and cs: "locations_reply E S job = Inr cs"
    obtain best chosen where b: "best_location (jb_warehouse job) (obj_put ''quantity'' (GF64 ?n) payload) cs = (best, chosen)"
      by force
    have f: "find_row jb_stock (jb_stock job) (jobs (db v)) = Some job" if "db v = db w" for v
      using assms(2) that by simp
    show "wp (case best_location (jb_warehouse job) (obj_put ''quantity'' (GF64 ?n) payload) cs of
          (best, None) \<Rightarrow> andthen (Count ''placement'' ''no_capacity'') (update_attempts E (jb_stock job) (no_location E))
        | (best, Some c) \<Rightarrow>
            (let payload2 = obj_put ''score'' (GF64 best) (obj_put ''locationId'' (GStr (ca_ID c)) (obj_put ''quantity'' (GF64 ?n) payload)) in
             bnd (sql_uuid E (ca_ID c)) (\<lambda>l. andthen (update_attempts E (jb_stock job) (mark_assigned l best))
             (andthen (Count ''placement'' ''assigned'') (Emit E ''ProductPlacementAssigned'' payload2)))))
      (\<lambda>_ t. assign_outcome E S job (jobs (db w)) (outbox (db w)) (jobs (db t)) (outbox (db t))
       \<and> processed (db t) = processed (db w) \<and> commands (db t) = commands (db w)) anyerr ?v"
    proof (cases chosen)
      case None
      show ?thesis unfolding b prod.case None option.case wp_andthen wp_Count
        by (rule wp_update_attempts [OF assms(1) f]) (use q cs b None in \<open>auto simp: known\<close>)
    next
      case (Some c)
      show ?thesis unfolding b prod.case Some option.case wp_andthen wp_Count wp_Let wp_bnd wp_sql_uuid
      proof (intro conjI allI impI TrueI, rule wp_update_attempts [OF assms(1) f], simp, rule wp_EmitI)
        fix l w'
        assume l: "pg_uuid E (ca_ID c) = Some l" "jb_attempts job + 1 < 2 ^ 31"
          and e: "emitted E ''ProductPlacementAssigned''
             (obj_put ''score'' (GF64 best) (obj_put ''locationId'' (GStr (ca_ID c)) (obj_put ''quantity'' (GF64 ?n) payload)))
             (set_jobs (changed E job (one_more (mark_assigned l best)) (jobs (db ?v))) ?v
                \<lparr>metrics := (''placement'', ''assigned'') # metrics (set_jobs (changed E job (one_more (mark_assigned l best)) (jobs (db ?v))) ?v)\<rparr>) w'"
        then obtain row where "db w' = (db w)\<lparr>jobs := changed E job (one_more (mark_assigned l best)) (jobs (db w)),
            outbox := outbox (db w) @ [row]\<rparr>" "ob_type row = ''ProductPlacementAssigned''" "ob_published row = None"
          "marshal (GObj (assignment_payload payload ?n best (ca_ID c))) = Some (ev_payload (ob_body row))"
          by (auto simp: emitted_def assignment_payload_def simp del: marshal.simps)
        then show "assign_outcome E S job (jobs (db w)) (outbox (db w)) (jobs (db w')) (outbox (db w'))
            \<and> processed (db w') = processed (db w) \<and> commands (db w') = commands (db w)"
          using q cs b Some l by (auto simp: assign_outcome_def p lot Let_def simp del: marshal.simps)
      qed simp
    qed }
qed simp_all

lemma wp_deferred [wp_simps]: "wp (deferred f m) Q R w = wp m (\<lambda>x t. Q x (f t)) (\<lambda>e t. R e (f t)) w"
  by (auto simp: wp_def deferred_def split: prod.split sum.split)

lemma Unlock_frame [simp]: "db (Unlock r k t w) = db w"
  by (simp add: Unlock_def split: redis_reply.split)

lemma wp_SetNX [wp_simps]:
  "wp (SetNX reply key token ttl) Q anyerr w =
     (\<forall>t. reply = ROk t \<longrightarrow> Q (fst (set_nx t key token ttl (redis w)))
        (w\<lparr>redis := snd (set_nx t key token ttl (redis w))\<rparr>))"
  by (auto simp: SetNX_def wp_simps split: redis_reply.split prod.split)

lemma set_nx_granted: "fst (set_nx t key token ttl store) \<longleftrightarrow> redis_get t key store = None"
  by (simp add: set_nx_def)

text \<open>A run of the worker: nothing happens, or the first due job has one of the outcomes.\<close>

definition worked :: "env \<Rightarrow> work_env \<Rightarrow> peers \<Rightarrow> pldb world \<Rightarrow> pldb \<Rightarrow> bool" where
  "worked E W S w d = (\<exists>job rest t. due_jobs E W (jobs (db w)) = job # rest
     \<and> wk_setnx W = ROk t \<and> redis_get t (lock_key job) (redis w) = None
     \<and> assign_outcome E S job (jobs (db w)) (outbox (db w)) (jobs d) (outbox d)
     \<and> processed d = processed (db w) \<and> commands d = commands (db w))"

lemma due_job_facts:
  assumes "good_jobs (pg_uuid E) rows (jobs (db w))" "\<And>rs. mset (wk_scan W rs) = mset rs"
    and "due_jobs E W (jobs (db w)) = job # rest"
  shows "pg_uuid E (jb_stock job) = Some (jb_stock job)"
    "find_row jb_stock (jb_stock job) (jobs (db w)) = Some job" "job_ok (pg_uuid E) job"
proof -
  have m: "job \<in> set (jobs (db w))" by (rule due_jobs_mem [OF assms(3,2)])
  then show "job_ok (pg_uuid E) job" using assms(1) by (simp add: good_jobs_def)
  then show "pg_uuid E (jb_stock job) = Some (jb_stock job)" by (simp add: job_ok_def)
  show "find_row jb_stock (jb_stock job) (jobs (db w)) = Some job"
    using assms(1) m by (intro find_row_distinct) (simp_all add: good_jobs_def)
qed

lemma assign_tx_granted:
  assumes "good_jobs (pg_uuid E) rows (jobs (db w))" "\<And>rs. mset (wk_scan W rs) = mset rs"
    and "due_jobs E W (jobs (db w)) = job # rest" "wk_setnx W = ROk t" "redis_get t (lock_key job) (redis w) = None"
  shows "wp (assign_tx E W S) (\<lambda>_ v. assign_outcome E S job (jobs (db w)) (outbox (db w)) (jobs (db v)) (outbox (db v))
    \<and> processed (db v) = processed (db w) \<and> commands (db v) = commands (db w)) anyerr w"
proof -
  note facts = due_job_facts [OF assms(1-3)]
  have "wp (assign_job E S job) (\<lambda>_ t. assign_outcome E S job (jobs (db w)) (outbox (db w)) (jobs (db t)) (outbox (db t))
       \<and> processed (db t) = processed (db w) \<and> commands (db t) = commands (db w)) anyerr v" if "db v = db w" for v
    using assign_job_outcome [of E job v S] facts that by simp
  then show ?thesis
    by (simp add: assign_tx_def select_job_def wp_simps assms(3-5) set_nx_granted)
qed

lemma assign_tx_outcome:
  assumes "good_jobs (pg_uuid E) rows (jobs (db w))" "\<And>rs. mset (wk_scan W rs) = mset rs"
  shows "wp (assign_tx E W S) (\<lambda>_ v. db v = db w \<or> worked E W S w (db v)) anyerr w"
proof (cases "due_jobs E W (jobs (db w))")
  case Nil
  then show ?thesis by (simp add: assign_tx_def select_job_def wp_simps)
next
  case (Cons job rest)
  show ?thesis
  proof (cases "\<exists>t. wk_setnx W = ROk t \<and> redis_get t (lock_key job) (redis w) = None")
    case True
    then obtain t where t: "wk_setnx W = ROk t" "redis_get t (lock_key job) (redis w) = None" by blast
    show ?thesis
      by (rule wp_mono [OF assign_tx_granted [OF assms Cons t]]) (use Cons t in \<open>auto simp: worked_def\<close>)
  next
    case False
    then show ?thesis by (auto simp: assign_tx_def select_job_def wp_simps Cons set_nx_granted)
  qed
qed

lemma changed_good:
  assumes "good_jobs P rows js" "\<And>r. r \<in> set js \<Longrightarrow> jb_stock r = jb_stock job \<Longrightarrow>
    job_succeeds r ((f r)\<lparr>jb_updated := pg_now E\<rparr>) \<and> job_ok P ((f r)\<lparr>jb_updated := pg_now E\<rparr>)"
  shows "good_jobs P rows (changed E job f js)"
  unfolding changed_def by (rule good_jobs_update [OF assms(1)]) (rule assms(2))

lemma assign_outcome_good:
  assumes g: "good_jobs P rows js" and job: "job \<in> set js" "jb_status job = ''PENDING''"
    and o: "assign_outcome E S job js ob js' ob'"
  shows "good_jobs P rows js'"
proof -
  have ok: "job_ok P job" using g job(1) by (simp add: good_jobs_def)
  have same: "r = job" if "r \<in> set js" "jb_stock r = jb_stock job" for r
    using g that job(1) by (auto simp: good_jobs_def distinct_map dest: inj_onD)
  have n: "jb_status job \<noteq> ''PLACED''" using job(2) by simp
  have "good_jobs P rows (changed E job mark_cancelled js)" "good_jobs P rows (changed E job mark_placed js)"
    by (rule changed_good [OF g], drule (1) same, simp add: job_changes(1,3) [OF ok] n)+
  moreover have "good_jobs P rows (changed E job (one_more (no_location E)) js)"
    "good_jobs P rows (changed E job (one_more (mark_assigned l s)) js)" if "jb_attempts job + 1 < 2 ^ 31" for l s
    by (rule changed_good [OF g], drule (1) same, simp add: one_more_def job_changes(4,5) [OF ok that job(2)])+
  ultimately show ?thesis using o
    by (auto simp: assign_outcome_def Let_def split: if_splits option.splits)
qed

lemma assign_good:
  assumes "good_jobs (pg_uuid E) rows (jobs (db w))" "\<And>rs. mset (wk_scan W rs) = mset rs"
  shows "good_jobs (pg_uuid E) rows (jobs (db (snd (assign E W S w))))"
proof -
  have "good_jobs (pg_uuid E) rows (jobs d)" if wk: "worked E W S w d" for d
  proof -
    obtain job rest where j: "due_jobs E W (jobs (db w)) = job # rest"
      "assign_outcome E S job (jobs (db w)) (outbox (db w)) (jobs d) (outbox d)"
      using wk unfolding worked_def by blast
    show ?thesis
      by (rule assign_outcome_good [OF assms(1) _ _ j(2)]) (rule due_jobs_mem [OF j(1) assms(2)])+
  qed
  then have "wp (assign_tx E W S) (\<lambda>_ v. good_jobs (pg_uuid E) rows (jobs (db v))) anyerr w"
    by (intro wp_mono [OF assign_tx_outcome [OF assms]]) (use assms(1) in auto)
  then show ?thesis using assms(1)
    by (auto simp: assign_def Transaction_def wp_def split: prod.split sum.split)
qed

lemma map_of_redis_del: "map_of (redis_del k store) j = (if j = k then None else map_of store j)"
  by (induction store) (auto simp: redis_del_def)

lemma redis_get_set_nx:
  "redis_get u j (snd (set_nx t key token ttl store)) =
     (if j = key \<and> redis_get t key store = None then if u < t + ttl then Some token else None
      else redis_get u j store)"
  by (auto simp: set_nx_def redis_get_def map_of_redis_del split: option.splits prod.splits)

lemma redis_get_compare_del:
  "redis_get u j (compare_del t key token store) =
     (if j = key \<and> redis_get t key store = Some token then None else redis_get u j store)"
  by (auto simp: compare_del_def redis_get_def map_of_redis_del split: option.splits prod.splits)

section \<open>The worker succeeds and gives the mutex back\<close>

lemma wp_update_job_all:
  "wp (update_job E i f) Q R w = ((pg_uuid E i = None \<longrightarrow> R (Internal ''invalid input syntax for type uuid'') w) \<and>
     (\<forall>u. pg_uuid E i = Some u \<longrightarrow>
       Q () (set_jobs (update_rows jb_stock u (\<lambda>r. (f r)\<lparr>jb_updated := pg_now E\<rparr>) (jobs (db w))) w)))"
  by (simp add: update_job_def wp_simps)

lemma after_correlation_redis [simp]: "redis (after_correlation E w) = redis w"
  by (simp add: after_correlation_def split: option.split)

lemma assign_job_redis:
  "redis w = X \<Longrightarrow> wp (assign_job E S job) (\<lambda>_ t. redis t = X) (\<lambda>_ t. redis t = X) w"
  by (auto simp: assign_job_def update_attempts_def wp_update_job_all wp_simps intro!: wp_Emit_redis)

text \<open>After the run, successful or not, nothing but the deferred release has touched the server.\<close>

lemma deferred_unlocks:
  "redis (snd (deferred (Unlock reply key token) (assign_job E S job) w)) = redis (Unlock reply key token w)"
proof -
  have "redis (snd (assign_job E S job w)) = redis w"
    using assign_job_redis [of w "redis w" E S job] by (auto simp: wp_def split: prod.splits sum.splits)
  then show ?thesis by (auto simp: deferred_def Unlock_def split: prod.split redis_reply.split)
qed

text \<open>The server executed the release while the lease that was granted at \<open>t\<close> still ran.\<close>

definition released_in_lease :: "redis_reply \<Rightarrow> int \<Rightarrow> bool" where
  "released_in_lease reply t = (case reply of RDown \<Rightarrow> False | RLost t' \<Rightarrow> t' < t + 15000 | ROk t' \<Rightarrow> t' < t + 15000)"

lemma unlock_after_lock:
  assumes "redis_get t key store = None" "redis w = snd (set_nx t key token 15000 store)"
  shows "redis_get u key (redis (Unlock reply key token w)) =
    (if released_in_lease reply t \<or> t + 15000 \<le> u then None else Some token)"
  using assms by (auto simp: Unlock_def released_in_lease_def redis_get_compare_del redis_get_set_nx split: redis_reply.split)

lemma p_Number_valid: "wf_gov (GObj p) \<Longrightarrow> valid_f64 (p_Number p k)"
proof -
  assume "wf_gov (GObj p)"
  then have w: "wf_fields p" by simp
  have v: "wf_gov v" if "map_of p k = Some v" for v
    using w that by (induction p) (auto split: if_splits)
  show ?thesis
    using v valid_f64_of_int by (cases "map_of p k") (auto simp: p_Number_def split: gov.split)
qed

lemma lot_reply_wf: "lot_reply E S job = Inr lot \<Longrightarrow> wf_gov (GObj lot)"
  unfolding lot_reply_def
proof (rule reply_value_inv [where P = "\<lambda>m. wf_gov (GObj m)"])
  fix j r r' assume "decode_map j r = Some r'" "wf_gov (GObj r)"
  then show "wf_gov (GObj r')" using unmarshal_wf(3) by (auto simp: decode_map_def split: json.splits)
qed simp_all

section \<open>Steps and reachable states\<close>

inductive placement_step ::
  "(string \<Rightarrow> string option) \<Rightarrow> peers \<Rightarrow> pldb world \<Rightarrow> pldb world \<Rightarrow> bool" for P S where
  deliver: "pg_uuid E = P \<Longrightarrow> placement_step P S w (snd (attempt_event E Placement_Handle m w))"
| dead_letter: "placement_step P S w (snd (WriteMessages E (dead_letter E m e) w))"
| publish: "placement_step P S w (Outbox_tick E w)"
| work: "pg_uuid E = P \<Longrightarrow> (\<And>rs. mset (wk_scan W rs) = mset rs) \<Longrightarrow>
    placement_step P S w (Placement_tick E W S w)"
| listing: "placement_step P S w (snd (Wrap E header (placements_endpoint scan) w))"
| get: "placement_step P S w (snd (Wrap E header (placement_endpoint i) w))"

definition empty_pldb :: pldb where
  "empty_pldb = \<lparr>outbox = [], processed = [], commands = [], jobs = []\<rparr>"

inductive placement_reachable ::
  "(string \<Rightarrow> string option) \<Rightarrow> peers \<Rightarrow> pldb world \<Rightarrow> bool" for P S where
  start: "db w = empty_pldb \<Longrightarrow> placement_reachable P S w"
| step: "placement_reachable P S w \<Longrightarrow> placement_step P S w w' \<Longrightarrow> placement_reachable P S w'"

lemma placement_query_db [simp]:
  "db (snd (placements_endpoint scan E w)) = db w" "db (snd (placement_endpoint i E w)) = db w"
proof -
  have "wp (placements_endpoint scan E) (\<lambda>_ t. db t = db w) (\<lambda>_ t. db t = db w) w"
    by (simp add: placements_endpoint_def read_rows_def wp_simps)
  then show "db (snd (placements_endpoint scan E w)) = db w"
    by (auto simp: wp_def split: prod.splits sum.splits)
  have "wp (placement_endpoint i E) (\<lambda>_ t. db t = db w) (\<lambda>_ t. db t = db w) w"
    by (auto simp: placement_endpoint_def read_rows_def wp_simps split: list.split)
  then show "db (snd (placement_endpoint i E w)) = db w"
    by (auto simp: wp_def split: prod.splits sum.splits)
qed

lemma placement_step_good:
  assumes "placement_step P S w w'" "good_jobs P rows (jobs (db w))"
  shows "good_jobs P rows (jobs (db w'))"
  using assms(1)
proof (cases rule: placement_step.cases)
  case (deliver E m)
  then show ?thesis using assms(2) by (auto intro: job_table.attempt_keeps)
next
  case (work E W)
  then show ?thesis using assms(2) assign_good [of E rows w W S] by (simp add: Placement_tick_def)
qed (use assms(2) in \<open>auto intro: job_table.Outbox_tick_keeps job_table.Wrap_keeps\<close>)

lemma placement_run_good:
  assumes "(placement_step P S)\<^sup>*\<^sup>* w w'" "good_jobs P rows (jobs (db w))"
  shows "good_jobs P rows (jobs (db w'))"
  using assms by (induction rule: rtranclp_induct) (blast intro: placement_step_good)+

lemma placement_reachable_good:
  assumes "placement_reachable P S w" "uuid_law P"
  shows "good_jobs P [] (jobs (db w))"
  using assms(1)
proof (induction rule: placement_reachable.induct)
  case (start w)
  then show ?case using assms(2) by (simp add: good_jobs_def empty_pldb_def grown_def)
next
  case (step w w')
  then show ?case by (blast intro: placement_step_good)
qed

section \<open>The mutex\<close>

text \<open>What clients of the mutex do at the server, each with a token of its own.\<close>

datatype lock_op = Acquire int string int | Release int string

fun run_locks :: "string \<Rightarrow> lock_op list \<Rightarrow> (string \<times> string \<times> int) list \<Rightarrow> (string \<times> string \<times> int) list" where
  "run_locks key [] store = store"
| "run_locks key (Acquire t token ttl # ops) store = run_locks key ops (snd (set_nx t key token ttl store))"
| "run_locks key (Release t token # ops) store = run_locks key ops (compare_del t key token store)"

fun op_time :: "lock_op \<Rightarrow> int" where
  "op_time (Acquire t token ttl) = t"
| "op_time (Release t token) = t"

fun op_token :: "lock_op \<Rightarrow> string" where
  "op_token (Acquire t token ttl) = token"
| "op_token (Release t token) = token"

text \<open>An entry is live until its expiry, whatever others do meanwhile.\<close>

lemma others_keep_lock:
  assumes "map_of store key = Some (token, expires)"
    and "\<forall>op \<in> set ops. op_token op \<noteq> token \<and> op_time op < expires"
  shows "map_of (run_locks key ops store) key = Some (token, expires)"
  using assms
proof (induction ops arbitrary: store)
  case (Cons op ops)
  show ?case
  proof (cases op)
    case (Acquire t tok ttl)
    then have "redis_get t key store = Some token" using Cons.prems by (simp add: redis_get_def)
    then have "snd (set_nx t key tok ttl store) = store" by (simp add: set_nx_def)
    then show ?thesis using Cons Acquire by simp
  next
    case (Release t tok)
    then have "redis_get t key store = Some token" "tok \<noteq> token"
      using Cons.prems by (auto simp: redis_get_def)
    then have "compare_del t key tok store = store" by (simp add: compare_del_def)
    then show ?thesis using Cons Release by simp
  qed
qed simp

end
