(* ===== verification/Placement_Properties.thy ===== *)
theory Placement_Properties
  imports Placement_System
begin

text \<open>
  What the placement service guarantees: jobs only move forward, an assignment names the best
  eligible location and fits the whole lot, the mutex is exclusive while its lease runs and is
  given back, and an assignable job is assigned.
\<close>

section \<open>A concrete run\<close>

definition depot_get :: "string \<Rightarrow> http_reply" where
  "depot_get url =
     (if url = ''I/inventory/lots/s1'' then Reply 200 (Some (JObj [(''data'', JObj
        [(''id'', JStr ''s1''), (''quantity'', JInt 10), (''locationId'', JNull)])]))
      else if url = ''W/warehouses/w1/locations'' then Reply 200 (Some (JObj [(''data'', JArr
        [JObj [(''id'', JStr ''l2''), (''warehouseId'', JStr ''w1''), (''maxWeight'', JInt 100),
           (''maxVolume'', JInt 100), (''distance'', JInt 90), (''storageType'', JStr ''DRY''),
           (''zoneType'', JStr ''STORAGE''), (''status'', JStr ''AVAILABLE'')],
         JObj [(''id'', JStr ''l1''), (''warehouseId'', JStr ''w1''), (''maxWeight'', JInt 100),
           (''maxVolume'', JInt 100), (''distance'', JInt 0), (''storageType'', JStr ''DRY''),
           (''zoneType'', JStr ''STORAGE''), (''status'', JStr ''AVAILABLE'')]])]))
      else Reply 404 None)"

definition depot_env :: env where
  "depot_env = \<lparr>svc_name = ''placement-service'', uuid_ok = (\<lambda>s. s \<noteq> []),
     pg_uuid = (\<lambda>s. if s = [] then None else Some s),
     new_uuid = (\<lambda>n. CHR ''u'' # replicate n (CHR ''x'')), go_now = (\<lambda>n. 1000 * int n), pg_now = 1,
     begin_ok = True, commit_ok = True, kafka_ok = (\<lambda>_. True), ctx_corr = Some ''c'',
     ctx_trace = [], http_get = depot_get, fingerprint = (\<lambda>_. ''f''), pg_ts_text = (\<lambda>_. [])\<rparr>"

definition depot_peers :: peers where
  "depot_peers = \<lparr>PWarehouseURL = ''W'', InventoryURL = ''I''\<rparr>"

definition depot_work :: work_env where
  "depot_work = \<lparr>wk_scan = (\<lambda>rows. rows), wk_locked = (\<lambda>_. False), wk_setnx = ROk 0, wk_eval = ROk 5\<rparr>"

definition depot_start :: "pldb world" where
  "depot_start = \<lparr>db = empty_pldb, held = [], metrics = [], uuids = 0, ticks = 0, seqno = 0,
     sends = 0, kafka = [], redis = []\<rparr>"

definition depot_message :: "string \<Rightarrow> string \<Rightarrow> kafka_msg" where
  "depot_message i kind = \<lparr>km_topic = ''wms.events'', km_key = ''w1'',
     km_value = Some \<lparr>ev_id = i, ev_type = kind, ev_version = 1, ev_time = 0, ev_source = ''x'',
       ev_correlation = ''c'', ev_traceparent = [], ev_payload = JObj
         [(''stockId'', JStr ''s1''), (''warehouseId'', JStr ''w1''), (''quantity'', JInt 10),
          (''weight'', JInt 2), (''volume'', JInt 1), (''storageType'', JStr ''DRY'')]\<rparr>, km_headers = []\<rparr>"

definition depot_job :: "pldb world" where
  "depot_job = snd (attempt_event depot_env Placement_Handle (depot_message ''e1'' ''GoodsReceived'') depot_start)"

definition depot_assigned :: "pldb world" where
  "depot_assigned = Placement_tick depot_env depot_work depot_peers depot_job"

definition depot_placed :: "pldb world" where
  "depot_placed = snd (attempt_event depot_env Placement_Handle (depot_message ''e2'' ''StockAdded'') depot_assigned)"

lemma depot_uuid_law: "uuid_law (pg_uuid depot_env)"
  by (simp add: uuid_law_def depot_env_def)

lemma depot_scan: "mset (wk_scan depot_work rs) = mset rs"
  by (simp add: depot_work_def)

lemma depot_run:
  "placement_step (pg_uuid depot_env) depot_peers depot_start depot_job"
  "placement_step (pg_uuid depot_env) depot_peers depot_job depot_assigned"
  "placement_step (pg_uuid depot_env) depot_peers depot_assigned depot_placed"
  unfolding depot_job_def depot_assigned_def depot_placed_def
  by (rule placement_step.deliver placement_step.work depot_scan refl)+

lemma depot_start_reachable: "placement_reachable (pg_uuid depot_env) depot_peers depot_start"
  by (rule placement_reachable.start) (simp add: depot_start_def)

lemmas depot_job_reachable = placement_reachable.step [OF depot_start_reachable depot_run(1)]
lemmas depot_assigned_reachable = placement_reachable.step [OF depot_job_reachable depot_run(2)]

lemma depot_due:
  "due_jobs depot_env depot_work (jobs (db depot_job)) = [hd (jobs (db depot_job))]"
  "redis_get 0 (lock_key (hd (jobs (db depot_job)))) (redis depot_job) = None"
  by code_simp+

section \<open>Jobs\<close>

text \<open>
  In every reachable state each lot has at most one placement job, the ids of a job are
  canonical, its status is one of the four, its attempts are counted within the range of the
  column, and an assigned job has a location and a score.
\<close>

lemma placement_jobs_ok:
  assumes "placement_reachable P S w" "uuid_law P"
  shows "distinct (map jb_stock (jobs (db w))) \<and> (\<forall>r \<in> set (jobs (db w)). job_ok P r)"
  using placement_reachable_good [OF assms] by (simp add: good_jobs_def)

text \<open>
  C26: along every run a placement job stays, keeps its lot, warehouse and payload, and never
  leaves PLACED again: neither a late rejection nor the worker moves a placed lot.
\<close>

theorem placed_job_stays:
  assumes "placement_reachable P S w" "uuid_law P" "(placement_step P S)\<^sup>*\<^sup>* w w'" "r \<in> set (jobs (db w))"
  shows "\<exists>r' \<in> set (jobs (db w')). job_succeeds r r'"
proof -
  have "good_jobs P (jobs (db w)) (jobs (db w))"
    using placement_reachable_good [OF assms(1,2)] by (simp add: good_jobs_def job_life.grown_refl)
  then have "good_jobs P (jobs (db w)) (jobs (db w'))" by (rule placement_run_good [OF assms(3)])
  then show ?thesis using assms(4) job_life.grown_found by (auto simp: good_jobs_def)
qed

theorem placed_job_stays_witness:
  "\<exists>r' \<in> set (jobs (db depot_placed)). job_succeeds (hd (jobs (db depot_assigned))) r' \<and> jb_status r' = ''PLACED''"
proof -
  have m: "hd (jobs (db depot_assigned)) \<in> set (jobs (db depot_assigned))"
    "list_all (\<lambda>r. jb_status r = ''PLACED'') (jobs (db depot_placed))" by code_simp+
  have "(placement_step (pg_uuid depot_env) depot_peers)\<^sup>*\<^sup>* depot_assigned depot_placed"
    using depot_run(3) by (rule r_into_rtranclp)
  from placed_job_stays [OF depot_assigned_reachable depot_uuid_law this m(1)] m(2)
  show ?thesis by (auto simp: list_all_iff)
qed

section \<open>Choosing a location\<close>

text \<open>
  C24: the loop over the candidates finds the best eligible location: the one it returns is
  offered, eligible and scores above the start value, no eligible candidate scores higher, and
  among equal scores it has the smallest id; it returns none only if no eligible candidate scores
  above the start value.
\<close>

theorem best_location_is_best:
  assumes "best_location u payload cs = (best, chosen)"
  shows "found_best u (p_String payload ''storageType'')
     (fmul (p_Number payload ''weight'') (p_Number payload ''quantity''))
     (fmul (p_Number payload ''volume'') (p_Number payload ''quantity'')) (Fin (- (10 ^ 9))) (set cs) best chosen"
  using best_location_found [OF assms] by (simp add: start_best_fin)

definition depot_payload :: gobj where
  "depot_payload = [(''storageType'', GStr ''DRY''), (''weight'', GF64 (Fin 2)), (''volume'', GF64 (Fin 1)),
     (''quantity'', GF64 (Fin 10))]"

definition depot_candidate :: "string \<Rightarrow> rat \<Rightarrow> Candidate" where
  "depot_candidate i distance = \<lparr>ca_ID = i, ca_WarehouseID = ''w1'', ca_MaxWeight = Fin 100, ca_MaxVolume = Fin 100,
     ca_CurrentWeight = Fin 0, ca_CurrentVolume = Fin 0, ca_Distance = Fin distance, ca_StorageType = ''DRY'',
     ca_ZoneType = ''STORAGE'', ca_Status = ''AVAILABLE''\<rparr>"

theorem best_location_is_best_witness:
  "map_option ca_ID (snd (best_location ''w1'' depot_payload [depot_candidate ''l2'' 0, depot_candidate ''l1'' 0])) = Some ''l1''
   \<and> found_best ''w1'' ''DRY'' (Fin 20) (Fin 10) (Fin (- (10 ^ 9))) {depot_candidate ''l2'' 0, depot_candidate ''l1'' 0}
       (Fin 94) (Some (depot_candidate ''l1'' 0))"
proof -
  have b: "best_location ''w1'' depot_payload [depot_candidate ''l2'' 0, depot_candidate ''l1'' 0]
      = (Fin 94, Some (depot_candidate ''l1'' 0))" by code_simp
  have "p_String depot_payload ''storageType'' = ''DRY''"
    "fmul (p_Number depot_payload ''weight'') (p_Number depot_payload ''quantity'') = Fin 20"
    "fmul (p_Number depot_payload ''volume'') (p_Number depot_payload ''quantity'') = Fin 10"
    by code_simp+
  with best_location_is_best [OF b] b show ?thesis by (simp add: depot_candidate_def)
qed

text \<open>
  C40: the score of an eligible location with sane data (positive finite limits, nothing negative)
  is a number of at most 100, in binary64 with every rounding on the way.
\<close>

theorem score_bound:
  assumes "sane c" "weight \<noteq> NaN" "volume \<noteq> NaN" "snd (Score c warehouse storageType weight volume)"
  shows "fle (fst (Score c warehouse storageType weight volume)) (Fin 100)"
proof (rule score_at_most_100 [OF assms(1) _ _ assms(4)])
  have "\<not> fle weight (Fin 0)" "\<not> fle volume (Fin 0)" using assms(4) by (auto simp: Score_eligible)
  then show "fle (Fin 0) weight" "fle (Fin 0) volume"
    using assms(2,3) flt_total [of weight "Fin 0"] flt_total [of volume "Fin 0"] by (auto simp: fle_def feq_iff)
qed

theorem score_bound_witness:
  "Score (depot_candidate ''l1'' 0) ''w1'' ''DRY'' (Fin 20) (Fin 10) = (Fin 94, True) \<and> fle (Fin 94) (Fin 100)"
proof -
  have s: "Score (depot_candidate ''l1'' 0) ''w1'' ''DRY'' (Fin 20) (Fin 10) = (Fin 94, True)" by code_simp
  have "valid_f64 (Fin 100)" by simp
  then have "sane (depot_candidate ''l1'' 0)" by (simp add: sane_def depot_candidate_def)
  from score_bound [OF this, of "Fin 20" "Fin 10" "''w1''" "''DRY''"] s show ?thesis by simp
qed

section \<open>Assigning\<close>

text \<open>
  C22: a run of the worker that commits either changes nothing, or it holds the mutex of the
  warehouse and treats one due job, none of whose unlocked competitors was due earlier: the job is
  cancelled when nothing is left of the lot, placed when the lot has a location, retried in ten
  seconds when no candidate qualifies, and otherwise assigned the best location with exactly one
  announcement; no other job changes.
\<close>

theorem assign_outcomes:
  assumes "placement_reachable (pg_uuid E) S0 w" "uuid_law (pg_uuid E)" "\<And>rs. mset (wk_scan W rs) = mset rs"
    and "assign E W S w = (Inr (), w')"
  shows "db w' = db w \<or> worked E W S w (db w')"
proof -
  obtain v where v: "assign_tx E W S w = (Inr (), v)" "w' = v\<lparr>held := held w\<rparr>"
    using assms(4) by (auto simp: assign_def Transaction_success)
  have "db v = db w \<or> worked E W S w (db v)"
    using wp_result [OF assign_tx_outcome [OF placement_reachable_good [OF assms(1,2)] assms(3)] v(1)] .
  then show ?thesis by (simp add: v(2))
qed

theorem assign_outcomes_witness:
  "worked depot_env depot_work depot_peers depot_job (db depot_assigned)
   \<and> map ob_type (outbox (db depot_assigned)) = [''ProductPlacementAssigned'']"
proof -
  have r: "fst (assign depot_env depot_work depot_peers depot_job) = Inr ()"
    "map ob_type (outbox (db depot_assigned)) = [''ProductPlacementAssigned'']" "outbox (db depot_job) = []"
    by code_simp+
  then have "assign depot_env depot_work depot_peers depot_job = (Inr (), depot_assigned)"
    unfolding depot_assigned_def Placement_tick_def by (metis prod.collapse)
  from assign_outcomes [OF depot_job_reachable depot_uuid_law depot_scan this] r
  show ?thesis by auto
qed

text \<open>
  C23: an assignment fits: whenever a run of the worker announces an assignment, the location it
  names was among those the warehouse service offered, belongs to the job's warehouse, stores the
  lot's storage type, is not blocked, and has room for the whole remaining quantity of the lot.
\<close>

theorem assigned_location_fits:
  assumes "placement_reachable (pg_uuid E) S0 w" "uuid_law (pg_uuid E)" "\<And>rs. mset (wk_scan W rs) = mset rs"
    and "assign E W S w = (Inr (), w')" "outbox (db w') \<noteq> outbox (db w)"
  shows "\<exists>job \<in> set (jobs (db w)). \<exists>payload lot cs c best row. decode_map (jb_payload job) [] = Some payload
    \<and> lot_reply E S job = Inr lot \<and> locations_reply E S job = Inr cs \<and> c \<in> set cs
    \<and> suits c (jb_warehouse job) (p_String payload ''storageType'')
    \<and> has_room c (fmul (p_Number payload ''weight'') (p_Number lot ''quantity''))
        (fmul (p_Number payload ''volume'') (p_Number lot ''quantity''))
    \<and> outbox (db w') = outbox (db w) @ [row] \<and> ob_type row = ''ProductPlacementAssigned''
    \<and> marshal (GObj (assignment_payload payload (p_Number lot ''quantity'') best (ca_ID c)))
        = Some (ev_payload (ob_body row))"
proof -
  obtain v where v: "assign_tx E W S w = (Inr (), v)" "db w' = db v"
    using assms(4) by (auto simp: assign_def Transaction_success)
  note g = placement_reachable_good [OF assms(1,2)]
  have "db v = db w \<or> worked E W S w (db v)" using wp_result [OF assign_tx_outcome [OF g assms(3)] v(1)] .
  then have "worked E W S w (db w')" using assms(5) v(2) by auto
  then obtain job rest where j: "due_jobs E W (jobs (db w)) = job # rest"
    and o: "assign_outcome E S job (jobs (db w)) (outbox (db w)) (jobs (db w')) (outbox (db w'))"
    unfolding worked_def by blast
  from o assms(5) obtain payload lot cs best c row where r:
    "decode_map (jb_payload job) [] = Some payload" "lot_reply E S job = Inr lot" "locations_reply E S job = Inr cs"
    "best_location (jb_warehouse job) (obj_put ''quantity'' (GF64 (p_Number lot ''quantity'')) payload) cs = (best, Some c)"
    "outbox (db w') = outbox (db w) @ [row]" "ob_type row = ''ProductPlacementAssigned''"
    "marshal (GObj (assignment_payload payload (p_Number lot ''quantity'') best (ca_ID c))) = Some (ev_payload (ob_body row))"
    unfolding assign_outcome_def Let_def by (auto split: if_splits option.splits simp del: marshal.simps)
  let ?q = "obj_put ''quantity'' (GF64 (p_Number lot ''quantity'')) payload"
  have n: "p_Number ?q ''quantity'' = p_Number lot ''quantity''" "p_Number ?q ''weight'' = p_Number payload ''weight''"
    "p_Number ?q ''volume'' = p_Number payload ''volume''" by (simp_all add: p_Number_def)
  have "c \<in> set cs" "snd (Score c (jb_warehouse job) (p_String payload ''storageType'')
      (fmul (p_Number payload ''weight'') (p_Number lot ''quantity''))
      (fmul (p_Number payload ''volume'') (p_Number lot ''quantity'')))"
    using best_location_found [OF r(4)] by (auto simp: found_best_def n)
  with r due_jobs_mem(1) [OF j assms(3)] show ?thesis unfolding Score_eligible by blast
qed

theorem assigned_location_fits_witness:
  "\<exists>job \<in> set (jobs (db depot_job)). \<exists>cs c. locations_reply depot_env depot_peers job = Inr cs \<and> c \<in> set cs
     \<and> suits c ''w1'' ''DRY''"
proof -
  have r: "fst (assign depot_env depot_work depot_peers depot_job) = Inr ()"
    "map ob_type (outbox (db depot_assigned)) = [''ProductPlacementAssigned'']" "outbox (db depot_job) = []"
    "list_all (\<lambda>job. jb_warehouse job = ''w1'' \<and> map_option (\<lambda>p. p_String p ''storageType'') (decode_map (jb_payload job) [])
       = Some ''DRY'') (jobs (db depot_job))"
    by code_simp+
  then have a: "assign depot_env depot_work depot_peers depot_job = (Inr (), depot_assigned)"
    unfolding depot_assigned_def Placement_tick_def by (metis prod.collapse)
  have "outbox (db depot_assigned) \<noteq> outbox (db depot_job)" using r(2,3) by auto
  from assigned_location_fits [OF depot_job_reachable depot_uuid_law depot_scan a this] r(4)
  show ?thesis unfolding list_all_iff by fastforce
qed



section \<open>The mutex\<close>

text \<open>
  C38: the placement mutex excludes: once a client has been granted the key, then whatever other
  clients acquire or release at the server before the lease ends, the key still carries the
  holder's token, and every further attempt to take it in that time is refused.
\<close>

theorem mutex_excludes:
  assumes "set_nx t key token ttl store = (True, store1)"
    and "\<forall>op \<in> set ops. op_token op \<noteq> token \<and> op_time op < t + ttl"
    and "u < t + ttl"
  shows "redis_get u key (run_locks key ops store1) = Some token
    \<and> fst (set_nx u key other ttl' (run_locks key ops store1)) = False"
proof -
  have "map_of store1 key = Some (token, t + ttl)"
    using assms(1) by (auto simp: set_nx_def split: if_splits)
  from others_keep_lock [OF this assms(2)] assms(3) show ?thesis
    by (simp add: redis_get_def set_nx_def)
qed

theorem mutex_excludes_witness:
  "redis_get 14999 ''k'' (run_locks ''k'' [Acquire 5 ''b'' 15000, Release 6 ''b''] (snd (set_nx 0 ''k'' ''a'' 15000 []))) = Some ''a''"
proof -
  have s: "set_nx 0 ''k'' ''a'' 15000 [] = (True, snd (set_nx 0 ''k'' ''a'' 15000 []))"
    by (simp add: set_nx_def redis_get_def redis_del_def)
  show ?thesis
    using mutex_excludes [OF s, of "[Acquire 5 ''b'' 15000, Release 6 ''b'']" 14999] by simp
qed

text \<open>
  C37: what a run that was granted the mutex at server time \<open>t\<close> leaves of it, whether the run assigned,
  failed or rolled back: the key of the warehouse is free at once if the server executed the release
  within the lease of 15 s, answered or not; otherwise (the server could not be reached, or too
  late) the key stays taken by the run's own token exactly until the lease ends.
\<close>

theorem mutex_released:
  assumes "begin_ok E" "due_jobs E W (jobs (db w)) = job # rest" "wk_setnx W = ROk t"
    and "redis_get t (lock_key job) (redis w) = None"
  shows "redis_get u (lock_key job) (redis (snd (assign E W S w))) =
    (if released_in_lease (wk_eval W) t \<or> t + 15000 \<le> u then None else Some (new_uuid E (uuids w)))"
proof -
  let ?v = "w\<lparr>uuids := Suc (uuids w), redis := snd (set_nx t (lock_key job) (new_uuid E (uuids w)) 15000 (redis w))\<rparr>"
  let ?run = "deferred (Unlock (wk_eval W) (lock_key job) (new_uuid E (uuids w))) (assign_job E S job) ?v"
  have "SetNX (wk_setnx W) (lock_key job) (new_uuid E (uuids w)) 15000 (w\<lparr>uuids := Suc (uuids w)\<rparr>) = (Inr True, ?v)"
    using assms(3,4) by (simp add: SetNX_def set_nx_def bnd_def gets_def andthen_def modify_def ret_def)
  then have "assign_tx E W S w = ?run"
    using assms(2) by (simp add: assign_tx_def select_job_def NewString_def bnd_def gets_def andthen_def modify_def ret_def)
  then have "redis (snd (assign E W S w)) = redis (snd ?run)" using assms(1)
    by (auto simp: assign_def Transaction_def split: prod.splits sum.splits)
  also have "\<dots> = redis (Unlock (wk_eval W) (lock_key job) (new_uuid E (uuids w)) ?v)" by (rule deferred_unlocks)
  finally show ?thesis using unlock_after_lock [OF assms(4), of ?v] by simp
qed

theorem mutex_released_witness:
  "redis_get 7 (lock_key (hd (jobs (db depot_job)))) (redis (snd (assign depot_env depot_work depot_peers depot_job))) = None
   \<and> redis_get 7 (lock_key (hd (jobs (db depot_job))))
       (redis (snd (assign depot_env (depot_work\<lparr>wk_eval := RDown\<rparr>) depot_peers depot_job))) = Some ''u''"
proof -
  have due: "due_jobs depot_env (depot_work\<lparr>wk_eval := RDown\<rparr>) (jobs (db depot_job)) =
      due_jobs depot_env depot_work (jobs (db depot_job))"
    by (simp add: due_jobs_def)
  have "new_uuid depot_env (uuids depot_job) = ''u''" by code_simp
  then show ?thesis
    using mutex_released [OF _ depot_due(1) _ depot_due(2), where u = 7 and S = depot_peers]
      mutex_released [OF _ depot_due(1) [folded due] _ depot_due(2), where u = 7 and S = depot_peers]
    by (simp add: depot_env_def depot_work_def released_in_lease_def)
qed

section \<open>Failing runs\<close>

text \<open>
  A run that fails leaves the table as it was, so that the next tick finds the same job first: a
  job whose lot or locations cannot be read holds up the jobs that are due after it.
\<close>

lemma failed_run_repeats:
  assumes "assign E W S w = (Inl e, w')"
  shows "db w' = db w" "due_jobs E' W' (jobs (db w')) = due_jobs E' W' (jobs (db w))"
proof -
  show "db w' = db w"
    using assms by (auto simp: assign_def Transaction_def split: if_splits prod.splits sum.splits)
  then show "due_jobs E' W' (jobs (db w')) = due_jobs E' W' (jobs (db w))" by simp
qed

end
