(* ===== verification/Messaging_Properties.thy ===== *)
theory Messaging_Properties
  imports Audit_Properties Placement_Properties
begin

text \<open>
  What the shared runtime guarantees to every service: atomic transactions, offsets committed only
  for messages that were handled or dead-lettered, and that after at most five attempts, an outbox
  that is published completely and in order, and payloads that survive their way through JSON.
\<close>

section \<open>Transactions\<close>

text \<open>
  A transaction either commits exactly the state its body produced, or reports an error and leaves
  the database as it was; in both cases its locks end with it.
\<close>

lemma transaction_atomic:
  assumes "Transaction E fn w = (r, w')"
  shows "held w' = held w \<and> (case r of
      Inl e \<Rightarrow> db w' = db w
    | Inr x \<Rightarrow> begin_ok E \<and> commit_ok E \<and> (\<exists>t. fn w = (Inr x, t) \<and> db w' = db t))"
  using assms by (auto simp: Transaction_def split: if_splits prod.splits sum.splits)

section \<open>Consuming\<close>

text \<open>
  C29: an offset is committed only for a message that was handled in a committed transaction, or
  that was copied to the dead-letter topic with the database unchanged, or, the one hole in the
  loop, for a well-formed message that was fetched just before the context was cancelled, so that
  no attempt was made and nothing happened; if the loop ends without committing, the database is as
  before the message. In particular a malformed message never goes without a copy.
\<close>

theorem offset_only_after_outcome:
  assumes "consume_message h m (parse_message E (km_value m)) 0 Es w = (committed, w')"
  shows "if committed
    then handled h (parse_message E (km_value m)) Es w w' \<or> dead_lettered m Es w w'
      \<or> Es = [] \<and> w' = w \<and> (\<exists>event. parse_message E (km_value m) = Inr event)
    else db w' = db w"
  using consume_message_outcome [OF assms] by (auto simp: skipped_def)

definition poison :: kafka_msg where
  "poison = \<lparr>km_topic = ''wms.events'', km_key = ''w1'', km_value = None, km_headers = []\<rparr>"

theorem offset_only_after_outcome_witness:
  "dead_lettered poison (replicate 5 trail_env) trail_one
     (snd (consume_message Audit_Handle poison (parse_message trail_env (km_value poison)) 0 (replicate 5 trail_env) trail_one))"
proof -
  let ?v = "parse_message trail_env (km_value poison)"
  let ?r = "consume_message Audit_Handle poison ?v 0 (replicate 5 trail_env) trail_one"
  have "fst ?r" by code_simp
  then have r: "?r = (True, snd ?r)" by (metis prod.collapse)
  have v: "\<exists>e. ?v = Inl e" by (simp add: poison_def parse_message_def)
  then have "\<not> handled Audit_Handle ?v Es w w'" for Es and w w' :: "adb world"
    by (auto simp: handled_def attempt_read_def throw_def)
  then show ?thesis using offset_only_after_outcome [OF r] v by auto
qed

text \<open>The states between the messages: each was handled or dead-lettered in its turn.\<close>

fun settled_in_turn ::
  "'a handler \<Rightarrow> (kafka_msg \<times> env \<times> env list \<times> bool) list \<Rightarrow> 'a pdb_scheme world list \<Rightarrow> bool" where
  "settled_in_turn h [] ws = True"
| "settled_in_turn h ((m, E, Es, c) # rest) (w # w' # ws) =
     ((handled h (parse_message E (km_value m)) Es w w' \<or> dead_lettered m Es w w') \<and> settled_in_turn h rest (w' # ws))"
| "settled_in_turn h (x # rest) ws = False"

definition unattempted :: "kafka_msg \<times> env \<times> env list \<times> bool \<Rightarrow> bool" where
  "unattempted = (\<lambda>(m, E, Es, c). Es = [] \<and> (case parse_message E (km_value m) of Inr _ \<Rightarrow> True | Inl _ \<Rightarrow> False))"

lemma Consume_commits:
  assumes "Consume h pos c msgs w = (committed, w')"
  shows "c = committed \<or> (\<exists>k ws. k \<le> length msgs \<and> settled_in_turn h (take k msgs) (w # ws)
    \<and> (committed = pos + k \<or> committed = Suc (pos + k) \<and> k < length msgs \<and> unattempted (msgs ! k)))"
  using assms
proof (induction msgs arbitrary: pos c w)
  case (Cons x msgs)
  obtain m E Es k where x: "x = (m, E, Es, k)" by (cases x)
  let ?v = "parse_message E (km_value m)"
  obtain fin w1 where r: "consume_message h m ?v 0 Es w = (fin, w1)" by force
  show ?case
  proof (cases "fin \<and> Es \<noteq> []")
    case True
    then have o: "handled h ?v Es w w1 \<or> dead_lettered m Es w w1"
      using consume_message_outcome [OF r] by (auto simp: skipped_def)
    have "Consume h (Suc pos) (if k then Suc pos else c) msgs w1 = (committed, w')"
      using Cons.prems r True by (simp add: x Let_def)
    from Cons.IH [OF this] consider "(if k then Suc pos else c) = committed"
      | j ws where "j \<le> length msgs" "settled_in_turn h (take j msgs) (w1 # ws)"
          "committed = Suc pos + j \<or> committed = Suc (Suc pos + j) \<and> j < length msgs \<and> unattempted (msgs ! j)"
      by blast
    then show ?thesis
    proof cases
      case 1
      have "settled_in_turn h (take 1 (x # msgs)) (w # [w1])" using o by (simp add: x)
      moreover have "c = committed \<or> committed = pos + 1" using 1 by (simp split: if_splits)
      ultimately show ?thesis by (intro disjCI exI [of _ 1] exI [of _ "[w1]"]) auto
    next
      case (2 j ws)
      have "settled_in_turn h (take (Suc j) (x # msgs)) (w # w1 # ws)" using 2(2) o by (simp add: x)
      with 2 show ?thesis by (intro disjI2 exI [of _ "Suc j"] exI [of _ "w1 # ws"]) auto
    qed
  next
    case False
    show ?thesis
    proof (cases "fin")
      case True
      then have "Es = []" "unattempted x" using False r by (auto simp: x unattempted_def split: sum.splits)
      then have "c = committed \<or> committed = Suc pos" using Cons.prems r True by (simp add: x Let_def split: if_splits)
      then show ?thesis using \<open>unattempted x\<close> by (intro disjCI exI [of _ 0] exI [of _ "[]"]) auto
    next
      case False
      then show ?thesis using Cons.prems r by (simp add: x)
    qed
  qed
qed simp

text \<open>
  C15: nothing is lost but in one case: wherever the fetch loop on a partition ends and whichever
  commits failed, every message below the committed offset was handled in a committed transaction or
  copied to the dead-letter topic, one after the other in the order of the partition, except that
  the last one may be a well-formed message that was fetched just before the context was cancelled
  and was never attempted (\<open>cancelled_fetch_skips\<close> shows that this happens).
\<close>

theorem partition_loses_nothing:
  assumes "Consume h pos pos msgs w = (committed, w')"
  shows "\<exists>k ws. k \<le> length msgs \<and> settled_in_turn h (take k msgs) (w # ws)
    \<and> (committed = pos + k \<or> committed = Suc (pos + k) \<and> k < length msgs \<and> unattempted (msgs ! k))"
  using Consume_commits [OF assms] by (auto intro: exI [of _ 0])

theorem partition_loses_nothing_witness:
  "\<exists>ws. settled_in_turn Audit_Handle [(poison, trail_env, replicate 5 trail_env, True)] (trail_start # ws)"
proof -
  let ?msgs = "[(poison, trail_env, replicate 5 trail_env, True), (poison, trail_env, [trail_env], True)]"
  let ?r = "Consume Audit_Handle 7 7 ?msgs trail_start"
  have "fst ?r = 8" by code_simp
  then have r: "?r = (8, snd ?r)" by (metis prod.collapse)
  have u: "\<not> unattempted (?msgs ! 0)" by (simp add: unattempted_def)
  from partition_loses_nothing [OF r] obtain k ws where k: "settled_in_turn Audit_Handle (take k ?msgs) (trail_start # ws)"
    "8 = 7 + k \<or> 8 = Suc (7 + k) \<and> unattempted (?msgs ! k)" by blast
  have "k = 1" using k(2) u by (cases k) auto
  with k(1) show ?thesis by auto
qed

text \<open>
  A cancellation between the fetch of a message and its first attempt leaves \<open>err\<close> at the
  \<open>nil\<close> of the parser: if the broker still takes the commit, a well-formed message is skipped
  without having been handled.
\<close>

lemma cancelled_fetch_skips:
  assumes "parse_message E (km_value m) = Inr ev"
  shows "Consume h pos pos ((m, E, [], True) # rest) w = (Suc pos, w)"
  using assms by (simp add: Let_def)

text \<open>
  C30: no message blocks its partition: if the broker takes writes at the fifth attempt, the loop
  commits the offset of any message, also a malformed one, within five attempts.
\<close>

theorem message_leaves_in_five:
  assumes "5 \<le> length Es" "\<And>k. kafka_ok (Es ! 4) k"
  shows "fst (consume_message h m (parse_message E (km_value m)) 0 Es w)"
  using assms by (intro consume_message_commits [of 4]) auto

theorem message_leaves_in_five_witness:
  "fst (consume_message Audit_Handle poison (parse_message trail_env (km_value poison)) 0 (replicate 5 trail_env) trail_start)
   \<and> fst (attempt_event trail_env Audit_Handle poison trail_start) \<noteq> Inr ()"
proof -
  have "fst (attempt_event trail_env Audit_Handle poison trail_start) \<noteq> Inr ()"
    by (simp add: attempt_event_def attempt_read_def poison_def parse_message_def throw_def)
  then show ?thesis
    using message_leaves_in_five [of "replicate 5 trail_env" Audit_Handle poison trail_env trail_start]
    by (simp add: trail_env_def)
qed

section \<open>Publishing\<close>

definition backlog :: "outbox_row list \<Rightarrow> outbox_row list" where
  "backlog rows = sort_key ob_seq (pending rows)"

lemma pending_batch_backlog: "pending_batch rows = take 50 (backlog rows)"
  by (simp add: pending_batch_def backlog_def pending_def)

lemma filter_take_drop:
  "distinct (map f xs) \<Longrightarrow> filter (\<lambda>x. f x \<notin> f ` set (take n xs)) xs = drop n xs"
proof (induction xs arbitrary: n)
  case (Cons a xs)
  show ?case
  proof (cases n)
    case (Suc k)
    have "f a \<notin> f ` set xs" using Cons.prems by auto
    then have "filter (\<lambda>x. f x \<notin> insert (f a) (f ` set (take k xs))) xs = filter (\<lambda>x. f x \<notin> f ` set (take k xs)) xs"
      by (intro filter_cong) (auto simp: image_iff)
    then show ?thesis using Cons Suc by simp
  qed (auto simp: filter_id_conv)
qed simp

lemma backlog_after:
  assumes "distinct (map ob_id rows)"
  shows "backlog (map (publish_row E (pending_batch rows)) rows) = drop 50 (backlog rows)"
proof -
  have "pending (map (publish_row E b) rows) = filter (\<lambda>r. ob_id r \<notin> ob_id ` set b) (pending rows)" for b
    by (induction rows) (auto simp: pending_def publish_row_def)
  then have "backlog (map (publish_row E (pending_batch rows)) rows) =
      filter (\<lambda>r. ob_id r \<notin> ob_id ` set (take 50 (backlog rows))) (backlog rows)"
    by (simp add: backlog_def pending_batch_backlog filter_sort)
  moreover have "distinct (map ob_id (backlog rows))"
    using assms by (auto simp: backlog_def pending_def distinct_map intro: inj_on_subset)
  ultimately show ?thesis by (simp add: filter_take_drop)
qed

definition up :: "env \<Rightarrow> bool" where
  "up E = (begin_ok E \<and> commit_ok E \<and> (\<forall>n. kafka_ok E n))"

lemma tick_up:
  assumes "up E"
  shows "kafka (Outbox_tick E w) = kafka w @ map outbox_message (take 50 (backlog (outbox (db w))))"
    "outbox (db (Outbox_tick E w)) = map (publish_row E (pending_batch (outbox (db w)))) (outbox (db w))"
proof -
  obtain w' where r: "Outbox_batch E w = (Inr (), w')"
    using Outbox_batch_ok [of E w] assms by (auto simp: up_def)
  from Outbox_batch_run [OF this] r
  show "kafka (Outbox_tick E w) = kafka w @ map outbox_message (take 50 (backlog (outbox (db w))))"
    "outbox (db (Outbox_tick E w)) = map (publish_row E (pending_batch (outbox (db w)))) (outbox (db w))"
    by (simp_all add: Outbox_tick_def pending_batch_backlog)
qed

text \<open>
  C27: the outbox drains: while the database and the broker are up, \<open>n\<close> ticks of the publisher
  send exactly the first \<open>50 * n\<close> unpublished events in the order of their sequence numbers, each
  once, and leave the others pending; so any backlog is gone after a bounded number of ticks.
\<close>

theorem outbox_drains:
  assumes "distinct (map ob_id (outbox (db w)))" "\<forall>E \<in> set Es. up E"
  shows "kafka (outbox_ticks Es w) = kafka w @ map outbox_message (take (50 * length Es) (backlog (outbox (db w))))
    \<and> backlog (outbox (db (outbox_ticks Es w))) = drop (50 * length Es) (backlog (outbox (db w)))"
  using assms
proof (induction Es arbitrary: w)
  case (Cons E Es)
  let ?v = "Outbox_tick E w"
  have E: "up E" using Cons.prems(2) by simp
  have "distinct (map ob_id (outbox (db ?v)))"
    using Cons.prems(1) by (simp add: tick_up(2) [OF E] comp_def)
  moreover have "backlog (outbox (db ?v)) = drop 50 (backlog (outbox (db w)))"
    by (simp add: tick_up(2) [OF E] backlog_after [OF Cons.prems(1)])
  moreover have "50 * length (E # Es) = 50 + 50 * length Es" by simp
  ultimately show ?case using Cons.IH [of ?v] Cons.prems(2) unfolding outbox_ticks.simps
    by (simp add: tick_up(1) [OF E] take_add [of 50] add.commute [of _ 50] del: list.size)
qed simp

theorem outbox_drains_witness:
  "backlog (outbox (db (outbox_ticks [depot_env] depot_assigned))) = []
   \<and> length (kafka (outbox_ticks [depot_env] depot_assigned)) = 1"
proof -
  have "length (backlog (outbox (db depot_assigned))) = 1" "kafka depot_assigned = []"
    "distinct (map ob_id (outbox (db depot_assigned)))" by code_simp+
  moreover have "up depot_env" by (simp add: up_def depot_env_def)
  ultimately show ?thesis using outbox_drains [of depot_assigned "[depot_env]"] by simp
qed

text \<open>
  C28: nothing is marked published that was not sent: whatever happens in a tick (broker errors in
  the middle of a batch, a failing commit), what went to Kafka is a prefix of the batch in sequence
  order, and a row that became published in this tick was sent in it.
\<close>

theorem published_was_sent:
  assumes "Outbox_tick E w = w'"
  shows "\<exists>k. kafka w' = kafka w @ map outbox_message (take k (pending_batch (outbox (db w))))
    \<and> (db w' = db w \<or> take k (pending_batch (outbox (db w))) = pending_batch (outbox (db w))
        \<and> outbox (db w') = map (publish_row E (pending_batch (outbox (db w)))) (outbox (db w)))"
proof -
  let ?b = "pending_batch (outbox (db w))"
  obtain r t where r: "publish_rows E ?b w = (r, t)" by force
  have w': "w' = (if \<not> begin_ok E then w else case r of Inl e \<Rightarrow> t\<lparr>db := db w, held := held w\<rparr>
      | Inr x \<Rightarrow> if commit_ok E then t\<lparr>held := held w\<rparr> else t\<lparr>db := db w, held := held w\<rparr>)"
    using assms r by (auto simp: Outbox_tick_def Outbox_batch_def Transaction_def bnd_def gets_def split: sum.splits)
  show ?thesis
  proof (cases "begin_ok E")
    case False
    then show ?thesis by (intro exI [of _ 0]) (simp add: w')
  next
    case True
    show ?thesis
    proof (cases r)
      case (Inl e)
      then obtain k where "kafka t = kafka w @ map outbox_message (take k ?b)"
        using publish_rows_Inl r by blast
      then show ?thesis using True Inl by (intro exI [of _ k]) (simp add: w')
    next
      case (Inr x)
      then have "publish_rows E ?b w = (Inr (), t)" using r by simp
      from publish_rows_Inr [OF this] show ?thesis
        using True Inr by (intro exI [of _ "length ?b"]) (simp add: w')
    qed
  qed
qed

theorem published_was_sent_witness:
  "\<exists>k. kafka (Outbox_tick (depot_env\<lparr>commit_ok := False\<rparr>) depot_assigned) =
     kafka depot_assigned @ map outbox_message (take k (pending_batch (outbox (db depot_assigned))))"
  using published_was_sent [of "depot_env\<lparr>commit_ok := False\<rparr>" depot_assigned] by blast

section \<open>Payloads\<close>

text \<open>
  Payloads survive JSON: every value the code emits can be written, and reading the text
  gives the value back, with integers turned into the float64 nearest to them and object keys in
  sorted order.
\<close>

lemma payload_roundtrip:
  assumes "wf_gov v"
  shows "\<exists>j. marshal v = Some j \<and> unmarshal j = Some (as_read v)"
  using marshal_reads(1) [OF assms] .

end
