(* ===== verification/Putaway.thy ===== *)
theory Putaway
  imports Inventory_Effects Placement_Properties
begin

text \<open>
  The services together: what one writes into an event the other reads out of it, a receipt of the
  inventory service becomes a job of the placement service, and a location the placement service
  chooses passes the capacity check of the inventory service.
\<close>

section \<open>Payloads across services\<close>

text \<open>A payload as its reader has it.\<close>

definition read_payload :: "gobj \<Rightarrow> gobj" where
  "read_payload p = sort_key fst (as_read_fields p)"

lemma as_read_keys: "map fst (as_read_fields p) = map fst p"
  by (induction p) auto

lemma map_of_as_read: "map_of (as_read_fields p) k = map_option as_read (map_of p k)"
  by (induction p) auto

lemma map_of_insort_key:
  assumes "distinct (map fst (x # xs))"
  shows "map_of (insort_key fst x xs) k = map_of (x # xs) k"
  using assms by (induction xs) auto

lemma map_of_sort_key:
  "distinct (map fst xs) \<Longrightarrow> map_of (sort_key fst xs) k = map_of xs k"
proof (induction xs)
  case (Cons x xs)
  have "distinct (map fst (sort_key fst xs))" using Cons.prems by (simp add: distinct_map)
  then have "distinct (map fst (x # sort_key fst xs))" using Cons.prems by simp
  from map_of_insort_key [OF this] Cons show ?case by simp
qed simp

lemma read_payload_get:
  assumes "distinct (map fst p)"
  shows "map_of (read_payload p) k = map_option as_read (map_of p k)"
proof -
  have "distinct (map fst (as_read_fields p))" using assms by (simp add: as_read_keys)
  then show ?thesis by (simp add: read_payload_def map_of_sort_key map_of_as_read)
qed

lemma as_read_cases: "(case as_read v of GStr s \<Rightarrow> s | _ \<Rightarrow> []) = (case v of GStr s \<Rightarrow> s | _ \<Rightarrow> [])"
  by (cases v) auto

lemma read_payload_values:
  assumes "distinct (map fst p)"
  shows "p_String (read_payload p) k = p_String p k" "p_Number (read_payload p) k = p_Number p k"
proof -
  show "p_String (read_payload p) k = p_String p k"
    unfolding p_String_def read_payload_get [OF assms]
    by (cases "map_of p k") (auto split: gov.split)
  show "p_Number (read_payload p) k = p_Number p k"
    unfolding p_Number_def read_payload_get [OF assms]
    by (cases "map_of p k") (auto split: gov.split)
qed

lemma decode_marshalled:
  assumes "wf_gov (GObj p)" "marshal (GObj p) = Some j"
  shows "decode_map j [] = Some (read_payload p)"
proof -
  have "unmarshal j = Some (as_read (GObj p))" using marshal_reads(1) [OF assms(1)] assms(2) by (metis option.inject)
  moreover obtain js where "j = JObj js" using assms(2) by (auto split: option.splits)
  ultimately show ?thesis by (auto simp: decode_map_def read_payload_def)
qed

section \<open>A receipt becomes a job\<close>

lemma received_payload_wf:
  "is_i64 (st_Quantity x) \<Longrightarrow> valid_f64 (st_Weight x) \<Longrightarrow> valid_f64 (st_Volume x) \<Longrightarrow>
     wf_gov (GObj (received_payload x))"
  by (simp add: received_payload_def)

lemma receives_facts:
  assumes "receives E S q ss x ss'"
  obtains i wid where "pg_uuid E (st_ID x) = Some i" "pg_uuid E (st_WarehouseID x) = Some wid"
    "wf_gov (GObj (received_payload x))"
proof -
  obtain i wid product where x: "product_reply E S (rq_ProductID q) = Inr product"
    "pg_uuid E (st_ID x) = Some i" "pg_uuid E (rq_WarehouseID q) = Some wid" "0 < rq_Quantity q"
    "rq_Quantity q \<le> 1000000000" "st_WarehouseID x = rq_WarehouseID q" "st_Quantity x = rq_Quantity q"
    "st_Weight x = pr_Weight product" "st_Volume x = pr_Volume product"
    using assms unfolding receives_def by blast
  have "valid_f64 (pr_Weight product) \<and> valid_f64 (pr_Volume product)"
    using x(1) unfolding product_reply_def by (rule product_reply_valid)
  then have "wf_gov (GObj (received_payload x))"
    using x by (intro received_payload_wf) (simp_all add: is_i64_bounds)
  with x that show thesis by simp
qed

lemma insert_job_run:
  assumes "pg_uuid E i = Some u" "pg_uuid E v = Some wid" "marshal (GObj p) = Some body"
    and "find_row jb_stock u (jobs (db w)) = None"
  shows "insert_job E i v p w = (Inr (), set_jobs (jobs (db w) @ [new_job E u wid body]) w)"
  using assms by (simp add: insert_job_def bnd_def sql_uuid_def of_option_def ret_def modify_def del: marshal.simps)

text \<open>The delivery of a receipt's event.\<close>

definition job_of :: "env \<Rightarrow> Stock \<Rightarrow> job_row \<Rightarrow> bool" where
  "job_of E x job = (pg_uuid E (st_ID x) = Some (jb_stock job) \<and> pg_uuid E (st_WarehouseID x) = Some (jb_warehouse job)
     \<and> jb_status job = ''PENDING'' \<and> jb_attempts job = 0 \<and> jb_next job = pg_now E \<and> (\<exists>payload.
        decode_map (jb_payload job) [] = Some payload
        \<and> p_String payload ''stockId'' = st_ID x \<and> p_String payload ''warehouseId'' = st_WarehouseID x
        \<and> p_String payload ''storageType'' = st_StorageType x \<and> p_Number payload ''quantity'' = f64_of_int (st_Quantity x)
        \<and> p_Number payload ''weight'' = st_Weight x \<and> p_Number payload ''volume'' = st_Volume x))"

lemma received_values:
  "distinct (map fst (received_payload x))"
  "p_String (received_payload x) ''stockId'' = st_ID x" "p_String (received_payload x) ''warehouseId'' = st_WarehouseID x"
  "p_String (received_payload x) ''storageType'' = st_StorageType x"
  "p_Number (received_payload x) ''quantity'' = f64_of_int (st_Quantity x)"
  "p_Number (received_payload x) ''weight'' = st_Weight x" "p_Number (received_payload x) ''volume'' = st_Volume x"
  by (simp_all add: received_payload_def p_String_def p_Number_def)

lemma receipt_delivery:
  assumes wf: "wf_gov (GObj (received_payload x))" and ids: "pg_uuid E (st_ID x) = Some i" "pg_uuid E (st_WarehouseID x) = Some wid"
    and ann: "announced ''GoodsReceived'' (received_payload x) w1"
    and ev: "uuid_ok E (ev_id (ob_body (last (outbox (db w1)))))" "pg_uuid E (ev_id (ob_body (last (outbox (db w1))))) = Some u"
      "(u, svc_name E) \<notin> set (processed (db w))"
    and new: "find_row jb_stock i (jobs (db w)) = None" and up: "begin_ok E" "commit_ok E"
  shows "\<exists>w' job. attempt_event E Placement_Handle (outbox_message (last (outbox (db w1)))) w = (Inr (), w')
    \<and> jobs (db w') = jobs (db w) @ [job] \<and> job_of E x job"
proof -
  let ?m = "ob_body (last (outbox (db w1)))" and ?p = "read_payload (received_payload x)"
  have m: "ev_type ?m = ''GoodsReceived''" "ev_version ?m = 1" "marshal (GObj (received_payload x)) = Some (ev_payload ?m)"
    using ann by (simp_all add: announced_def del: marshal.simps)
  note d = decode_marshalled [OF wf m(3)]
  have nn: "ev_payload ?m \<noteq> JNull" using m(3) by (auto split: option.splits)
  let ?ev = "\<lparr>ev_id = ev_id ?m, ev_type = ev_type ?m, ev_version = ev_version ?m, ev_time = ev_time ?m,
    ev_source = ev_source ?m, ev_correlation = ev_correlation ?m, ev_traceparent = ev_traceparent ?m, ev_payload = ?p, ev_nil = False\<rparr>"
  let ?E = "E\<lparr>ctx_corr := Some (ev_correlation ?m)\<rparr>"
  have a: "attempt_event E Placement_Handle (outbox_message (last (outbox (db w1)))) w = Process ?E ?ev Placement_Handle w"
    using ev(1) m(2) d nn by (simp add: attempt_event_def attempt_read_def parse_message_def outbox_message_def)
  have "wf_gov (GObj ?p)" by (rule decode_map_wf [OF d])
  then obtain body where body: "marshal (GObj ?p) = Some body" using marshal_wf by blast
  note vals = read_payload_values [OF received_values(1)]
  have ins: "insert_job ?E (st_ID x) (st_WarehouseID x) ?p (marked ?E u w)
      = (Inr (), set_jobs (jobs (db w) @ [new_job ?E i wid body]) (marked ?E u w))"
    using insert_job_run [where E = ?E and w = "marked ?E u w", OF _ _ body] ids new by (simp add: marked_def)
  have h: "Placement_Handle ?E ?ev (marked ?E u w)
      = (Inr (), set_jobs (jobs (db w) @ [new_job ?E i wid body]) (marked ?E u w))"
    using ins by (simp add: Placement_Handle_def m(1) vals received_values andthen_def bnd_def stop_if_def ret_def)
  have "Process ?E ?ev Placement_Handle w
      = (Inr (), (set_jobs (jobs (db w) @ [new_job ?E i wid body]) (marked ?E u w))\<lparr>held := held w\<rparr>)"
    using ev(2,3) up h by (subst Process_fresh [of ?E ?ev u]) auto
  moreover have "job_of E x (new_job ?E i wid body)"
  proof -
    have "decode_map body [] = Some (read_payload ?p)" by (rule decode_marshalled [OF \<open>wf_gov (GObj ?p)\<close> body])
    moreover have "distinct (map fst ?p)" using \<open>wf_gov (GObj ?p)\<close> by simp
    ultimately show ?thesis using ids
      by (simp add: job_of_def new_job_def read_payload_values received_values vals)
  qed
  ultimately show ?thesis using a by simp
qed

section \<open>A chosen location is admitted\<close>

text \<open>New ids that never run out: they are UUIDs, distinct from each other and from those in use.\<close>

definition supplied :: "env \<Rightarrow> 'a pdb_scheme world \<Rightarrow> bool" where
  "supplied E w = ((\<forall>j k. pg_uuid E (new_uuid E j) = pg_uuid E (new_uuid E k) \<longrightarrow> j = k)
     \<and> (\<forall>k \<ge> uuids w. \<exists>u. pg_uuid E (new_uuid E k) = Some u \<and> u \<notin> ob_id ` set (outbox (db w))))"

lemma supplied_step:
  assumes "supplied E w" "pg_uuid E (new_uuid E (uuids w)) = Some u" "ob_id row = u"
    "outbox (db w') = outbox (db w) @ [row]" "uuids w < uuids w'"
  shows "supplied E w'"
  using assms unfolding supplied_def by (auto simp: image_Un) (metis Suc_leD Suc_le_eq leD order_less_le_trans option.inject)+

lemma Emit_keeps_supply:
  assumes "wf_gov (GObj p)" "supplied E w"
  shows "wp (Emit E k p) (\<lambda>_ w'. supplied E w') (\<lambda>_ _. False) w"
proof -
  obtain b where b: "marshal (GObj p) = Some b" using marshal_wf [OF assms(1)] by blast
  obtain u where u: "pg_uuid E (new_uuid E (uuids w)) = Some u" "u \<notin> ob_id ` set (outbox (db w))"
    using assms(2) by (auto simp: supplied_def)
  show ?thesis
    using u b by (auto simp: Emit_def wp_simps wp_insert_outbox Let_def simp del: marshal.simps
        intro!: supplied_step [OF assms(2) u(1)])
qed

lemma wp_both:
  assumes "wp m Q anyerr w" "wp m Q' (\<lambda>_ _. False) w" "\<And>x t. Q x t \<Longrightarrow> Q' x t \<Longrightarrow> K x t"
  shows "wp m K R w"
  using assms by (cases "m w") (auto simp: wp_def split: sum.splits)

lemma wp_Emit_supplied:
  assumes "wf_gov (GObj p)" "supplied E w" "\<And>w'. emitted E k p w w' \<Longrightarrow> supplied E w' \<Longrightarrow> Q () w'"
  shows "wp (Emit E k p) Q R w"
  by (rule wp_both [OF _ Emit_keeps_supply [OF assms(1,2)], where Q = "\<lambda>_. emitted E k p w"])
    (auto intro: wp_EmitI assms(3))

text \<open>
  The limits a location is read with are finite, so a limit with its tolerance is finite too, and sums
  of a ledger within it are finite and not negative.
\<close>

lemma location_limits_valid:
  assumes "location_reply E S l = Inr loc"
  shows "valid_f64 (lo_MaxWeight loc)" "valid_f64 (lo_MaxVolume loc)"
proof -
  have "valid_f64 (lo_MaxWeight loc) \<and> valid_f64 (lo_MaxVolume loc)"
  proof (rule reply_value_inv [OF _ _ assms [unfolded location_reply_def]])
    show "valid_f64 (lo_MaxWeight zero_Location) \<and> valid_f64 (lo_MaxVolume zero_Location)"
      by (simp add: zero_Location_def)
  next
    fix j r r'
    assume d: "decode_struct False location_fields j r = Some r'"
      and v: "valid_f64 (lo_MaxWeight r) \<and> valid_f64 (lo_MaxVolume r)"
    show "valid_f64 (lo_MaxWeight r') \<and> valid_f64 (lo_MaxVolume r')"
      by (rule decode_struct_inv [where P = "\<lambda>r. valid_f64 (lo_MaxWeight r) \<and> valid_f64 (lo_MaxVolume r)", OF _ d v],
         auto simp: location_fields_def str_field_def f64_field_def split: json.splits)
        (erule f64_literal_valid)+
  qed
  then show "valid_f64 (lo_MaxWeight loc)" "valid_f64 (lo_MaxVolume loc)" by simp_all
qed

lemma limit_finite:
  assumes "valid_f64 m" shows "fadd m over_tolerance \<noteq> PInf" "fadd m over_tolerance \<noteq> NaN"
proof -
  obtain x where x: "m = Fin x" using assms by (auto simp: valid_f64_iff)
  obtain t where t: "over_tolerance = Fin t" using valid_f64_over by (auto simp: valid_f64_iff)
  have "fle over_tolerance (Fin 1)" unfolding over_tolerance_def by (rule rne_le) simp_all
  then have "t \<le> 1" by (simp add: t)
  then show "fadd m over_tolerance \<noteq> PInf" "fadd m over_tolerance \<noteq> NaN"
    using small_sum_finite [of x t] assms by (simp_all add: x t)
qed

lemma sum_in_limit:
  assumes "nonneg_f64 t" "fle (Fin 0) d" "fits_limit (fadd t d) m" "valid_f64 m"
  shows "\<exists>x. fadd t d = Fin x \<and> 0 \<le> x"
proof -
  obtain a where a: "t = Fin a" "0 \<le> a" using assms(1) by (cases t) (auto simp: nonneg_f64_def valid_f64_def)
  have "fle (Fin 0) (fadd t d)"
    using Fin_fleD [OF assms(2)] a rne_ge [of 0] by auto
  moreover have "fadd t d \<noteq> PInf"
  proof
    assume "fadd t d = PInf"
    then show False using assms(3) limit_finite [OF assms(4)]
      by (cases "fadd m over_tolerance") (auto simp: fits_limit_def fgt_def)
  qed
  ultimately show ?thesis by (cases "fadd t d") (auto simp: fle_def)
qed

text \<open>
  The placement service's test of a candidate is the inventory service's test of an inflow, when
  both see the same location, the same totals and the same lot.
\<close>

definition same_place :: "Candidate \<Rightarrow> Location \<Rightarrow> bool" where
  "same_place c loc = (lo_WarehouseID loc = ca_WarehouseID c \<and> lo_Status loc = ca_Status c
     \<and> lo_ZoneType loc = ca_ZoneType c \<and> lo_StorageType loc = ca_StorageType c
     \<and> lo_MaxWeight loc = ca_MaxWeight c \<and> lo_MaxVolume loc = ca_MaxVolume c)"

definition same_totals :: "Candidate \<Rightarrow> capacity_row \<Rightarrow> bool" where
  "same_totals c row = (cap_weight row = ca_CurrentWeight c \<and> cap_volume row = ca_CurrentVolume c)"

abbreviation load :: "f64 \<Rightarrow> int \<Rightarrow> f64" where
  "load unit n \<equiv> fmul unit (f64_of_int n)"

lemma fmul_commute: "fmul a b = fmul b a"
  by (cases a; cases b) (auto simp: mult.commute)

lemma ledger_add_load: "ledger_add t n unit = fadd t (load unit n)"
  by (simp add: ledger_add_def fmul_commute)

lemma score_tolerance_same: "score_tolerance = over_tolerance"
  by (simp add: score_tolerance_def over_tolerance_def)

lemma eligible_admitted:
  assumes "snd (Score c (st_WarehouseID x) (st_StorageType x) (load (st_Weight x) n) (load (st_Volume x) n))"
    and "same_place c loc" "same_totals c row"
  shows "accepts x loc" "fits_limit (ledger_add (cap_weight row) n (st_Weight x)) (lo_MaxWeight loc)"
    "fits_limit (ledger_add (cap_volume row) n (st_Volume x)) (lo_MaxVolume loc)"
    "\<not> fle (load (st_Weight x) n) (Fin 0)" "\<not> fle (load (st_Volume x) n) (Fin 0)"
  using assms unfolding Score_eligible
  by (auto simp: suits_def has_room_def accepts_def fits_limit_def same_place_def same_totals_def
      ledger_add_load score_tolerance_same)

lemma load_not_NaN: "valid_f64 u \<Longrightarrow> is_i64 n \<Longrightarrow> load u n \<noteq> NaN"
  by (cases u) (auto simp: valid_f64_def f64_of_int_fin)

lemma positive_load: "valid_f64 u \<Longrightarrow> is_i64 n \<Longrightarrow> \<not> fle (load u n) (Fin 0) \<Longrightarrow> fle (Fin 0) (load u n)"
  using load_not_NaN [of u n] flt_total [of "load u n" "Fin 0"] by (auto simp: fle_def feq_iff)

lemma supplied_after:
  "supplied E w \<Longrightarrow> supplied E (after_correlation E w)"
  "supplied E w \<Longrightarrow> supplied E (w\<lparr>metrics := m\<rparr>)"
  by (auto simp: supplied_def after_correlation_def split: option.split)

lemma supplied_frame [simp]:
  "supplied E (set_capacities c v) = supplied E v" "supplied E (set_stocks s v) = supplied E v"
  by (simp_all add: supplied_def)

lemma wp_check_accepted:
  assumes "location_reply E S l = Inr loc" "accepts x loc" "Q loc (after_correlation E w)"
  shows "wp (check_location E S x l) Q R w"
  using assms unfolding check_location_def wp_bnd wp_Get wp_andthen wp_stop_if wp_ret
  by (simp add: location_reply_def accepts_def)

lemma capacity_admits:
  assumes loc: "location_reply E S l = Inr loc" and ids: "pg_uuid E l = Some u" "pg_uuid E (st_WarehouseID x) = Some wid"
    and n: "0 < n" "is_i64 n" and row: "find_row cap_location u (cap_ensure u wid (capacities (db w))) = Some row"
    and same: "same_place c loc" "same_totals c row"
    and score: "snd (Score c (st_WarehouseID x) (st_StorageType x) (load (st_Weight x) n) (load (st_Volume x) n))"
    and unit: "valid_f64 (st_Weight x)" "valid_f64 (st_Volume x)"
    and t: "tables_ok P (db w)" and s: "supplied E w"
  shows "wp (capacity E S x l n) (\<lambda>_ w'. supplied E w') (\<lambda>_ _. False) w"
proof -
  note adm = eligible_admitted [OF score same]
  have "\<forall>c \<in> set (cap_ensure u wid (capacities (db w))). capacity_ok c"
    using t by (auto simp: tables_ok_def cap_ensure_def cap_zero_def capacity_ok_def nonneg_f64_def)
  then have ok: "capacity_ok row" using find_row_SomeD [OF row] by blast
  note lim = location_limits_valid [OF loc]
  have pos: "fle (Fin 0) (load (st_Weight x) n)" "fle (Fin 0) (load (st_Volume x) n)"
    using positive_load [OF unit(1) n(2) adm(4)] positive_load [OF unit(2) n(2) adm(5)] .
  obtain a where a: "ledger_add (cap_weight row) n (st_Weight x) = Fin a" "0 \<le> a"
    using sum_in_limit [OF _ pos(1), of "cap_weight row" "lo_MaxWeight loc"] ok adm(2) lim(1)
    by (auto simp: capacity_ok_def ledger_add_load)
  obtain b where b: "ledger_add (cap_volume row) n (st_Volume x) = Fin b" "0 \<le> b"
    using sum_in_limit [OF _ pos(2), of "cap_volume row" "lo_MaxVolume loc"] ok adm(3) lim(2)
    by (auto simp: capacity_ok_def ledger_add_load)
  have v: "valid_f64 (Fin a)" "valid_f64 (Fin b)" using ledger_add_valid a(1) b(1) by blast+
  have under: "\<not> flt (Fin y) under_tolerance" if "0 \<le> y" for y
  proof -
    have "fle under_tolerance (Fin 0)" unfolding under_tolerance_def by (rule rne_le) simp_all
    from fle_FinD [OF this] show ?thesis
    proof
      assume "\<exists>x. under_tolerance = Fin x \<and> x \<le> 0"
      then obtain x where x: "under_tolerance = Fin x" "x \<le> 0" by blast
      have "\<not> flt (Fin y) (Fin x)" using x(2) that by simp
      then show ?thesis unfolding x(1) .
    next
      assume "under_tolerance = NInf"
      then show ?thesis by (simp only: flt.simps simp_thms)
    qed
  qed
  have fits: "\<not> fgt (Fin a) (fadd (lo_MaxWeight loc) over_tolerance)" "\<not> fgt (Fin b) (fadd (lo_MaxVolume loc) over_tolerance)"
    using adm(2,3) a(1) b(1) by (simp_all add: fits_limit_def)
  let ?w1 = "set_capacities (cap_ensure u wid (capacities (db w))) (after_correlation E w)"
  have emit: "wp (Emit E ''LocationCapacityChanged'' [(''locationId'', GStr l), (''warehouseId'', GStr (st_WarehouseID x)),
      (''currentWeight'', GF64 (Fin a)), (''currentVolume'', GF64 (Fin b)), (''revision'', GI64 (i64 (cap_revision row + 1)))])
      (\<lambda>_ w'. supplied E w') (\<lambda>_ _. False) (set_capacities rows ?w1)" for rows
    by (rule Emit_keeps_supply) (use v supplied_after(1) [OF s] in \<open>simp_all add: supplied_def\<close>)
  show ?thesis
    unfolding capacity_def if_P [OF n(1)] wp_bnd [of "check_location E S x l"]
  proof (rule wp_check_accepted [OF loc adm(1)])
    show "wp (andthen (insert_capacity E l (st_WarehouseID x)) (bnd (select_capacity E l) (\<lambda>row.
        let weight = ledger_add (cap_weight row) n (st_Weight x); volume = ledger_add (cap_volume row) n (st_Volume x)
        in andthen (stop_if (0 < n \<and> (fgt weight (fadd (lo_MaxWeight loc) over_tolerance)
                   \<or> fgt volume (fadd (lo_MaxVolume loc) over_tolerance))) (Fail ''LOCATION_FULL'' ''Location capacity exceeded''))
          (andthen (stop_if (flt weight under_tolerance \<or> flt volume under_tolerance) (Internal ''capacity invariant violated''))
          (let weight' = fmax (Fin 0) weight; volume' = fmax (Fin 0) volume; rev' = i64 (cap_revision row + 1)
           in andthen (update_capacity E l weight' volume' rev')
             (Emit E ''LocationCapacityChanged'' [(''locationId'', GStr l), (''warehouseId'', GStr (st_WarehouseID x)),
               (''currentWeight'', GF64 weight'), (''currentVolume'', GF64 volume'), (''revision'', GI64 rev')]))))))
      (\<lambda>_ w'. supplied E w') (\<lambda>_ _. False) (after_correlation E w)"
      unfolding insert_capacity_def select_capacity_def update_capacity_def wp_andthen wp_bnd wp_sql_uuid wp_modify
        wp_gets wp_of_option wp_Let wp_stop_if
      using ids row a b fits under emit by (simp add: fmax_zero_fin max_absorb2)
  qed
qed

text \<open>Both effects of a placement that goes through.\<close>

lemma place_admits:
  assumes inv: "inv_with (pg_uuid E) [] (db w)"
    and lot: "pg_uuid E (p_String p ''stockId'') = Some (st_ID r)" "find_row st_ID (st_ID r) (stocks (db w)) = Some r"
      "st_WarehouseID r = p_String p ''warehouseId''" "st_LocationID r = None" "st_Quantity r \<noteq> 0"
    and loc: "uuid_ok E (p_String p ''locationId'')" "pg_uuid E (p_String p ''locationId'') = Some u"
      "location_reply E S (p_String p ''locationId'') = Inr loc" "same_place c loc"
    and row: "find_row cap_location u (cap_ensure u (st_WarehouseID r) (capacities (db w))) = Some row" "same_totals c row"
    and score: "snd (Score c (st_WarehouseID r) (st_StorageType r) (load (st_Weight r) (st_Quantity r))
        (load (st_Volume r) (st_Quantity r)))"
    and s: "supplied E w"
  shows "wp (place E S p) (\<lambda>_ w'. True) (\<lambda>_ _. False) w"
proof -
  have r: "stock_ok r" "canonical (pg_uuid E) r"
    using good_lots_find [OF good_lots_inv [OF inv] lot(2)] by simp_all
  have ids: "pg_uuid E (st_ID r) = Some (st_ID r)" "pg_uuid E (st_WarehouseID r) = Some (st_WarehouseID r)"
    using r(2) by (simp_all add: canonical_def)
  have q: "0 < st_Quantity r" "is_i64 (st_Quantity r)" "valid_f64 (st_Weight r)" "valid_f64 (st_Volume r)"
    using r(1) lot(5) by (auto simp: stock_ok_def stock_check_def)
  have t: "tables_ok (pg_uuid E) (db w)" using inv by (simp add: inv_with_def)
  let ?l = "p_String p ''locationId''" and ?x = "Stock.truncate r"
  have cap: "wp (capacity E S ?x ?l (st_Quantity r)) (\<lambda>_ w'. supplied E w' \<and> stocks (db w') = stocks (db w)) (\<lambda>_ _. False) w"
  proof (rule wp_both)
    show "wp (capacity E S ?x ?l (st_Quantity r)) (\<lambda>_ w'. stocks (db w') = stocks (db w)) anyerr w"
      using leadsD [OF keeps_lots_capacity [of "stocks (db w)"]] by blast
    show "wp (capacity E S ?x ?l (st_Quantity r)) (\<lambda>_ w'. supplied E w') (\<lambda>_ _. False) w"
      by (rule capacity_admits [OF loc(3,2) _ q(1,2) row(1) loc(4) row(2) _ _ _ t s])
        (use ids score q in simp_all)
  qed simp
  have rest: "wp (bnd (sql_uuid E ?l) (\<lambda>l. andthen (update_stock E (st_ID ?x) (set_location l)) (Emit E ''StockAdded''
        [(''stockId'', GStr (st_ID ?x)), (''productId'', GStr (st_ProductID ?x)), (''warehouseId'', GStr (st_WarehouseID ?x)),
         (''locationId'', GStr ?l), (''quantity'', GI64 (st_Quantity ?x))]))) (\<lambda>_ _. True) (\<lambda>_ _. False) v"
    if v: "supplied E v" "stocks (db v) = stocks (db w)" for v
  proof -
    have "wp (Emit E ''StockAdded''
        [(''stockId'', GStr (st_ID ?x)), (''productId'', GStr (st_ProductID ?x)), (''warehouseId'', GStr (st_WarehouseID ?x)),
         (''locationId'', GStr ?l), (''quantity'', GI64 (st_Quantity ?x))]) (\<lambda>_ _. True) (\<lambda>_ _. False) (set_stocks rows v)" for rows
      by (rule wp_mono [OF Emit_keeps_supply]) (use v q(2) in simp_all)
    moreover have "stock_check (r\<lparr>st_LocationID := Some u\<rparr>)" using r(1) by (simp add: stock_ok_def stock_check_def)
    ultimately show ?thesis
      using loc(2) ids(1) lot(2) v(2)
      unfolding wp_bnd [of "sql_uuid E ?l"] wp_sql_uuid wp_andthen update_stock_def wp_bnd wp_gets wp_case_option wp_stop_if wp_modify
      by (simp add: set_location_def)
  qed
  let ?rest = "andthen (ID E ?l) (andthen (capacity E S ?x ?l (st_Quantity ?x)) (bnd (sql_uuid E ?l) (\<lambda>l.
      andthen (update_stock E (st_ID ?x) (set_location l)) (Emit E ''StockAdded''
        [(''stockId'', GStr (st_ID ?x)), (''productId'', GStr (st_ProductID ?x)), (''warehouseId'', GStr (st_WarehouseID ?x)),
         (''locationId'', GStr ?l), (''quantity'', GI64 (st_Quantity ?x))]))))"
  have "wp (ID E ?l) Q R w = Q () w" for Q and R :: "err \<Rightarrow> idb world \<Rightarrow> bool" using loc(1) by (simp add: ID_def wp_stop_if)
  then have "wp ?rest (\<lambda>_ _. True) (\<lambda>_ _. False) w"
    unfolding wp_andthen [of "ID E ?l"] wp_andthen [of "capacity E S ?x ?l (st_Quantity ?x)"]
    using wp_mono [OF cap, of "\<lambda>_ t. wp (bnd (sql_uuid E ?l) (\<lambda>l. andthen (update_stock E (st_ID ?x) (set_location l))
      (Emit E ''StockAdded'' [(''stockId'', GStr (st_ID ?x)), (''productId'', GStr (st_ProductID ?x)),
        (''warehouseId'', GStr (st_WarehouseID ?x)), (''locationId'', GStr ?l), (''quantity'', GI64 (st_Quantity ?x))])))
      (\<lambda>_ _. True) (\<lambda>_ _. False) t" "\<lambda>_ _. False"] rest by simp
  moreover have "place E S p w = ?rest w"
  proof -
    have "stock E (p_String p ''stockId'') w = (Inr ?x, w)"
      using lot(1,2) by (simp add: stock_def sql_uuid_def bnd_def of_option_def gets_def ret_def)
    then show ?thesis using lot(3-5)
      by (simp add: place_def Let_def bnd_def [of "stock E i" for i] andthen_def [of "ret ()"] stop_if_def bnd_ret)
  qed
  ultimately show ?thesis by (simp add: wp_def)
qed

text \<open>A warehouse spelled otherwise than the lot's is refused before anything is written.\<close>

lemma place_wrong_warehouse:
  assumes "pg_uuid E (p_String p ''stockId'') = Some (st_ID r)" "find_row st_ID (st_ID r) (stocks (db w)) = Some r"
    and "st_WarehouseID r \<noteq> p_String p ''warehouseId''"
  shows "place E S p w = (Inl (Fail ''WRONG_WAREHOUSE'' ''Placement warehouse mismatch''), w)"
  using assms by (simp add: place_def stock_def sql_uuid_def bnd_def of_option_def gets_def ret_def
      andthen_def stop_if_def throw_def Stock.truncate_def)

end
