(* ===== verification/Routing.thy ===== *)
theory Routing
  imports Inventory_System Placement_System Audit_Service
begin

text \<open>
  The HTTP surface: the \<open>Routes\<close> methods of the three services as tables of patterns, the way
  \<open>http.ServeMux\<close> resolves a request against them, and the addresses \<open>New\<close> reads from the
  environment. No request matches two patterns, so that the registration does not panic and its
  order does not matter, and every request a service serves is one of its steps.
\<close>

section \<open>Requests and patterns\<close>

datatype segment = Literal string | Wildcard string

text \<open>A request with a clean path, its segments decoded; absent query values and headers are empty.\<close>

record request =
  hr_method :: string
  hr_path :: "string list"
  hr_query :: "string \<Rightarrow> string"
  hr_header :: "string \<Rightarrow> string"
  hr_body :: http_body

fun match_path :: "segment list \<Rightarrow> string list \<Rightarrow> (string \<times> string) list option" where
  "match_path [] [] = Some []"
| "match_path (Literal s # pat) (x # xs) = (if x = s then match_path pat xs else None)"
| "match_path (Wildcard n # pat) (x # xs) =
     (if x = [] then None else map_option ((#) (n, x)) (match_path pat xs))"
| "match_path _ _ = None"

definition PathValue :: "(string \<times> string) list \<Rightarrow> string \<Rightarrow> string" where
  "PathValue values name = (case map_of values name of Some v \<Rightarrow> v | None \<Rightarrow> [])"

text \<open>A pattern for \<open>GET\<close> also serves \<open>HEAD\<close>.\<close>

definition method_serves :: "string \<Rightarrow> string \<Rightarrow> bool" where
  "method_serves pattern method = (method = pattern \<or> pattern = ''GET'' \<and> method = ''HEAD'')"

type_synonym 'd route = "string \<times> segment list \<times> ((string \<Rightarrow> string) \<Rightarrow> request \<Rightarrow> env \<Rightarrow> ('d, gov) wprog)"

datatype 'r answer = Answer 'r | Not_found | Method_not_allowed

definition path_routes :: "'d route list \<Rightarrow> request \<Rightarrow> 'd route list" where
  "path_routes routes q = filter (\<lambda>(m, pat, h). match_path pat (hr_path q) \<noteq> None) routes"

definition serving :: "'d route list \<Rightarrow> request \<Rightarrow> 'd route list" where
  "serving routes q = filter (\<lambda>(m, pat, h). method_serves m (hr_method q)) (path_routes routes q)"

definition serve ::
  "env \<Rightarrow> 'd route list \<Rightarrow> request \<Rightarrow> 'd world \<Rightarrow> http_response answer \<times> 'd world" where
  "serve E routes q w =
     (case serving routes q of
        (m, pat, h) # _ \<Rightarrow>
          (case Wrap E (hr_header q ''X-Correlation-ID'') (h (PathValue (the (match_path pat (hr_path q)))) q) w of
             (r, w') \<Rightarrow> (Answer r, w'))
      | [] \<Rightarrow> (case path_routes routes q of [] \<Rightarrow> (Not_found, w) | _ \<Rightarrow> (Method_not_allowed, w)))"

section \<open>The tables\<close>

text \<open>
  \<open>Runtime.Mux\<close>: the health check, told which of its pings succeed. The handler of \<open>/metrics\<close> is
  the Prometheus library's.
\<close>

definition mux_routes :: "bool \<Rightarrow> bool \<Rightarrow> bool \<Rightarrow> 'd route list" where
  "mux_routes db_up redis_up kafka_up =
     [(''GET'', [Literal ''health''], \<lambda>_ _ _. of_sum (health db_up redis_up kafka_up))]"

definition list_route :: "segment list \<Rightarrow> idb route" where
  "list_route pat = (''GET'', pat, \<lambda>v q. list_endpoint (v ''product'') (v ''warehouse'')
     (hr_query q ''productId'') (hr_query q ''warehouseId''))"

definition inventory_routes :: "service \<Rightarrow> idb route list" where
  "inventory_routes S =
     [list_route [Literal ''inventory''],
      list_route [Literal ''inventory'', Literal ''products'', Wildcard ''product''],
      list_route [Literal ''inventory'', Literal ''warehouses'', Wildcard ''warehouse''],
      (''GET'', [Literal ''inventory'', Literal ''lots'', Wildcard ''id''], \<lambda>v q. lot_endpoint (v ''id'')),
      (''POST'', [Literal ''inventory'', Literal ''receive''],
       \<lambda>v q. receive_endpoint S (hr_header q ''Idempotency-Key'') (hr_body q))]
     @ map (\<lambda>action. (''POST'', [Literal ''inventory'', Literal action],
         \<lambda>v q. change_endpoint S action (hr_header q ''Idempotency-Key'') (hr_body q))) change_actions"

definition placement_routes :: "(job_row list \<Rightarrow> job_row list) \<Rightarrow> pldb route list" where
  "placement_routes scan =
     [(''GET'', [Literal ''placements''], \<lambda>v q. placements_endpoint scan),
      (''GET'', [Literal ''placements'', Wildcard ''id''], \<lambda>v q. placement_endpoint (v ''id''))]"

definition audit_route :: "audit_env \<Rightarrow> segment list \<Rightarrow> adb route" where
  "audit_route A pat = (''GET'', pat, \<lambda>v q. audit_list A (v ''product'') (v ''warehouse'')
     (hr_query q ''eventType'') (hr_query q ''limit'') (hr_query q ''offset''))"

definition audit_routes :: "audit_env \<Rightarrow> adb route list" where
  "audit_routes A =
     [audit_route A [Literal ''audit'', Literal ''events''],
      audit_route A [Literal ''audit'', Literal ''products'', Wildcard ''product''],
      audit_route A [Literal ''audit'', Literal ''warehouses'', Wildcard ''warehouse''],
      (''GET'', [Literal ''audit'', Literal ''events'', Wildcard ''id''], \<lambda>v q. audit_get (v ''id''))]"

text \<open>\<open>New\<close>: where the peers are.\<close>

definition New_inventory :: "(string \<Rightarrow> string) \<Rightarrow> service" where
  "New_inventory getenv =
     \<lparr>WarehouseURL = Env getenv ''WAREHOUSE_URL'' ''http://warehouse-service:8080'',
      ProductURL = Env getenv ''PRODUCT_URL'' ''http://product-service:8080''\<rparr>"

definition New_placement :: "(string \<Rightarrow> string) \<Rightarrow> peers" where
  "New_placement getenv =
     \<lparr>PWarehouseURL = Env getenv ''WAREHOUSE_URL'' ''http://warehouse-service:8080'',
      InventoryURL = Env getenv ''INVENTORY_URL'' ''http://inventory-service:8080''\<rparr>"

section \<open>One pattern for a request\<close>

lemma path_cases:
  obtains "p = []" | a where "p = [a]" | a b where "p = [a, b]" | a b c where "p = [a, b, c]"
    | a b c d r where "p = a # b # c # d # r"
  by (metis list.exhaust)

lemmas route_defs = mux_routes_def inventory_routes_def list_route_def change_actions_def
  placement_routes_def audit_routes_def audit_route_def

lemma inventory_unambiguous: "length (path_routes (mux_routes a b c @ inventory_routes S) q) \<le> 1"
  by (rule path_cases [of "hr_path q"]) (simp_all add: path_routes_def route_defs)

lemma placement_unambiguous: "length (path_routes (mux_routes a b c @ placement_routes scan) q) \<le> 1"
  by (rule path_cases [of "hr_path q"]) (simp_all add: path_routes_def route_defs)

lemma audit_unambiguous: "length (path_routes (mux_routes a b c @ audit_routes A) q) \<le> 1"
  by (rule path_cases [of "hr_path q"]) (simp_all add: path_routes_def route_defs)

section \<open>Requests are steps\<close>

lemma serve_cases:
  assumes "\<And>m pat h v. (m, pat, h) \<in> set routes \<Longrightarrow> K (snd (Wrap E (hr_header q ''X-Correlation-ID'') (h v q) w))" "K w"
  shows "K (snd (serve E routes q w))"
proof (cases "serving routes q")
  case Nil
  then show ?thesis using assms(2) by (simp add: serve_def split: list.split)
next
  case (Cons x xs)
  then have "x \<in> set (serving routes q)" by simp
  then have "x \<in> set routes" by (auto simp: serving_def path_routes_def)
  with Cons show ?thesis using assms(1) by (cases x) (simp add: serve_def split: prod.split, metis snd_conv)
qed

lemma health_reads: "db (snd (Wrap E header (\<lambda>_. of_sum r) w)) = db w"
  by (auto simp: Wrap_def request_correlation_def NewString_def of_sum_def ret_def throw_def bnd_def gets_def andthen_def
      modify_def split: prod.splits sum.splits if_splits)

lemma inventory_serves:
  assumes "pg_uuid E = P"
  shows "db (snd (serve E (mux_routes a b c @ inventory_routes S) q w)) = db w
    \<or> inventory_step P S w (snd (serve E (mux_routes a b c @ inventory_routes S) q w))"
  by (rule serve_cases [where K = "\<lambda>w'. db w' = db w \<or> inventory_step P S w w'"])
    (auto simp: route_defs health_reads intro: inventory_step.intros assms)

lemma placement_serves:
  "db (snd (serve E (mux_routes a b c @ placement_routes scan) q w)) = db w
    \<or> placement_step P S w (snd (serve E (mux_routes a b c @ placement_routes scan) q w))"
  by (rule serve_cases [where K = "\<lambda>w'. db w' = db w \<or> placement_step P S w w'"])
    (auto simp: route_defs health_reads intro: placement_step.intros)

lemma audit_serves:
  "db (snd (serve E (mux_routes a b c @ audit_routes A) q w)) = db w
    \<or> audit_step P N w (snd (serve E (mux_routes a b c @ audit_routes A) q w))"
  by (rule serve_cases [where K = "\<lambda>w'. db w' = db w \<or> audit_step P N w w'"])
    (auto simp: route_defs health_reads intro: audit_step.intros)

end
