(* ===== verification/Announcements.thy ===== *)
theory Announcements
  imports Putaway Routing
begin

text \<open>
  What the inventory service tells is true, and stays true: on every run, each row of its outbox
  that announces a received or a placed lot speaks of a lot of its table, a placed one of a lot
  that has a location. Lots are never deleted, change neither id nor warehouse and never lose
  their location. This is the contract the other services rely on.
\<close>

section \<open>Lots and announcements\<close>

definition stays :: "stock_row \<Rightarrow> stock_row \<Rightarrow> bool" where
  "stays r r' = (st_ID r' = st_ID r \<and> st_WarehouseID r' = st_WarehouseID r
     \<and> (st_LocationID r \<noteq> None \<longrightarrow> st_LocationID r' \<noteq> None))"

definition lasting :: "stock_row list \<Rightarrow> stock_row list \<Rightarrow> bool" where
  "lasting ss ss' = (\<forall>r \<in> set ss. \<exists>r' \<in> set ss'. stays r r')"

definition speaks_of :: "(string \<Rightarrow> string option) \<Rightarrow> gobj \<Rightarrow> stock_row \<Rightarrow> bool" where
  "speaks_of P p r = (P (p_String p ''stockId'') = Some (st_ID r) \<and> P (p_String p ''warehouseId'') = Some (st_WarehouseID r))"

definition lot_told :: "(string \<Rightarrow> string option) \<Rightarrow> stock_row list \<Rightarrow> outbox_row \<Rightarrow> bool" where
  "lot_told P ss row = (ev_type (ob_body row) \<in> {''GoodsReceived'', ''StockAdded''} \<longrightarrow>
     (\<exists>p. \<exists>r \<in> set ss. marshal (GObj p) = Some (ev_payload (ob_body row)) \<and> wf_gov (GObj p) \<and> speaks_of P p r
        \<and> (ev_type (ob_body row) = ''StockAdded'' \<longrightarrow> st_LocationID r \<noteq> None)))"

definition told :: "(string \<Rightarrow> string option) \<Rightarrow> stock_row list \<Rightarrow> idb \<Rightarrow> bool" where
  "told P ss d = (distinct (map st_ID (stocks d)) \<and> lasting ss (stocks d) \<and> (\<forall>row \<in> set (outbox d). lot_told P (stocks d) row))"

lemma stays_refl [simp]: "stays r r"
  by (simp add: stays_def)

lemma stays_updated [simp]: "stays r (r'\<lparr>st_updated := t\<rparr>) = stays r r'"
  by (simp add: stays_def)

lemma stays_trans: "stays a b \<Longrightarrow> stays b c \<Longrightarrow> stays a c"
  by (auto simp: stays_def)

lemma lasting_refl [simp]: "lasting ss ss"
  by (auto simp: lasting_def intro: stays_refl)

lemma lasting_trans: "lasting a b \<Longrightarrow> lasting b c \<Longrightarrow> lasting a c"
  unfolding lasting_def by (blast intro: stays_trans)

lemma lasting_append: "lasting ss (ss @ rs)"
  by (auto simp: lasting_def intro: stays_refl)

lemma lasting_map: "(\<And>r. r \<in> set ss \<Longrightarrow> stays r (f r)) \<Longrightarrow> lasting ss (map f ss)"
  by (auto simp: lasting_def)

lemma lasting_put:
  assumes "distinct (map st_ID ss)" "find_row st_ID u ss = Some r" "stays r r'"
  shows "lasting ss (update_rows st_ID u (\<lambda>_. r') ss)"
proof -
  have "x = r" if "x \<in> set ss" "st_ID x = u" for x
    using find_row_distinct [OF assms(1) that(1)] that(2) assms(2) by simp
  then show ?thesis unfolding update_rows_def by (intro lasting_map) (use assms(3) in auto)
qed

lemma lot_told_lasting:
  assumes "lot_told P ss row" "lasting ss ss'"
  shows "lot_told P ss' row"
  unfolding lot_told_def
proof
  assume "ev_type (ob_body row) \<in> {''GoodsReceived'', ''StockAdded''}"
  with assms(1) obtain p r where p: "r \<in> set ss" "marshal (GObj p) = Some (ev_payload (ob_body row))" "wf_gov (GObj p)"
    "speaks_of P p r" "ev_type (ob_body row) = ''StockAdded'' \<longrightarrow> st_LocationID r \<noteq> None"
    unfolding lot_told_def by blast
  obtain r' where "r' \<in> set ss'" "stays r r'" using assms(2) p(1) by (auto simp: lasting_def)
  with p show "\<exists>p. \<exists>r \<in> set ss'. marshal (GObj p) = Some (ev_payload (ob_body row)) \<and> wf_gov (GObj p) \<and> speaks_of P p r
      \<and> (ev_type (ob_body row) = ''StockAdded'' \<longrightarrow> st_LocationID r \<noteq> None)"
    by (intro exI [of _ p] bexI [of _ r']) (auto simp: speaks_of_def stays_def)
qed

lemma told_stocks:
  assumes "told P ss d" "lasting (stocks d) ss'" "distinct (map st_ID ss')"
  shows "told P ss (d\<lparr>stocks := ss'\<rparr>)"
  using assms by (auto simp: told_def intro: lasting_trans lot_told_lasting)

lemma told_append:
  assumes "told P ss d" "lot_told P (stocks d) row"
  shows "told P ss (d\<lparr>outbox := outbox d @ [row]\<rparr>)"
  using assms by (auto simp: told_def)

lemma told_free [simp]:
  "told P ss (d\<lparr>capacities := a\<rparr>) = told P ss d" "told P ss (d\<lparr>reservations := b\<rparr>) = told P ss d"
  "told P ss (d\<lparr>allocations := c\<rparr>) = told P ss d" "told P ss (d\<lparr>processed := e\<rparr>) = told P ss d"
  "told P ss (d\<lparr>commands := f\<rparr>) = told P ss d"
  by (simp_all add: told_def)

section \<open>Statements\<close>

abbreviation telling :: "(string \<Rightarrow> string option) \<Rightarrow> stock_row list \<Rightarrow> idb world \<Rightarrow> bool" where
  "telling P ss w \<equiv> told P ss (db w)"

interpretation told: capacity_frame "told P ss" for P ss
  by unfold_locales (auto intro: told_append simp: lot_told_def)

interpretation told_at: capacity_frame "\<lambda>d. told P ss d \<and> stocks d = rows" for P ss rows
  by unfold_locales (auto intro: told_append simp: lot_told_def)

lemma told_Emit:
  assumes "k \<noteq> ''GoodsReceived'' \<and> k \<noteq> ''StockAdded''"
  shows "keeps (telling P ss) (Emit E k p)"
  by (rule leadsI, rule wp_EmitI) (use assms in \<open>auto simp: emitted_def lot_told_def intro!: told_append\<close>)

lemma told_statements:
  "keeps (telling P ss) (stock E i)" "keeps (telling P ss) (select_reservation E i)"
  "keeps (telling P ss) (insert_reservation E i u s n)" "keeps (telling P ss) (insert_reservation_if_absent E i u s n)"
  "keeps (telling P ss) (update_reservation E i f)" "keeps (telling P ss) (insert_allocation E i l n)"
  "keeps (telling P ss) (select_release_items E i)" "keeps (telling P ss) (select_allocations E i)"
  "keeps (telling P ss) (select_lots E u v)"
  by (simp_all add: leads_def wp_simps stock_def select_reservation_def insert_reservation_def
      insert_reservation_if_absent_def update_reservation_def insert_allocation_def
      select_release_items_def select_allocations_def select_lots_def)

lemma told_receive_expiry: "keeps (telling P ss) (receive_expiry E s)"
  unfolding receive_expiry_def by (rule keeps_rules keeps_world [where J = "told P ss"])+

lemma told_insert_stock: "keeps (telling P ss) (insert_stock E x)"
  by (auto simp: leads_def wp_simps insert_stock_def sql_uuid_option_def Let_def
      find_row_None_iff told_def stored_row_def
      intro: lasting_trans lasting_append lot_told_lasting split: option.split)

lemma told_update_stock:
  assumes "\<And>r r'. f r = Some r' \<Longrightarrow> stays r r'"
  shows "keeps (telling P ss) (update_stock E i f)"
proof (rule leadsI)
  fix w :: "idb world" assume w: "telling P ss w"
  have "telling P ss (set_stocks (update_rows st_ID u (\<lambda>_. r'\<lparr>st_updated := pg_now E\<rparr>) (stocks (db w))) w)"
    if "find_row st_ID u (stocks (db w)) = Some r" "f r = Some r'" for u r r'
  proof -
    let ?r = "r'\<lparr>st_updated := pg_now E\<rparr>"
    have d: "distinct (map st_ID (stocks (db w)))" using w by (simp add: told_def)
    have s: "stays r ?r" using assms [OF that(2)] by simp
    then have "map st_ID (update_rows st_ID u (\<lambda>_. ?r) (stocks (db w))) = map st_ID (stocks (db w))"
      using find_row_SomeD [OF that(1)] by (auto simp: update_rows_def stays_def)
    with told_stocks [OF w lasting_put [OF d that(1) s]] d show ?thesis by simp
  qed
  then show "wp (update_stock E i f) (\<lambda>_. telling P ss) anyerr w"
    using w by (auto simp: update_stock_def wp_simps split: option.split)
qed

lemma stays_updates:
  "add_quantity n r = Some r' \<Longrightarrow> stays r r'" "set_quantity n r = Some r' \<Longrightarrow> stays r r'"
  "add_reserved n r = Some r' \<Longrightarrow> stays r r'" "set_location l r = Some r' \<Longrightarrow> stays r r'"
  "deduct n r = Some r' \<Longrightarrow> stays r r'"
  by (auto simp: stays_def add_quantity_def set_quantity_def add_reserved_def set_location_def deduct_def
      split: option.splits)

lemma told_unreserve_all: "keeps (telling P ss) (unreserve_all E i)"
proof (rule leadsI)
  fix w :: "idb world" assume w: "telling P ss w"
  have s: "stays r (unreserve_row E als r)" for als r
    by (simp add: stays_def unreserve_row_def split: option.split)
  then have "telling P ss (set_stocks (map (unreserve_row E als) (stocks (db w))) w)" for als
    using told_stocks [OF w lasting_map, of "unreserve_row E als"] w
    by (auto simp: told_def comp_def stays_def)
  then show "wp (unreserve_all E i) (\<lambda>_. telling P ss) anyerr w"
    by (simp add: unreserve_all_def wp_simps Let_def)
qed

lemma told_updates:
  "keeps (telling P ss) (update_stock E i (add_quantity n))" "keeps (telling P ss) (update_stock E i (set_quantity n))"
  "keeps (telling P ss) (update_stock E i (add_reserved n))" "keeps (telling P ss) (update_stock E i (set_location l))"
  "keeps (telling P ss) (update_stock E i (deduct n))"
  by (rule told_update_stock, erule stays_updates)+

lemmas told_rules = keeps_rules keeps_world [where J = "told P ss" for P ss] told.keeps_capacity told_statements
  told_receive_expiry told_insert_stock told_updates told_unreserve_all

section \<open>Operations\<close>

text \<open>The two announcements: the lot is in the table, or lies at its location, before they are written.\<close>

lemma told_announced:
  assumes "wf_gov (GObj p)"
  shows "leads (\<lambda>w. telling P ss w \<and> (\<exists>r \<in> set (stocks (db w)). speaks_of P p r \<and> (k = ''StockAdded'' \<longrightarrow> st_LocationID r \<noteq> None)))
    (Emit E k p) (\<lambda>_. telling P ss)"
proof (rule leadsI, rule wp_EmitI)
  fix w w'
  assume w: "telling P ss w \<and> (\<exists>r \<in> set (stocks (db w)). speaks_of P p r \<and> (k = ''StockAdded'' \<longrightarrow> st_LocationID r \<noteq> None))"
    and e: "emitted E k p w w'"
  then obtain row where row: "db w' = (db w)\<lparr>outbox := outbox (db w) @ [row]\<rparr>" "ev_type (ob_body row) = k"
    "marshal (GObj p) = Some (ev_payload (ob_body row))"
    unfolding emitted_def by blast
  have "lot_told P (stocks (db w)) row"
    unfolding lot_told_def row(2) using w row(3) assms by blast
  then show "telling P ss w'" using told_append [of P ss "db w" row] w by (simp add: row(1))
qed simp

lemma told_receipt:
  assumes "pg_uuid E = P" "wf_gov (GObj p)" "p_String p ''stockId'' = st_ID x" "p_String p ''warehouseId'' = st_WarehouseID x"
  shows "keeps (telling P ss) (andthen (insert_stock E x) (andthen (Emit E ''GoodsReceived'' p) (ret v)))"
proof (rule leads_andthen)
  show "leads (telling P ss) (insert_stock E x) (\<lambda>_ w. telling P ss w \<and> (\<exists>r \<in> set (stocks (db w)). speaks_of P p r))"
  proof (rule leads_both [OF told_insert_stock])
    show "leads (telling P ss) (insert_stock E x) (\<lambda>_ w. \<exists>r \<in> set (stocks (db w)). speaks_of P p r)"
      using assms by (auto simp: leads_def wp_simps insert_stock_def sql_uuid_option_def Let_def stored_row_def speaks_of_def
          split: option.split)
  qed
next
  show "leads (\<lambda>w. telling P ss w \<and> (\<exists>r \<in> set (stocks (db w)). speaks_of P p r))
     (andthen (Emit E ''GoodsReceived'' p) (ret v)) (\<lambda>_. telling P ss)"
    by (rule leads_andthen [OF leads_strengthen [OF told_announced [OF assms(2)]]]) (auto intro: keeps_ret)
qed

lemma told_placement:
  assumes "pg_uuid E = P" "P (st_ID x) = Some (st_ID x)" "P (st_WarehouseID x) = Some (st_WarehouseID x)" "is_i64 (st_Quantity x)"
    and "find_row st_ID (st_ID x) rows = Some r" "st_WarehouseID r = st_WarehouseID x"
  shows "leads (\<lambda>w. telling P ss w \<and> stocks (db w) = rows)
    (andthen (update_stock E (st_ID x) (set_location l)) (Emit E ''StockAdded''
      [(''stockId'', GStr (st_ID x)), (''productId'', GStr (st_ProductID x)), (''warehouseId'', GStr (st_WarehouseID x)),
       (''locationId'', GStr location), (''quantity'', GI64 (st_Quantity x))])) (\<lambda>_. telling P ss)"
proof (rule leads_andthen)
  let ?p = "[(''stockId'', GStr (st_ID x)), (''productId'', GStr (st_ProductID x)), (''warehouseId'', GStr (st_WarehouseID x)),
       (''locationId'', GStr location), (''quantity'', GI64 (st_Quantity x))]"
  let ?there = "\<lambda>w. \<exists>r \<in> set (stocks (db w)). speaks_of P ?p r \<and> st_LocationID r \<noteq> None"
  show "leads (\<lambda>w. telling P ss w \<and> stocks (db w) = rows) (update_stock E (st_ID x) (set_location l))
      (\<lambda>_ w. telling P ss w \<and> ?there w)"
  proof (rule leads_conj [OF told_updates(4)])
    have "\<exists>y \<in> set (update_rows st_ID (st_ID x) (\<lambda>_. r\<lparr>st_LocationID := Some l, st_updated := t\<rparr>) rows).
        speaks_of P ?p y \<and> st_LocationID y \<noteq> None" for t
      using find_row_SomeD [OF assms(5)] assms(2,3,6)
      by (intro bexI [of _ "r\<lparr>st_LocationID := Some l, st_updated := t\<rparr>"]) (auto simp: update_rows_def speaks_of_def p_String_def)
    then show "leads (\<lambda>w. stocks (db w) = rows) (update_stock E (st_ID x) (set_location l)) (\<lambda>_. ?there)"
      using assms(1,2,5) by (auto simp: leads_def wp_simps update_stock_def set_location_def)
  qed
  have "wf_gov (GObj ?p)" using assms(4) by simp
  then show "leads (\<lambda>w. telling P ss w \<and> ?there w) (Emit E ''StockAdded'' ?p) (\<lambda>_. telling P ss)"
    by (rule leads_strengthen [OF told_announced]) auto
qed

lemma told_Receive:
  assumes "pg_uuid E = P"
  shows "keeps (telling P ss) (Receive E S q)"
proof -
  have product: "keeps (telling P ss) (bnd (Get E (decode_struct False product_fields) zero_Product url) f)"
    if "\<And>p. valid_f64 (pr_Weight p) \<Longrightarrow> valid_f64 (pr_Volume p) \<Longrightarrow> keeps (telling P ss) (f p)" for url and f :: "Product \<Rightarrow> (idb, gov) wprog"
    using that product_reply_valid by (fastforce simp: leads_def wp_bnd wp_Get)
  show ?thesis unfolding Receive_def
    by (rule product leads_guard leads_Let keeps_andthen [OF keeps_world(4) [where J = "told P ss"]]
        keeps_andthen [OF keeps_world(5) [where J = "told P ss"]] keeps_bnd [OF keeps_world(2) [where J = "told P ss"]]
        keeps_bnd [OF keeps_world(7) [where J = "told P ss"]] keeps_bnd [OF told_receive_expiry]
        | (rule told_receipt [OF assms]; simp add: p_String_def is_i64_bounds; fail))+
qed

lemma told_adjust: "keeps (telling P ss) (adjust E S x q)"
  unfolding adjust_def by (rule told_rules told_Emit | (simp; fail))+

lemma told_change_target:
  "leads (telling P ss) (change_target E S action x q p)
     (\<lambda>y w. telling P ss w \<and> fst y \<noteq> ''GoodsReceived'' \<and> fst y \<noteq> ''StockAdded'')"
  unfolding change_target_def
  by (intro leads_if leads_guard leads_throw leads_ret keeps_andthen [OF keeps_world(5) [where J = "told P ss"]]
      keeps_andthen [OF told.keeps_capacity] keeps_andthen [OF told_insert_stock]
      keeps_bnd [OF keeps_world(2) [where J = "told P ss"]]) simp_all

lemma told_take_off: "keeps (telling P ss) (take_off E S action x q)"
proof -
  have step: "leads (\<lambda>w. telling P ss w \<and> fst y \<noteq> ''GoodsReceived'' \<and> fst y \<noteq> ''StockAdded'')
      (case y of (event, payload) \<Rightarrow> andthen (case st_LocationID x of
          Some l \<Rightarrow> capacity E S x l (i64 (- ch_Quantity q)) | None \<Rightarrow> ret ())
        (andthen (update_stock E (st_ID x) (add_quantity (- ch_Quantity q)))
          (andthen (Emit E event payload) (ret (GObj payload))))) (\<lambda>_. telling P ss)" for y
  proof (cases "fst y \<noteq> ''GoodsReceived'' \<and> fst y \<noteq> ''StockAdded''")
    case True
    then show ?thesis
      by (cases y) (simp only: prod.case fst_conv simp_thms, (rule told_rules told_Emit | simp; fail)+)
  qed (auto simp: leads_def)
  show ?thesis unfolding take_off_def
    by (rule leads_check, rule leads_bnd [OF told_change_target], rule step)
qed

lemma told_Change: "keeps (telling P ss) (Change E S action q)"
  unfolding Change_def by (rule told_rules told_adjust told_take_off)+

lemma told_ship_one: "keeps (telling P ss) (ship_one E S i n)"
  unfolding ship_one_def by (rule told_rules)+

lemma told_ship_all: "keeps (telling P ss) (ship_all E S als)"
proof (induction als)
  case (Cons a als)
  then show ?case by (cases a) (auto intro!: keeps_rules told_ship_one)
qed (simp add: keeps_ret)

lemma told_take_lots: "keeps (telling P ss) (take_lots E i lots n)"
proof (induction lots arbitrary: n)
  case (Cons a lots)
  then show ?case by (cases a) (simp only: take_lots.simps, (rule Cons.IH told_rules)+)
qed (simp add: keeps_ret)

lemma told_reserve_lines: "keeps (telling P ss) (reserve_lines E i u seen lines)"
proof (induction lines arbitrary: seen)
  case (Cons a lines)
  show ?case unfolding reserve_lines.simps by (rule Cons.IH told_rules told_take_lots)+
qed (simp add: keeps_ret)

lemma told_reserve: "keeps (telling P ss) (reserve E p)"
  unfolding reserve_def by (rule told_rules told_reserve_lines told_Emit | (simp; fail))+

lemma told_release: "keeps (telling P ss) (release E i expired)"
  unfolding release_def by (rule told_rules told_Emit | (simp; fail))+

lemma told_ship: "keeps (telling P ss) (ship E S p)"
  unfolding ship_def by (rule told_rules told_ship_all told_Emit | (simp; fail))+

lemma told_reject: "keeps (telling P ss) (reject E e f)"
  unfolding reject_def
  by (cases f) (simp_all only: err.case, (rule told_rules told_Emit | (simp add: rejection_kind_def; fail))+)

lemma told_place:
  assumes P: "pg_uuid E = P" and g: "good_lots P rows"
  shows "leads (\<lambda>w. telling P ss w \<and> stocks (db w) = rows) (place E S p) (\<lambda>_. telling P ss)"
proof -
  let ?I = "\<lambda>w. telling P ss w \<and> stocks (db w) = rows"
  have read: "leads ?I (bnd (stock E i) f) (\<lambda>_. telling P ss)"
    if at: "\<And>r. find_row st_ID (st_ID r) rows = Some r \<Longrightarrow> leads ?I (f (Stock.truncate r)) (\<lambda>_. telling P ss)"
    for i and f :: "Stock \<Rightarrow> (idb, unit) wprog"
  proof (rule leadsI)
    fix w :: "idb world" assume w: "?I w"
    have "wp (f (Stock.truncate r)) (\<lambda>_. telling P ss) anyerr w" if r: "find_row st_ID u (stocks (db w)) = Some r" for u r
      using leadsD [OF at [of r] w] r w find_row_SomeD [OF r] by simp
    then show "wp (bnd (stock E i) f) (\<lambda>_. telling P ss) anyerr w" by (auto simp: wp_bnd wp_stock)
  qed
  have skip: "leads ?I (ret ()) (\<lambda>_. telling P ss)" by (rule leads_ret) simp
  show ?thesis unfolding place_def Let_def
  proof (intro read leads_guard leads_if skip)
    fix r assume r: "find_row st_ID (st_ID r) rows = Some r"
    note facts = good_lots_find [OF g r]
    show "leads ?I (andthen (ID E (p_String p ''locationId''))
        (andthen (capacity E S (Stock.truncate r) (p_String p ''locationId'') (st_Quantity (Stock.truncate r)))
        (bnd (sql_uuid E (p_String p ''locationId'')) (\<lambda>l.
          andthen (update_stock E (st_ID (Stock.truncate r)) (set_location l))
          (Emit E ''StockAdded''
            [(''stockId'', GStr (st_ID (Stock.truncate r))), (''productId'', GStr (st_ProductID (Stock.truncate r))),
             (''warehouseId'', GStr (st_WarehouseID (Stock.truncate r))), (''locationId'', GStr (p_String p ''locationId'')),
             (''quantity'', GI64 (st_Quantity (Stock.truncate r)))]))))) (\<lambda>_. telling P ss)"
      by (intro keeps_andthen [OF keeps_world(5) [where J = "\<lambda>d. told P ss d \<and> stocks d = rows"]]
          keeps_andthen [OF told_at.keeps_capacity] leads_sql_uuid told_placement [OF P, where r = r])
        (use facts r in \<open>auto simp: canonical_def stock_ok_def truncate_fields\<close>)
  qed
qed

section \<open>Deliveries and the service as a whole\<close>

text \<open>Together with the tables' invariant, which tells the canonical form of the ids.\<close>

abbreviation sound :: "(string \<Rightarrow> string option) \<Rightarrow> stock_row list \<Rightarrow> idb \<Rightarrow> bool" where
  "sound P ss d \<equiv> inv_with P [] d \<and> told P ss d"

lemma sound_keeps:
  assumes "keeps (db_ok P []) m" "keeps (telling P ss) m"
  shows "keeps (\<lambda>w. sound P ss (db w)) m"
  by (rule leads_conj [OF assms])

lemma sound_place:
  assumes "pg_uuid E = P" "uuid_law P"
  shows "keeps (\<lambda>w. sound P ss (db w)) (place E S p)"
proof (rule leads_both)
  show "leads (\<lambda>w. sound P ss (db w)) (place E S p) (\<lambda>_. db_ok P [])"
    by (rule leads_strengthen [OF place_inv]) (use assms in auto)
  show "leads (\<lambda>w. sound P ss (db w)) (place E S p) (\<lambda>_. telling P ss)"
  proof (rule leadsI)
    fix w :: "idb world" assume w: "sound P ss (db w)"
    show "wp (place E S p) (\<lambda>_. telling P ss) anyerr w"
      by (rule leadsD [OF told_place [OF assms(1), where rows = "stocks (db w)"]])
        (use w in \<open>auto dest: good_lots_inv\<close>)
  qed
qed

lemma sound_Handle:
  assumes "pg_uuid E = P" "uuid_law P"
  shows "keeps (\<lambda>w. sound P ss (db w)) (Handle S E e)"
proof -
  note P = assms(1) [symmetric]
  have "keeps (\<lambda>w. sound P ss (db w)) (dispatch E S e)" unfolding dispatch_def
    by (intro leads_if sound_place [OF assms] sound_keeps [OF reserve_inv [OF P] told_reserve]
        sound_keeps [OF release_inv [OF P] told_release] sound_keeps [OF ship_inv [OF P] told_ship])
  then show ?thesis unfolding Handle_def
    by (intro leads_if keeps_ret keeps_andthen [OF keeps_world(4) [where J = "sound P ss"]]
        keeps_bnd [OF leads_Savepoint [where J = "sound P ss"]] leads_case_sum
        sound_keeps [OF reject_inv told_reject])
qed

interpretation told_published: publish_frame "told P ss" for P ss
proof
  fix d :: idb and i t assume "told P ss d"
  moreover have "lot_told P rows (row\<lparr>ob_published := t\<rparr>) = lot_told P rows row" for rows row
    by (simp add: lot_told_def)
  ultimately show "told P ss (d\<lparr>outbox := update_rows ob_id i (\<lambda>r. r\<lparr>ob_published := t\<rparr>) (outbox d)\<rparr>)"
    by (auto simp: told_def set_update_rows)
qed

interpretation told_inbox: inbox_frame "sound P ss" for P ss
  by unfold_locales simp

interpretation told_replies: reply_frame "sound P ss" for P ss
  by unfold_locales simp

interpretation telling: step_invariant "\<lambda>d. uuid_law P \<longrightarrow> sound P ss d" P S for P ss S
proof unfold_locales
  fix E :: env and w :: "idb world" and key req q a c ev x
  { assume P: "pg_uuid E = P" and w: "uuid_law P \<longrightarrow> sound P ss (db w)"
    note Q = P [symmetric]
    show "uuid_law P \<longrightarrow> sound P ss (db (snd (Command E key req (Receive E S q) w)))"
      using w told_replies.Command_keeps [OF sound_keeps [OF Receive_inv [OF Q] told_Receive [OF P]]] by blast
    show "uuid_law P \<longrightarrow> sound P ss (db (snd (Command E key req (Change E S a c) w)))"
      using w told_replies.Command_keeps [OF sound_keeps [OF Change_inv [OF Q] told_Change]] by blast
    show "uuid_law P \<longrightarrow> sound P ss (db (snd (Process E ev (Handle S) w)))"
      using w told_inbox.Process_keeps [where h = "Handle S", OF sound_Handle [OF P]] by blast
    show "uuid_law P \<longrightarrow> sound P ss (db (snd (expire_one E x w)))"
      using w expire_one_keeps [where J = "sound P ss", OF sound_keeps [OF release_inv [OF Q] told_release]] by blast }
  assume "uuid_law P \<longrightarrow> sound P ss (db w)"
  then show "uuid_law P \<longrightarrow> sound P ss (db (Outbox_tick E w))"
    using tables.Outbox_tick_keeps told_published.Outbox_tick_keeps by blast
qed

lemma told_empty: "told P [] empty_idb"
  by (simp add: told_def empty_idb_def lasting_def)

lemma reachable_told:
  assumes "uuid_law P" "inventory_reachable P S w"
  shows "told P [] (db w)"
  using telling.reachable_keeps [OF assms(2), of "[]"] empty_inv told_empty assms(1) by blast

text \<open>From any reachable state on, every lot stays.\<close>

lemma lots_stay:
  assumes "uuid_law P" "inventory_reachable P S w" "(inventory_step P S)\<^sup>*\<^sup>* w w'"
  shows "lasting (stocks (db w)) (stocks (db w'))"
proof -
  have "told P (stocks (db w)) (db w)"
    using reachable_told [OF assms(1,2)] by (simp add: told_def)
  then have "sound P (stocks (db w)) (db w')"
    using telling.run_keeps [OF assms(3), of "stocks (db w)"] reachable_inventory_ok [OF assms(1,2)] assms(1) by blast
  then show ?thesis by (simp add: told_def)
qed

lemmas step_lasting = lots_stay [OF _ _ r_into_rtranclp]

end
