(* ===== verification/Warehouse_System.thy ===== *)
theory Warehouse_System
  imports Announcements
begin

text \<open>
  The inventory and the placement service as one system: any interleaving of their steps, where the
  messages about received and placed lots that reach the placement service are those of the
  inventory's outbox, delayed, repeated and reordered at will, and where its worker reads lots
  through the inventory's own routes. The jobs stay true to the lots.
\<close>

section \<open>A request between services\<close>

text \<open>What \<open>Wrap\<close> and the multiplexer write and \<open>Get\<close> reads: the envelopes as a reply.\<close>

definition over_http :: "string \<Rightarrow> string \<Rightarrow> http_response answer \<Rightarrow> http_reply" where
  "over_http stamp trace a = (case a of
      Answer (DataEnvelope v) \<Rightarrow> Reply 200 (map_option (\<lambda>j. JObj [(''data'', j), (''timestamp'', JStr stamp)]) (marshal v))
    | Answer (ErrorEnvelope status code message) \<Rightarrow> Reply status (Some (JObj [(''code'', JStr code), (''details'', JObj []),
        (''message'', JStr message), (''timestamp'', JStr stamp), (''traceId'', JStr trace)]))
    | Not_found \<Rightarrow> Reply 404 None
    | Method_not_allowed \<Rightarrow> Reply 405 None)"

definition lot_request :: "string \<Rightarrow> string \<Rightarrow> request" where
  "lot_request correlation i = \<lparr>hr_method = ''GET'', hr_path = [''inventory'', ''lots'', i], hr_query = (\<lambda>_. []),
     hr_header = (\<lambda>n. if n = ''X-Correlation-ID'' then correlation else []), hr_body = BadBody []\<rparr>"

text \<open>The worker's request for a lot fails or is served by the inventory service as it is now.\<close>

definition reads_lot :: "(string \<Rightarrow> string option) \<Rightarrow> service \<Rightarrow> idb world \<Rightarrow> string \<Rightarrow> http_reply \<Rightarrow> bool" where
  "reads_lot P S w i reply = ((\<exists>e. reply = NoReply e) \<or> (\<exists>E correlation a b c stamp trace. pg_uuid E = P
     \<and> reply = over_http stamp trace (fst (serve E (mux_routes a b c @ inventory_routes S) (lot_request correlation i) w))))"

lemma serve_lot:
  assumes "i \<noteq> []"
  shows "\<exists>c w'. fst (serve E (mux_routes a b k @ inventory_routes S) (lot_request correlation i) w) =
      Answer (respond (fst (lot_endpoint i (E\<lparr>ctx_corr := Some c\<rparr>) w'))) \<and> db w' = db w"
proof -
  let ?q = "lot_request correlation i"
  have s: "serving (mux_routes a b k @ inventory_routes S) ?q =
      [(''GET'', [Literal ''inventory'', Literal ''lots'', Wildcard ''id''], \<lambda>v q. lot_endpoint (v ''id''))]"
    using assms by (simp add: serving_def path_routes_def route_defs lot_request_def method_serves_def)
  have p: "PathValue (the (match_path [Literal ''inventory'', Literal ''lots'', Wildcard ''id''] (hr_path ?q))) ''id'' = i"
    using assms by (simp add: lot_request_def PathValue_def)
  have "\<exists>c w'. request_correlation E (hr_header ?q ''X-Correlation-ID'') w = (Inr c, w') \<and> db w' = db w"
    by (simp add: request_correlation_def NewString_def bnd_def gets_def andthen_def modify_def ret_def)
  then obtain c w' where c: "request_correlation E (hr_header ?q ''X-Correlation-ID'') w = (Inr c, w')" "db w' = db w"
    by blast
  show ?thesis
    by (rule exI [of _ c], rule exI [of _ w'])
      (use c s p in \<open>simp add: serve_def Wrap_def split: prod.split\<close>)
qed

lemma view_wf: "stock_ok r \<Longrightarrow> wf_gov (GObj (view_obj E r))"
  by (auto simp: view_obj_def stock_ok_def stock_check_def gov_of_string_option_def is_i64_bounds
      intro!: valid_f64_of_int split: option.split)

lemma reads_lot_found:
  assumes r: "reads_lot P S w i reply" and v: "reply_value decode_map [] reply = Inr lot" and inv: "inv_with P [] (db w)"
  shows "\<exists>E u r. P i = Some u \<and> find_row st_ID u (stocks (db w)) = Some r \<and> lot = read_payload (view_obj E r)"
proof -
  from r v obtain E correlation a b k stamp trace where E: "pg_uuid E = P" and
    reply: "reply = over_http stamp trace (fst (serve E (mux_routes a b k @ inventory_routes S) (lot_request correlation i) w))"
    by (auto simp: reads_lot_def reply_value_def)
  have i: "i \<noteq> []"
  proof
    assume "i = []"
    then have "fst (serve E (mux_routes a b k @ inventory_routes S) (lot_request correlation i) w) = Not_found"
      by (simp add: serve_def serving_def path_routes_def route_defs lot_request_def)
    then show False using v by (simp add: reply over_http_def reply_value_def)
  qed
  obtain c w' where f: "fst (serve E (mux_routes a b k @ inventory_routes S) (lot_request correlation i) w) =
      Answer (respond (fst (lot_endpoint i (E\<lparr>ctx_corr := Some c\<rparr>) w')))" and w': "db w' = db w"
    using serve_lot [OF i] by blast
  let ?E = "E\<lparr>ctx_corr := Some c\<rparr>"
  have "wp (lot_endpoint i ?E) (\<lambda>g _. \<exists>u r. P i = Some u \<and> find_row st_ID u (stocks (db w)) = Some r \<and> g = GObj (view_obj ?E r))
      (\<lambda>e _. \<forall>code message. e \<noteq> Fault code message 200) w'"
    by (auto simp: lot_endpoint_def ID_def sql_uuid_def wp_simps w' E)
  then have q: "case fst (lot_endpoint i ?E w') of
      Inr g \<Rightarrow> \<exists>u r. P i = Some u \<and> find_row st_ID u (stocks (db w)) = Some r \<and> g = GObj (view_obj ?E r)
    | Inl e \<Rightarrow> \<forall>code message. e \<noteq> Fault code message 200"
    by (auto simp: wp_def split: prod.splits sum.splits)
  then obtain g where g: "fst (lot_endpoint i ?E w') = Inr g"
    using v by (cases "fst (lot_endpoint i ?E w')")
      (auto simp: reply f over_http_def respond_def reply_value_def fmtStatus_def split: err.splits if_splits)
  with q obtain u r where u: "P i = Some u" "find_row st_ID u (stocks (db w)) = Some r" "g = GObj (view_obj ?E r)"
    by auto
  have "stock_ok r" using inv find_row_SomeD [OF u(2)] by (auto simp: inv_with_def tables_ok_def)
  then have wf: "wf_gov (GObj (view_obj ?E r))" by (rule view_wf)
  then obtain j where j: "marshal (GObj (view_obj ?E r)) = Some j" using marshal_wf by blast
  have "lot = read_payload (view_obj ?E r)"
    using v decode_marshalled [OF wf j]
    by (simp add: reply f g u(3) respond_def over_http_def j reply_value_def decode_struct_def fold_char_bits del: marshal.simps)
  with u show ?thesis by blast
qed

lemma read_lot_placed:
  assumes "stock_ok r"
  shows "lot_placed (read_payload (view_obj E r)) \<longleftrightarrow> st_LocationID r \<noteq> None"
proof -
  have "distinct (map fst (view_obj E r))" using view_wf [OF assms] by simp
  from read_payload_get [OF this, of "''locationId''"] show ?thesis
    by (cases "st_LocationID r") (simp_all add: lot_placed_def view_obj_def gov_of_string_option_def)
qed

section \<open>Jobs and lots\<close>

definition lies :: "job_row \<Rightarrow> stock_row \<Rightarrow> bool" where
  "lies j r = (st_ID r = jb_stock j \<and> st_WarehouseID r = jb_warehouse j
     \<and> (jb_status j = ''PLACED'' \<longrightarrow> st_LocationID r \<noteq> None))"

definition backed :: "stock_row list \<Rightarrow> job_row list \<Rightarrow> bool" where
  "backed ss js = (\<forall>j \<in> set js. \<exists>r \<in> set ss. lies j r)"

lemma backed_lasting:
  assumes "backed ss js" "lasting ss ss'"
  shows "backed ss' js"
  unfolding backed_def
proof
  fix j assume "j \<in> set js"
  then obtain r where r: "r \<in> set ss" "lies j r" using assms(1) by (auto simp: backed_def)
  obtain r' where "r' \<in> set ss'" "stays r r'" using assms(2) r(1) by (auto simp: lasting_def)
  with r(2) show "\<exists>r \<in> set ss'. lies j r" by (auto simp: lies_def stays_def intro: bexI [of _ r'])
qed

lemma backed_append: "backed ss js \<Longrightarrow> r \<in> set ss \<Longrightarrow> lies j r \<Longrightarrow> backed ss (js @ [j])"
  by (auto simp: backed_def)

text \<open>A job that keeps its lot may change its status, to \<open>PLACED\<close> when the lot has a location.\<close>

definition follows :: "job_row \<Rightarrow> job_row \<Rightarrow> bool" where
  "follows j j' = (jb_stock j' = jb_stock j \<and> jb_warehouse j' = jb_warehouse j
     \<and> (jb_status j' = ''PLACED'' \<longrightarrow> jb_status j = ''PLACED''))"

lemma backed_map:
  assumes "backed ss js" "\<And>j r. j \<in> set js \<Longrightarrow> r \<in> set ss \<Longrightarrow> lies j r \<Longrightarrow> lies (f j) r"
  shows "backed ss (map f js)"
  using assms unfolding backed_def by fastforce

lemma lies_updated [simp]: "lies (j\<lparr>jb_updated := t\<rparr>) r = lies j r"
  by (simp add: lies_def)

lemma follows_lies: "follows j j' \<Longrightarrow> lies j r \<Longrightarrow> lies j' r"
  by (auto simp: follows_def lies_def)

lemma follows_simps [simp]:
  "follows j j" "follows j (j'\<lparr>jb_updated := t\<rparr>) = follows j j'" "follows j (back_to_pending E e j)"
  "follows j (mark_cancelled j)" "follows j (one_more (no_location E) j)" "follows j (one_more (mark_assigned l s) j)"
  by (simp_all add: follows_def back_to_pending_def mark_cancelled_def one_more_def no_location_def mark_assigned_def)

lemma backed_placed:
  assumes "backed ss js" "distinct (map st_ID ss)" "r \<in> set ss" "st_LocationID r \<noteq> None" "st_ID r = u"
  shows "backed ss (update_rows jb_stock u (\<lambda>j. (mark_placed j)\<lparr>jb_updated := t\<rparr>) js)"
  unfolding update_rows_def
proof (rule backed_map [OF assms(1)])
  fix j s assume s: "s \<in> set ss" "lies j s"
  have "s = r" if "st_ID s = st_ID r"
    using inj_onD [OF _ that s(1) assms(3)] assms(2) by (simp add: distinct_map)
  with s assms(4,5) show "lies (if jb_stock j = u then (mark_placed j)\<lparr>jb_updated := t\<rparr> else j) s"
    by (auto simp: lies_def mark_placed_def)
qed

lemma backed_changed: "backed ss js \<Longrightarrow> (\<And>j. follows j (f j)) \<Longrightarrow> backed ss (changed E job f js)"
  unfolding changed_def update_rows_def by (rule backed_map, assumption) (simp, blast intro: follows_lies)

section \<open>The handler and the worker\<close>

abbreviation backed_by :: "stock_row list \<Rightarrow> pldb world \<Rightarrow> bool" where
  "backed_by ss w \<equiv> backed ss (jobs (db w))"

interpretation backed: inbox_invariant "\<lambda>d. backed ss (jobs d)" for ss
  by unfold_locales simp_all

lemma insert_job_backed:
  assumes "pg_uuid E = P" "r \<in> set ss" "P i = Some (st_ID r)" "P u = Some (st_WarehouseID r)"
  shows "keeps (backed_by ss) (insert_job E i u p)"
  using assms by (auto simp: leads_def insert_job_def wp_simps new_job_def lies_def simp del: marshal.simps
      intro!: backed_append [where r = r])

lemma reject_job_backed: "keeps (backed_by ss) (reject_job E i reason)"
  by (auto simp: leads_def reject_job_def wp_simps intro!: backed_map intro: follows_lies [OF follows_simps(3)])

lemma placed_job_backed:
  assumes "pg_uuid E = P" "distinct (map st_ID ss)" "r \<in> set ss" "P i = Some (st_ID r)" "st_LocationID r \<noteq> None"
  shows "keeps (backed_by ss) (update_job E i mark_placed)"
  using assms by (auto simp: leads_def wp_simps intro!: backed_placed)

text \<open>An announcement of the inventory service, and any other message.\<close>

lemma parse_announcement:
  assumes "parse_message E (km_value (outbox_message row)) = Inr e"
  shows "ev_type e = ev_type (ob_body row)" "decode_map (ev_payload (ob_body row)) [] = Some (ev_payload e)"
  using assms by (auto simp: parse_message_def outbox_message_def split: option.splits if_splits)

lemma announcement_backed:
  assumes told: "lot_told P ss row" and d: "distinct (map st_ID ss)" and P: "pg_uuid E = P"
    and e: "parse_message E' (km_value (outbox_message row)) = Inr e"
  shows "keeps (backed_by ss) (Placement_Handle E e)"
proof (cases "ev_type e \<in> {''GoodsReceived'', ''StockAdded''}")
  case True
  note e = parse_announcement [OF e]
  obtain p r where p: "r \<in> set ss" "marshal (GObj p) = Some (ev_payload (ob_body row))" "wf_gov (GObj p)" "speaks_of P p r"
    and l: "ev_type e = ''StockAdded'' \<longrightarrow> st_LocationID r \<noteq> None"
    using told True unfolding lot_told_def e(1) [symmetric] by blast
  have "ev_payload e = read_payload p" using decode_marshalled [OF p(3,2)] e(2) by simp
  moreover have "distinct (map fst p)" using p(3) by simp
  ultimately have s: "P (p_String (ev_payload e) ''stockId'') = Some (st_ID r)"
    "P (p_String (ev_payload e) ''warehouseId'') = Some (st_WarehouseID r)"
    using p(4) by (simp_all add: read_payload_values speaks_of_def)
  show ?thesis unfolding Placement_Handle_def Let_def
    by (intro leads_if leads_guard insert_job_backed [OF P p(1) s] reject_job_backed keeps_ret placed_job_backed [OF P d p(1) s(1)])
      (use l in simp)
next
  case False
  then show ?thesis unfolding Placement_Handle_def Let_def by (auto intro!: leads_if reject_job_backed keeps_ret)
qed

definition foreign :: "kafka_msg \<Rightarrow> bool" where
  "foreign m = (case km_value m of None \<Rightarrow> True | Some e \<Rightarrow> ev_type e \<notin> {''GoodsReceived'', ''StockAdded''})"

lemma foreign_backed:
  assumes "foreign m" "parse_message E' (km_value m) = Inr e"
  shows "keeps (backed_by ss) (Placement_Handle E e)"
proof -
  have "ev_type e \<notin> {''GoodsReceived'', ''StockAdded''}"
    using assms by (auto simp: foreign_def parse_message_def split: option.splits if_splits)
  then show ?thesis unfolding Placement_Handle_def Let_def by (auto intro!: leads_if reject_job_backed keeps_ret)
qed

lemma attempt_backed:
  assumes "\<And>E' e. pg_uuid E' = pg_uuid E \<Longrightarrow> parse_message E (km_value m) = Inr e \<Longrightarrow> keeps (backed_by ss) (Placement_Handle E' e)"
    and "backed_by ss w"
  shows "backed_by ss (snd (attempt_event E Placement_Handle m w))"
  using assms by (auto simp: attempt_event_def attempt_read_def throw_def split: sum.split
      intro!: backed.Process_keeps [where h = Placement_Handle])

lemma work_backed:
  assumes good: "good_jobs (pg_uuid E) rows (jobs (db w))" and scan: "\<And>rs. mset (wk_scan W rs) = mset rs"
    and reads: "\<And>i. reads_lot (pg_uuid E) S iw i (http_get E (InventoryURL Z @ ''/inventory/lots/'' @ i))"
    and inv: "inv_with (pg_uuid E) [] (db iw)" and b: "backed_by (stocks (db iw)) w"
  shows "backed_by (stocks (db iw)) (Placement_tick E W Z w)"
proof -
  let ?ss = "stocks (db iw)"
  have d: "distinct (map st_ID ?ss)" using inv by (simp add: inv_with_def tables_ok_def)
  have "backed ?ss (jobs db')" if wk: "worked E W Z w db'" for db'
  proof -
    obtain job rest where j: "due_jobs E W (jobs (db w)) = job # rest"
      "assign_outcome E Z job (jobs (db w)) (outbox (db w)) (jobs db') (outbox db')"
      using wk unfolding worked_def by blast
    have id: "pg_uuid E (jb_stock job) = Some (jb_stock job)" by (rule due_job_facts(1) [OF good scan j(1)])
    have placed: "backed ?ss (changed E job mark_placed (jobs (db w)))"
      if lot: "lot_reply E Z job = Inr lot" "lot_placed lot" for lot
    proof -
      obtain E' r where r: "find_row st_ID (jb_stock job) ?ss = Some r" "lot = read_payload (view_obj E' r)"
        using reads_lot_found [OF reads lot(1) [unfolded lot_reply_def] inv] id by auto
      have "stock_ok r" using inv find_row_SomeD [OF r(1)] by (auto simp: inv_with_def tables_ok_def)
      from read_lot_placed [OF this] have "st_LocationID r \<noteq> None" using lot(2) by (simp add: r(2))
      then show ?thesis unfolding changed_def
        using find_row_SomeD [OF r(1)] by (intro backed_placed [OF b d]) auto
    qed
    show ?thesis using j(2) placed backed_changed [OF b]
      by (auto simp: assign_outcome_def Let_def split: if_splits option.splits)
  qed
  then have "wp (assign_tx E W Z) (\<lambda>_ v. backed_by ?ss v) anyerr w"
    by (intro wp_mono [OF assign_tx_outcome [OF good scan]]) (use b in auto)
  then show ?thesis using b
    by (auto simp: Placement_tick_def assign_def Transaction_def wp_def split: prod.split sum.split)
qed

section \<open>The two services\<close>

inductive placement_move ::
  "(string \<Rightarrow> string option) \<Rightarrow> service \<Rightarrow> peers \<Rightarrow> idb world \<Rightarrow> pldb world \<Rightarrow> pldb world \<Rightarrow> bool" for P S Z iw where
  announcement: "pg_uuid E = P \<Longrightarrow> row \<in> set (outbox (db iw)) \<Longrightarrow>
    placement_move P S Z iw w (snd (attempt_event E Placement_Handle (outbox_message row) w))"
| other: "pg_uuid E = P \<Longrightarrow> foreign m \<Longrightarrow> placement_move P S Z iw w (snd (attempt_event E Placement_Handle m w))"
| dead_letter: "placement_move P S Z iw w (snd (WriteMessages E (dead_letter E m e) w))"
| publish: "placement_move P S Z iw w (Outbox_tick E w)"
| work: "pg_uuid E = P \<Longrightarrow> (\<And>rs. mset (wk_scan W rs) = mset rs) \<Longrightarrow>
    (\<And>i. reads_lot P S iw i (http_get E (InventoryURL Z @ ''/inventory/lots/'' @ i))) \<Longrightarrow>
    placement_move P S Z iw w (Placement_tick E W Z w)"
| listing: "placement_move P S Z iw w (snd (Wrap E header (placements_endpoint scan) w))"
| get: "placement_move P S Z iw w (snd (Wrap E header (placement_endpoint i) w))"

inductive warehouse_step ::
  "(string \<Rightarrow> string option) \<Rightarrow> service \<Rightarrow> peers \<Rightarrow> idb world \<Rightarrow> pldb world \<Rightarrow> idb world \<Rightarrow> pldb world \<Rightarrow> bool" for P S Z where
  inventory: "inventory_step P S iw iw' \<Longrightarrow> warehouse_step P S Z iw pw iw' pw"
| placement: "placement_move P S Z iw pw pw' \<Longrightarrow> warehouse_step P S Z iw pw iw pw'"

inductive warehouse_reachable ::
  "(string \<Rightarrow> string option) \<Rightarrow> service \<Rightarrow> peers \<Rightarrow> idb world \<Rightarrow> pldb world \<Rightarrow> bool" for P S Z where
  start: "db iw = empty_idb \<Longrightarrow> db pw = empty_pldb \<Longrightarrow> warehouse_reachable P S Z iw pw"
| step: "warehouse_reachable P S Z iw pw \<Longrightarrow> warehouse_step P S Z iw pw iw' pw' \<Longrightarrow> warehouse_reachable P S Z iw' pw'"

inductive_cases warehouse_stepE: "warehouse_step P S Z iw pw iw' pw'"

lemma placement_move_step: "placement_move P S Z iw w w' \<Longrightarrow> placement_step P Z w w'"
  by (induction rule: placement_move.induct) (auto intro: placement_step.intros)

lemma warehouse_projects:
  assumes "warehouse_reachable P S Z iw pw"
  shows "inventory_reachable P S iw" "placement_reachable P Z pw"
  using assms
  by (induction rule: warehouse_reachable.induct)
    (auto elim!: warehouse_stepE intro: inventory_reachable.intros placement_reachable.intros placement_move_step)

lemma move_backed:
  assumes "placement_move P S Z iw w w'" and P: "uuid_law P" "inventory_reachable P S iw" "placement_reachable P Z w"
    and b: "backed_by (stocks (db iw)) w"
  shows "backed_by (stocks (db iw)) w'"
proof -
  note told = reachable_told [OF P(1,2)] and inv = reachable_inventory_ok [OF P(1,2)]
  have d: "distinct (map st_ID (stocks (db iw)))" using told by (simp add: told_def)
  show ?thesis using assms(1)
  proof cases
    case (announcement E row)
    have "lot_told P (stocks (db iw)) row" using told announcement(3) by (simp add: told_def)
    then show ?thesis unfolding announcement(1) using announcement(2)
      by (intro attempt_backed [OF announcement_backed b] d) auto
  next
    case (other E m)
    then show ?thesis unfolding other(1) by (intro attempt_backed [OF foreign_backed b])
  next
    case (work E W)
    show ?thesis unfolding work(1)
      using placement_reachable_good [OF P(3,1)] inv work(4)
      by (intro work_backed [where rows = "[]" and S = S] b) (simp_all add: work(2,3))
  next
    case (publish E)
    then show ?thesis using backed.Outbox_tick_keeps b by auto
  qed (use b in \<open>auto intro!: Wrap_keeps_any [where J = "\<lambda>d. backed (stocks (db iw)) (jobs d)"]\<close>)
qed

lemma warehouse_backed:
  assumes "uuid_law P" "warehouse_reachable P S Z iw pw"
  shows "backed_by (stocks (db iw)) pw"
  using assms(2)
proof (induction rule: warehouse_reachable.induct)
  case (start iw pw)
  then show ?case by (simp add: backed_def empty_pldb_def)
next
  case (step iw pw iw' pw')
  note reach = warehouse_projects [OF step.hyps(1)]
  from step.hyps(2) show ?case
  proof cases
    case inventory
    then show ?thesis using backed_lasting [OF step.IH step_lasting [OF assms(1) reach(1)]] by simp
  next
    case placement
    then show ?thesis using move_backed [OF _ assms(1) reach step.IH] by simp
  qed
qed

section \<open>The placement service's own messages\<close>

text \<open>It announces assignments only: none of its messages speaks of a lot for itself.\<close>

definition assigns_only :: "pldb \<Rightarrow> bool" where
  "assigns_only d = (\<forall>row \<in> set (outbox d). ev_type (ob_body row) = ''ProductPlacementAssigned'')"

interpretation assigns: inbox_frame assigns_only
  by unfold_locales (simp add: assigns_only_def)

interpretation assigned: publish_frame assigns_only
  by unfold_locales (auto simp: assigns_only_def set_update_rows)

lemma assigns_handler: "keeps (\<lambda>w. assigns_only (db w)) (Placement_Handle E e)"
  by (auto simp: leads_def assigns_only_def Placement_Handle_def insert_job_def reject_job_def update_job_def
      wp_simps Let_def simp del: marshal.simps)

lemma assigns_worker:
  assumes "assigns_only (db w)"
  shows "assigns_only (db (Placement_tick E W Z w))"
proof -
  have job: "keeps (\<lambda>w. assigns_only (db w)) (assign_job E Z job)" for job
    unfolding leads_def
    by (auto simp: assign_job_def update_attempts_def wp_simps Let_def assigns_only_def emitted_def
        simp del: marshal.simps split: prod.split option.split intro!: wp_EmitI)
  then have "keeps (\<lambda>w. assigns_only (db w)) (assign_tx E W Z)"
    by (auto simp: leads_def assign_tx_def select_job_def wp_simps split: option.split)
  then show ?thesis unfolding Placement_tick_def assign_def
    by (rule Transaction_keeps [where J = assigns_only, OF _ assms])
qed

lemma own_messages_foreign:
  assumes "placement_reachable P Z w" "row \<in> set (outbox (db w))"
  shows "foreign (outbox_message row)"
proof -
  have "assigns_only (db w)" using assms(1)
  proof (induction rule: placement_reachable.induct)
    case (step w w')
    from step.hyps(2) step.IH show ?case
    proof cases
      case (deliver E m)
      then show ?thesis using step.IH by (auto intro: assigns.attempt_event_keeps assigns_handler)
    next
      case (publish E)
      then show ?thesis using step.IH by (simp add: assigned.Outbox_tick_keeps)
    next
      case (work E W)
      then show ?thesis using step.IH by (simp add: assigns_worker)
    qed (use step.IH in \<open>auto intro!: Wrap_keeps_any [where J = assigns_only]\<close>)
  qed (simp add: assigns_only_def empty_pldb_def)
  then show ?thesis using assms(2) by (simp add: assigns_only_def foreign_def outbox_message_def)
qed

end
