(* ===== verification/Startup.thy ===== *)
theory Startup
  imports Routing
begin

text \<open>
  How a service starts and ends: \<open>Open\<close> and \<open>Close\<close> of \<open>libs/platform/runtime.go\<close>, \<open>Serve\<close> of
  \<open>http.go\<close> and the \<open>main\<close> functions. The libraries they connect (\<open>database/sql\<close>, \<open>migrate\<close>,
  \<open>pgxpool\<close>, the OTLP exporter, the HTTP server) are parameters: what each call returns. What is
  modelled is the code's own part: the order of the calls, which results end the start, the
  configuration that is passed on, and what runs between a successful start and the end.
\<close>

section \<open>Opening the runtime\<close>

datatype up_result = Migrated | No_change | Migration_failed string

text \<open>The process environment and the results of the library calls; \<open>None\<close> is a nil error.\<close>

record boot =
  getenv :: "string \<Rightarrow> string"
  sql_Open :: "string \<Rightarrow> string option"
  WithInstance :: "string option"
  iofs_New :: "string option"
  NewWithInstance :: "string option"
  m_Up :: up_result
  pgxpool_New :: "string \<Rightarrow> string option"
  pool_Ping :: "string option"
  otlp_New :: "string \<Rightarrow> string option"

record kafka_writer =
  wr_Addr :: "string list"
  wr_Hash_balancer :: bool
  wr_Require_all :: bool
  wr_Write_timeout :: nat   \<comment> \<open>seconds\<close>

record Runtime =
  rt_DB :: string           \<comment> \<open>the data source the pool is opened on\<close>
  rt_Redis :: string        \<comment> \<open>its address\<close>
  rt_Writer :: kafka_writer
  rt_Name :: string
  rt_Brokers :: "string list"
  rt_Metrics :: "string \<times> string list"
  rt_Tracer :: "string \<times> string"   \<comment> \<open>the endpoint and the \<open>service.name\<close>\<close>

text \<open>\<open>strings.Split(s, ",")\<close>.\<close>

fun Split :: "string \<Rightarrow> string list" where
  "Split [] = [[]]"
| "Split (c # cs) =
     (if c = CHR '','' then [] # Split cs
      else (case Split cs of x # xs \<Rightarrow> (c # x) # xs | [] \<Rightarrow> [[c]]))"

definition check_nil :: "string option \<Rightarrow> string + unit" where
  "check_nil e = (case e of None \<Rightarrow> Inr () | Some m \<Rightarrow> Inl m)"

definition and_then :: "string + unit \<Rightarrow> string + 'a \<Rightarrow> string + 'a" where
  "and_then r k = (case r of Inl m \<Rightarrow> Inl m | Inr _ \<Rightarrow> k)"

definition new_runtime :: "boot \<Rightarrow> string \<Rightarrow> Runtime" where
  "new_runtime B name =
     (let brokers = Split (Env (getenv B) ''KAFKA_BROKERS'' ''kafka:9092'')
      in \<lparr>rt_DB = Env (getenv B) ''DATABASE_URL'' [], rt_Redis = Env (getenv B) ''REDIS_ADDR'' ''redis:6379'',
          rt_Writer = \<lparr>wr_Addr = brokers, wr_Hash_balancer = True, wr_Require_all = True, wr_Write_timeout = 10\<rparr>,
          rt_Name = name, rt_Brokers = brokers,
          rt_Metrics = (''wms_operations_total'', [''service'', ''operation'', ''outcome'']),
          rt_Tracer = (Env (getenv B) ''OTEL_ENDPOINT'' ''otel-collector:4318'', name)\<rparr>)"

text \<open>The migrations may find nothing to do; any other error of any call ends the start.\<close>

definition Open :: "boot \<Rightarrow> string \<Rightarrow> string + Runtime" where
  "Open B name =
     (let dsn = Env (getenv B) ''DATABASE_URL'' [] in
      and_then (check_nil (sql_Open B dsn))
     (and_then (check_nil (WithInstance B))
     (and_then (check_nil (iofs_New B))
     (and_then (check_nil (NewWithInstance B))
     (and_then (case m_Up B of Migration_failed m \<Rightarrow> Inl m | _ \<Rightarrow> Inr ())
     (and_then (check_nil (pgxpool_New B dsn))
     (and_then (check_nil (pool_Ping B))
     (and_then (check_nil (otlp_New B (Env (getenv B) ''OTEL_ENDPOINT'' ''otel-collector:4318'')))
     (Inr (new_runtime B name))))))))))"

section \<open>A process\<close>

datatype activity = Outbox_loop | Consume_loop | Work_loop | Listening | Close_writer | Close_redis
  | Close_db | Shutdown_tracer | Logged string string | Exited nat

definition Close :: "activity list" where
  "Close = [Close_writer, Close_redis, Close_db, Shutdown_tracer]"

datatype listen_result = Server_closed | Listen_failed string

record http_server =
  sv_Addr :: string
  sv_ReadHeaderTimeout :: nat
  sv_ReadTimeout :: nat
  sv_WriteTimeout :: nat
  sv_IdleTimeout :: nat

text \<open>
  \<open>ListenAndServe\<close> always returns an error; the one that reports the shutdown is no error here.
  It returns as soon as the shutdown begins: what the shutdown still waits for is not waited for.
\<close>

definition Serve :: "(http_server \<Rightarrow> listen_result) \<Rightarrow> string option" where
  "Serve ListenAndServe =
     (case ListenAndServe \<lparr>sv_Addr = '':8080'', sv_ReadHeaderTimeout = 5, sv_ReadTimeout = 15,
          sv_WriteTimeout = 30, sv_IdleTimeout = 60\<rparr> of
        Server_closed \<Rightarrow> None | Listen_failed m \<Rightarrow> Some m)"

text \<open>\<open>os.Exit\<close> runs no deferred call: after a failed server the runtime is not closed.\<close>

definition service_main :: "string \<Rightarrow> boot \<Rightarrow> (http_server \<Rightarrow> listen_result) \<Rightarrow> activity list" where
  "service_main name B ListenAndServe =
     (case Open B name of
        Inl e \<Rightarrow> [Logged ''startup failed'' e, Exited 1]
      | Inr r \<Rightarrow> [Outbox_loop, Consume_loop, Work_loop, Listening] @
          (case Serve ListenAndServe of
             Some e \<Rightarrow> [Logged ''server failed'' e, Exited 1]
           | None \<Rightarrow> Close @ [Exited 0]))"

definition main_inventory :: "boot \<Rightarrow> (http_server \<Rightarrow> listen_result) \<Rightarrow> activity list" where
  "main_inventory = service_main ''inventory-service''"

definition main_placement :: "boot \<Rightarrow> (http_server \<Rightarrow> listen_result) \<Rightarrow> activity list" where
  "main_placement = service_main ''placement-service''"

definition main_audit :: "boot \<Rightarrow> (http_server \<Rightarrow> listen_result) \<Rightarrow> activity list" where
  "main_audit = service_main ''audit-service''"

section \<open>Facts\<close>

text \<open>
  Splitting loses nothing, and always leaves a first broker: the health check, which reads
  \<open>Brokers[0]\<close>, cannot panic.
\<close>

fun join_comma :: "string list \<Rightarrow> string" where
  "join_comma [] = []"
| "join_comma [x] = x"
| "join_comma (x # xs) = x @ CHR '','' # join_comma xs"

lemma Split_nonempty: "Split s \<noteq> []"
  by (induction s) (auto split: list.split)

lemma join_Split: "join_comma (Split s) = s"
proof (induction s)
  case (Cons c s)
  obtain x xs where x: "Split s = x # xs" using Split_nonempty by (cases "Split s") auto
  have j: "join_comma ([] # ys) = CHR '','' # join_comma ys" if "ys \<noteq> []" for ys using that by (cases ys) auto
  show ?case
  proof (cases "c = CHR '',''")
    case True
    then show ?thesis using Cons j [of "Split s"] Split_nonempty by simp
  next
    case False
    then show ?thesis using Cons by (cases xs) (simp_all add: x)
  qed
qed simp

lemma Split_no_comma: "x \<in> set (Split s) \<Longrightarrow> CHR '','' \<notin> set x"
proof (induction s arbitrary: x)
  case (Cons c s)
  then show ?case by (auto split: if_splits list.splits)
qed simp

lemma Open_brokers: "Open B name = Inr r \<Longrightarrow> rt_Brokers r \<noteq> [] \<and> rt_Name r = name"
  using Split_nonempty
  by (auto simp: Open_def and_then_def Let_def new_runtime_def split: sum.splits)

text \<open>
  The background loops and the server run only in a process whose migrations were applied or had
  nothing to do, and the exit code tells a failed start or server.
\<close>

lemma main_runs_migrated:
  assumes "Outbox_loop \<in> set (service_main name B L) \<or> Consume_loop \<in> set (service_main name B L)
    \<or> Work_loop \<in> set (service_main name B L) \<or> Listening \<in> set (service_main name B L)"
  shows "m_Up B = Migrated \<or> m_Up B = No_change"
proof -
  obtain r where "Open B name = Inr r"
    using assms by (cases "Open B name") (auto simp: service_main_def)
  then show ?thesis by (cases "m_Up B") (auto simp: Open_def and_then_def Let_def split: sum.splits)
qed

lemma main_exit:
  "last (service_main name B L) = Exited (if (\<exists>r. Open B name = Inr r) \<and> Serve L = None then 0 else 1)"
  by (auto simp: service_main_def Close_def split: sum.split option.split)

end
