(* ===== verification/Spec2Isabelle.thy ===== *)
theory Spec2Isabelle
  imports Inventory_Properties Reservation_Expiry Messaging_Properties Warehouse_System Startup
begin

text \<open>
  LogiCore WMS, the Go services: a model of what they run and the theorems that make it correct.

  \<^bold>\<open>The program.\<close> Three Go services share the runtime \<open>libs/platform\<close>. Inventory
  (\<open>services/inventory-service\<close>) owns the lots of stock, their reserved quantities, the
  reservations with their allocations and the capacity ledger of the locations. Placement
  (\<open>services/placement-service\<close>) owns one job for every received lot and chooses a location for it.
  Audit (\<open>services/audit-service\<close>) records every event. They talk through events: a transaction
  writes an event into the outbox table of its service (\<open>Emit\<close>), a publisher copies the outbox to
  Kafka (\<open>Outbox\<close>), and the consumer of another service (\<open>Consume\<close>) runs its handler in a transaction
  that also stores an inbox marker (\<open>Process\<close>). A receipt emits GoodsReceived, which becomes a
  placement job; the job's assignment emits ProductPlacementAssigned, which makes the inventory
  service place the lot, after its own capacity check; its StockAdded or PlacementRejected closes or
  reopens the job. Reservation, cancellation and shipment requests reach the inventory service the
  same way, from services written in Java.

  \<^bold>\<open>Programs and state.\<close> A service operation is a state transformer of type \<open>wprog\<close> (WMS_Prelude):
  it returns \<open>Inl\<close> an error or \<open>Inr\<close> a value together with the new state, so that every early
  return of the code is a branch. Errors are \<open>Fault\<close> (code, message, HTTP status: \<open>types.go\<close>) or
  \<open>Internal\<close> (any other Go error). The state \<open>world\<close> (Platform) holds the database of the service,
  the advisory locks of the running transaction, the consumed clock readings, UUIDs and sequence
  numbers, the metrics, the Kafka log and the Redis store. A table is a list of records in
  insertion order; one definition per SQL statement checks what the schema checks (keys, foreign
  keys, \<open>CHECK\<close>s, the range of \<open>bigint\<close>) and fails as \<open>Internal\<close>. \<open>Transaction\<close> restores the database
  of its start unless body and commit succeed, \<open>Savepoint\<close> the one of the inner start. What is not in
  the repository is the environment \<open>env\<close>, an argument of every definition: \<open>uuid.Parse\<close>, the
  \<open>uuid\<close> type of PostgreSQL, clocks, new UUIDs, SHA-256, HTTP replies of peers, and whether a begin,
  a commit or a Kafka write succeeds. Loops over time (attempts on a message, fetches, ticks) are
  recursions over the list of their environments: the list ends where the process is stopped, so
  its length is a bound chosen by the environment and not a fuel of the model; the properties that
  need a number of attempts or ticks state it (five attempts, \<open>n\<close> ticks, an environment for each
  due reservation). A consumed event is a record \<open>delivered\<close>, an \<open>event\<close> with a flag that its payload
  was null or absent: Go's nil map, which reads like an empty one but is stored as NULL, refused by
  the \<open>not null\<close> columns. \<open>consume_message\<close> is given the message as it was read, once, before the
  attempts.

  \<^bold>\<open>Theories.\<close>
  \<^item> WMS_Prelude: programs, their weakest preconditions \<open>wp\<close> (collection \<open>wp_simps\<close>) and the
    partial-correctness triple \<open>leads\<close>, 64-bit wrap-around \<open>i64\<close>, tables as lists.
  \<^item> Float64: binary64 with round-to-nearest-even, executable over the rationals; Go_Time: instants,
    days, \<open>time.Parse\<close> of the two layouts; Go_Json: \<open>encoding/json\<close> on payloads and on the structs.
  \<^item> Platform: \<open>types.go\<close>, \<open>db.go\<close>, \<open>messaging.go\<close>, \<open>http.go\<close> (\<open>Transaction\<close>, \<open>Lock\<close>, \<open>Emit\<close>, \<open>Command\<close>,
    \<open>Query\<close>, \<open>Process\<close>, \<open>consume_message\<close> and \<open>Consume\<close>, \<open>Outbox_tick\<close>, \<open>Wrap\<close>, \<open>Body\<close>, \<open>Get\<close>). Delivery: its
    contracts, as locales (\<open>inbox_handler\<close>, \<open>command_body\<close>, \<open>publish_frame\<close>,
    \<open>outbox_invariant\<close>, \<open>inbox_frame\<close>, \<open>reply_frame\<close> and their extensions) that every service interprets on its own handler, commands
    and tables.
  \<^item> Inventory_Store (\<open>stock.go\<close>, the tables and statements), Inventory_Service
    (\<open>application/service.go\<close>: \<open>Receive\<close>, \<open>Change\<close> with \<open>adjust\<close> and \<open>take_off\<close>, \<open>capacity\<close>, endpoints),
    Reservations (\<open>application/reservations.go\<close>: \<open>Handle\<close>, \<open>reserve\<close>, \<open>release\<close>, \<open>ship\<close>, \<open>place\<close>,
    \<open>Work_tick\<close>).
  \<^item> Inventory_Invariant, Inventory_Frames, Inventory_Preservation, Inventory_System: the invariant
    \<open>inv_with\<close>, what each operation leaves alone (locales \<open>capacity_frame\<close>, \<open>ledger_frame\<close>, \<open>lot_frame\<close>, \<open>table_frame\<close>), that
    each operation keeps it, and the service as a step relation whose runs are all interleavings
    of requests, deliveries, expiries and publisher ticks (locales \<open>step_invariant\<close>, \<open>code_invariant\<close>).
  \<^item> Inventory_Operations, Reservation_Operations, Reservation_Outcomes, Reservation_Settlement: the
    effect of each operation as an equation between tables, against abstract specifications
    (\<open>greedy\<close> for the allocation loop, \<open>held_on\<close> for what a reservation holds, \<open>accepts\<close> and
    \<open>fits_limit\<close> for a location). Scenario: a concrete deployment and run for the instances.
  \<^item> Placement (\<open>scoring.go\<close>, \<open>application/service.go\<close>: \<open>Score\<close>, \<open>best_location\<close>, \<open>Placement_Handle\<close>,
    \<open>assign\<close> with the Redis mutex), Placement_Scoring, Placement_System; Audit_Service
    (\<open>Audit_Handle\<close>, \<open>audit_list\<close>, \<open>audit_get\<close>).
  \<^item> Routing: the pattern tables of \<open>Routes\<close> and \<open>Mux\<close>, the resolution of a request, \<open>New\<close>. Startup:
    \<open>Open\<close>, \<open>Close\<close>, \<open>Serve\<close> and the \<open>main\<close> functions, on the results of the libraries they call.
  \<^item> Putaway: one announcement or one assignment on its way between the services. Announcements: what
    the inventory service tells about lots is true and stays true (\<open>told\<close>, an invariant of its tables
    and outbox; \<open>stays\<close>, how a lot may change). Warehouse_System: inventory and placement as one
    system (\<open>warehouse_step\<close>); its messages are rows of the inventory's outbox in any order and number,
    its requests for lots are served by the inventory's own routes (\<open>reads_lot\<close>).
  \<^item> The properties: Inventory_Properties (every run), Inventory_Effects (each stock operation, the
    ledger), Reservation_Properties, Reservation_Expiry, Placement_Properties, Audit_Properties,
    Messaging_Properties, and here, over Putaway and Warehouse_System, those that span two services.

  \<^bold>\<open>What is shown.\<close> Stock is never oversold and reserved quantities never leak, on any run; the
  allocation loop is the greedy choice in expiry order; receipts, moves, write-offs, adjustments,
  placements, reservations, releases, shipments and expiries change exactly what they say; the
  capacity ledger stays within the limits (and is exact for whole-numbered sizes, lemma \<open>ledger_exact\<close>); a refusal or an
  error leaves nothing behind but its rejection; events and keyed requests take effect once; no
  message is skipped, except one fetched just before the shutdown, none blocks its partition, the
  outbox drains in order; the chosen location is the best eligible one, has room, and passes the
  inventory's own check, if the warehouse is spelled canonically; whatever the delays between the
  services, a job stands for a lot and a closed one for a stored lot; the mutex excludes and is given
  back at once if the server gets the release within the lease, else when the lease ends; the audit
  record agrees with the inbox, is append-only and its pages cover it. Besides, some lemmas state
  what the code does not do: \<open>place_needs_canonical\<close> and \<open>ledger_drift\<close> (Inventory_Effects),
  \<open>cancelled_fetch_skips\<close> (Messaging_Properties), \<open>take_lots_refines\<close> in its second outcome
  (Reservation_Operations), \<open>Audit_Handle_run\<close> on a null payload (Audit_Service).

  \<^bold>\<open>Abstractions.\<close> Transactions of one service run one after the other. The code serializes
  what competes with advisory locks and row locks, taken here as the field \<open>held\<close>, which does not
  block; the publisher runs once per service, so that its \<open>skip locked\<close> skips nothing, and the rows
  the placement worker skips are chosen by its environment. Inside a transaction only the statements' own checks fail; a broken
  connection shows at begin and commit. A commit that returns an error is taken as rolled back: one
  that the server carried out but whose acknowledgement was lost is not distinguished. The session time zone is UTC, strings are valid UTF-8
  without NUL, the two float zeros are one value, and no multiplication is fused with an addition.
  A JSON object has each key once. The payload of an event is a value: \<open>ship\<close> writes
  \<open>items\<close> into the map it was given, which a later rejection of the same event, or a later attempt,
  would still see, and which the model does not share; a later shipment does not (\<open>ship_ignores_items\<close>). Metrics have no labels but operation and
  outcome, log lines and spans are left out. Redis is a store with expiry times, its replies may be
  errors, and the release script is the compare-and-delete its text says.

  In \<open>warehouse_step\<close> the other messages to the placement service are of any type but GoodsReceived
  and StockAdded, which only the inventory service emits (its own messages among them, lemma
  \<open>own_messages_foreign\<close>), and the inventory service may receive any message.

  \<^bold>\<open>Not modelled.\<close> The libraries the code connects: what \<open>sql.Open\<close>, the migrations, the pool, the
  exporter and \<open>ListenAndServe\<close> return is a parameter of Startup; the handler of \<open>/metrics\<close>,
  OpenTelemetry and the embedding of the migrations are left out. The Java services (product,
  warehouse, reservation, shipment and their common library): another language; what the Go code reads from them enters as
  HTTP replies and messages that may be anything. An expiry scan that breaks off in the middle of
  its rows behaves like one with fewer rows and is not distinguished.
\<close>

section \<open>What is said is heard\<close>

text \<open>
  C39: events survive their way: the message the publisher sends for an emitted event is accepted
  by the parser of every consumer, with the same type, and its payload is the emitted one, never nil, with
  integers turned into the nearest float64 and sorted keys; every text and every number a handler
  looks up in it has the value the emitter looked up.
\<close>

theorem event_roundtrip:
  assumes "Emit E kind payload w = (Inr (), w')" "wf_gov (GObj payload)"
    and "uuid_ok E' (ev_id (ob_body (last (outbox (db w')))))"
  shows "\<exists>ev. parse_message E' (km_value (outbox_message (last (outbox (db w'))))) = Inr ev \<and> ev_type ev = kind \<and> \<not> ev_nil ev
    \<and> GObj (ev_payload ev) = as_read (GObj payload)
    \<and> (\<forall>k. p_String (ev_payload ev) k = p_String payload k \<and> p_Number (ev_payload ev) k = p_Number payload k)"
proof -
  have "wp (Emit E kind payload) (\<lambda>_ t. emitted E kind payload w t) anyerr w" by (rule wp_EmitI) simp_all
  then have "emitted E kind payload w w'" using assms(1) by (simp add: wp_def)
  then obtain row where row: "db w' = (db w)\<lparr>outbox := outbox (db w) @ [row]\<rparr>" "ev_type (ob_body row) = kind"
    "ev_version (ob_body row) = 1" "marshal (GObj payload) = Some (ev_payload (ob_body row))"
    unfolding emitted_def by blast
  have "decode_map (ev_payload (ob_body row)) [] = Some (read_payload payload)"
    by (rule decode_marshalled [OF assms(2) row(4)])
  moreover have "ev_payload (ob_body row) \<noteq> JNull" using row(4) by (auto split: option.splits)
  ultimately show ?thesis using row assms(2,3)
    by (simp add: parse_message_def outbox_message_def read_payload_values read_payload_def [symmetric])
qed

theorem event_roundtrip_witness:
  "\<exists>ev. parse_message demo_env (km_value (outbox_message (last (outbox (db (snd
      (Emit demo_env ''GoodsReceived'' [(''warehouseId'', GStr ''w1''), (''quantity'', GI64 7)] demo_start)))))))
      = Inr ev \<and> ev_type ev = ''GoodsReceived'' \<and> p_String (ev_payload ev) ''warehouseId'' = ''w1''
    \<and> p_Number (ev_payload ev) ''quantity'' = Fin 7"
proof -
  let ?p = "[(''warehouseId'', GStr ''w1''), (''quantity'', GI64 7)]"
  let ?r = "Emit demo_env ''GoodsReceived'' ?p demo_start"
  have "fst ?r = Inr ()" "ev_id (ob_body (last (outbox (db (snd ?r))))) = ''u''" by code_simp+
  moreover have "p_String ?p ''warehouseId'' = ''w1''" "p_Number ?p ''quantity'' = Fin 7" by code_simp+
  moreover have "wf_gov (GObj ?p)" "uuid_ok demo_env ''u''" by (simp_all add: is_i64_bounds demo_env_def)
  ultimately show ?thesis
    using event_roundtrip [of demo_env "''GoodsReceived''" ?p demo_start "snd ?r" demo_env]
    by (metis prod.collapse)
qed

section \<open>From receipt to location\<close>

text \<open>
  C13: a receipt becomes a placement job: the event a successful receipt announces, delivered to a
  placement service that has not seen it, creates a PENDING job for the new lot in its warehouse,
  due at once, whose payload carries the lot's quantity, storage type and unit sizes unchanged
  through both JSON encodings.
\<close>

theorem receipt_becomes_job:
  assumes "Receive E S q w = (Inr v, w1)" "message = last (outbox (db w1))"
    and "pg_uuid E' = pg_uuid E" "uuid_ok E' (ev_id (ob_body message))" "pg_uuid E (ev_id (ob_body message)) = Some u"
    and "(u, svc_name E') \<notin> set (processed (db z))" "begin_ok E'" "commit_ok E'"
    and "\<And>x. v = stock_gov x \<Longrightarrow> pg_uuid E (st_ID x) \<notin> Some ` jb_stock ` set (jobs (db z))"
  shows "\<exists>x z' job. v = stock_gov x \<and> receives E S q (stocks (db w)) x (stocks (db w1))
    \<and> attempt_event E' Placement_Handle (outbox_message message) z = (Inr (), z')
    \<and> jobs (db z') = jobs (db z) @ [job] \<and> job_of E' x job"
proof -
  obtain x where x: "v = stock_gov x" "receives E S q (stocks (db w)) x (stocks (db w1))"
    "announced ''GoodsReceived'' (received_payload x) w1"
    using leads_result [OF Receive_effect [of "stocks (db w)"] refl assms(1)] by blast
  obtain i wid where ids: "pg_uuid E (st_ID x) = Some i" "pg_uuid E (st_WarehouseID x) = Some wid"
    and wf: "wf_gov (GObj (received_payload x))" by (rule receives_facts [OF x(2)])
  have "find_row jb_stock i (jobs (db z)) = None" using assms(9) [OF x(1)] ids(1) by (auto simp: find_row_None_iff)
  from receipt_delivery [OF wf _ _ x(3) _ _ assms(6) this assms(7,8)] ids assms(2-5) x(1,2)
  show ?thesis by metis
qed

lemma demo_depot_uuid: "pg_uuid depot_env = pg_uuid demo_env"
  by (rule ext) (simp add: depot_env_def demo_env_def demo_uuid_def)

theorem receipt_becomes_job_witness:
  "\<exists>x z' job. stock_gov demo_lot = stock_gov x
    \<and> attempt_event depot_env Placement_Handle
        (outbox_message (last (outbox (db (snd (Receive demo_env demo_service demo_goods demo_start)))))) depot_start = (Inr (), z')
    \<and> jobs (db z') = [job] \<and> job_of depot_env x job"
proof -
  let ?r = "Receive demo_env demo_service demo_goods demo_start"
  have "fst ?r = Inr (stock_gov demo_lot)" by code_simp
  then have r: "?r = (Inr (stock_gov demo_lot), snd ?r)" by (metis prod.collapse)
  have e: "ev_id (ob_body (last (outbox (db (snd ?r))))) = ''ux''" by code_simp
  have j: "jobs (db depot_start) = []" "processed (db depot_start) = []" by (simp_all add: depot_start_def empty_pldb_def)
  have "uuid_ok depot_env ''ux''" "pg_uuid demo_env ''ux'' = Some ''ux''" "begin_ok depot_env" "commit_ok depot_env"
    by (simp_all add: depot_env_def demo_env_def demo_uuid_def)
  then show ?thesis
    using receipt_becomes_job [OF r refl demo_depot_uuid, unfolded e, of "''ux''" depot_start] j by auto
qed

text \<open>
  C12: what the placement service decides the inventory service carries out: if a candidate is
  eligible for the whole unplaced lot, the location service and the capacity ledger still say of it
  what the candidate said, and new ids do not run out, then the assignment of that location succeeds
  and the lot lies there, provided the assignment spells the lot's warehouse as the database does;
  spelled otherwise it is refused with WRONG_WAREHOUSE and nothing changes. The two capacity checks
  round alike, whatever the limits, so none refuses what the other admits.
\<close>

theorem assignment_carried_out:
  assumes "uuid_law P" "inventory_reachable P S w" "pg_uuid E = P" "supplied E w"
    and lot: "P (p_String p ''stockId'') = Some (st_ID r)" "find_row st_ID (st_ID r) (stocks (db w)) = Some r"
      "st_LocationID r = None" "st_Quantity r \<noteq> 0"
    and loc: "uuid_ok E (p_String p ''locationId'')" "P (p_String p ''locationId'') = Some u"
      "location_reply E S (p_String p ''locationId'') = Inr loc" "same_place c loc"
    and row: "find_row cap_location u (cap_ensure u (st_WarehouseID r) (capacities (db w))) = Some row" "same_totals c row"
    and score: "snd (Score c (st_WarehouseID r) (st_StorageType r) (load (st_Weight r) (st_Quantity r))
        (load (st_Volume r) (st_Quantity r)))"
  shows "if p_String p ''warehouseId'' = st_WarehouseID r
    then \<exists>w'. place E S p w = (Inr (), w') \<and> stocks (db w') = put_lot E (r\<lparr>st_LocationID := Some u\<rparr>) (stocks (db w))
    else place E S p w = (Inl (Fail ''WRONG_WAREHOUSE'' ''Placement warehouse mismatch''), w)"
proof (cases "p_String p ''warehouseId'' = st_WarehouseID r")
  case True
  have inv: "inv_with (pg_uuid E) [] (db w)" using reachable_inventory_ok [OF assms(1,2)] assms(3) by simp
  have "wp (place E S p) (\<lambda>_ _. True) (\<lambda>_ _. False) w"
    by (rule place_admits [OF inv _ lot(2) True [symmetric] lot(3,4) loc(1) _ loc(3,4) row score assms(4)])
      (use lot(1) loc(2) assms(3) in simp_all)
  from wp_success [OF this] obtain w' where w': "place E S p w = (Inr (), w')" by auto
  have "places E p (stocks (db w)) (stocks (db w'))"
    by (rule leads_result [OF place_effect _ w']) (use good_lots_inv [OF inv] in simp_all)
  then obtain r' where r': "find_row st_ID (st_ID r') (stocks (db w)) = Some r'"
    "P (p_String p ''stockId'') = Some (st_ID r')"
    "if st_LocationID r' \<noteq> None \<or> st_Quantity r' = 0 then stocks (db w') = stocks (db w)
     else \<exists>l. P (p_String p ''locationId'') = Some l \<and> stocks (db w') = put_lot E (r'\<lparr>st_LocationID := Some l\<rparr>) (stocks (db w))"
    unfolding places_def assms(3) by blast
  have id: "st_ID r' = st_ID r" using r'(2) lot(1) by simp
  have "Some r = Some r'" unfolding lot(2) [symmetric] r'(1) [symmetric] id ..
  then have "r' = r" by simp
  then have "stocks (db w') = put_lot E (r\<lparr>st_LocationID := Some u\<rparr>) (stocks (db w))"
    using r'(3) lot(3,4) loc(2) by simp
  with w' True show ?thesis by simp
next
  case False
  then show ?thesis using place_wrong_warehouse [OF _ lot(2)] lot(1) assms(3) by auto
qed

definition demo_candidate :: Candidate where
  "demo_candidate = \<lparr>ca_ID = ''l1'', ca_WarehouseID = ''w1'', ca_MaxWeight = Fin 100, ca_MaxVolume = Fin 100,
     ca_CurrentWeight = Fin 0, ca_CurrentVolume = Fin 0, ca_Distance = Fin 5, ca_StorageType = ''DRY'',
     ca_ZoneType = ''STORAGE'', ca_Status = ''AVAILABLE''\<rparr>"

definition demo_location :: Location where
  "demo_location = \<lparr>lo_ID = ''l1'', lo_WarehouseID = ''w1'', lo_MaxWeight = Fin 100, lo_MaxVolume = Fin 100,
     lo_StorageType = ''DRY'', lo_ZoneType = ''STORAGE'', lo_Status = ''AVAILABLE''\<rparr>"

lemma later_env_supplied:
  assumes "list_all (\<lambda>r. ob_id r \<noteq> [] \<and> hd (ob_id r) \<noteq> CHR ''v'') (outbox (db w))"
  shows "supplied later_env w"
proof -
  have "replicate j (CHR ''x'') = replicate k (CHR ''x'') \<longrightarrow> j = k" for j k by (metis length_replicate)
  moreover have "CHR ''v'' # replicate k (CHR ''x'') \<notin> ob_id ` set (outbox (db w))" for k
    using assms by (auto simp: list_all_iff) (metis list.sel(1))
  ultimately show ?thesis by (auto simp: supplied_def demo_env_def demo_uuid_def)
qed

theorem assignment_carried_out_witness:
  "\<exists>w'. place later_env demo_service demo_assignment demo_received = (Inr (), w')
    \<and> map st_LocationID (stocks (db w')) = [Some ''l1'']"
proof -
  let ?r = "hd (stocks (db demo_received))"
  have o: "list_all (\<lambda>r. ob_id r \<noteq> [] \<and> hd (ob_id r) \<noteq> CHR ''v'') (outbox (db demo_received))" by code_simp
  have lot: "demo_uuid (p_String demo_assignment ''stockId'') = Some (st_ID ?r)"
    "find_row st_ID (st_ID ?r) (stocks (db demo_received)) = Some ?r"
    "st_LocationID ?r = None" "st_Quantity ?r \<noteq> 0"
    and warehouse: "p_String demo_assignment ''warehouseId'' = st_WarehouseID ?r"
    by code_simp+
  have loc: "uuid_ok later_env (p_String demo_assignment ''locationId'')"
    "demo_uuid (p_String demo_assignment ''locationId'') = Some ''l1''"
    "location_reply later_env demo_service (p_String demo_assignment ''locationId'') = Inr demo_location"
    "same_place demo_candidate demo_location"
    by code_simp+
  have row: "find_row cap_location ''l1'' (cap_ensure ''l1'' (st_WarehouseID ?r) (capacities (db demo_received))) =
      Some (cap_zero ''l1'' ''w1'')" "same_totals demo_candidate (cap_zero ''l1'' ''w1'')"
    by code_simp+
  have score: "snd (Score demo_candidate (st_WarehouseID ?r) (st_StorageType ?r) (load (st_Weight ?r) (st_Quantity ?r))
      (load (st_Volume ?r) (st_Quantity ?r)))"
    by code_simp
  have s: "map st_LocationID (put_lot later_env (?r\<lparr>st_LocationID := Some ''l1''\<rparr>) (stocks (db demo_received))) = [Some ''l1'']"
    by code_simp
  from assignment_carried_out [OF demo_uuid_law demo_received_reachable later_env_uuid(1) later_env_supplied [OF o]
      lot loc row score, unfolded if_P [OF warehouse]] s
  show ?thesis by auto
qed

section \<open>Jobs are true to the lots\<close>

text \<open>
  C14: on every run of the two services together, whatever the delays and repetitions of the
  messages between them, each placement job stands for a lot the inventory service has, in the
  warehouse it names, and a job that is closed as PLACED for a lot that lies at a location. So no
  lot is ever believed to be stored that is not.
\<close>

theorem closed_jobs_lie_somewhere:
  assumes "uuid_law P" "warehouse_reachable P S Z iw pw" "job \<in> set (jobs (db pw))"
  shows "\<exists>r. find_row st_ID (jb_stock job) (stocks (db iw)) = Some r \<and> st_WarehouseID r = jb_warehouse job
    \<and> (jb_status job = ''PLACED'' \<longrightarrow> st_LocationID r \<noteq> None)"
proof -
  obtain r where r: "r \<in> set (stocks (db iw))" "lies job r"
    using warehouse_backed [OF assms(1,2)] assms(3) by (auto simp: backed_def)
  have "distinct (map st_ID (stocks (db iw)))"
    using reachable_told [OF assms(1) warehouse_projects(1) [OF assms(2)]] by (simp add: told_def)
  from find_row_distinct [OF this r(1)] r(2) show ?thesis by (auto simp: lies_def)
qed

text \<open>
  A run: a receipt, its announcement, an assignment that places the lot, and a second look of the
  worker, which finds the location through the route of the inventory service.
\<close>

definition joint_job :: "pldb world" where
  "joint_job = snd (attempt_event depot_env Placement_Handle (outbox_message (hd (outbox (db demo_received)))) depot_start)"

definition joint_env :: env where
  "joint_env = depot_env\<lparr>http_get := \<lambda>url. over_http [] [] (fst (serve demo_env
     (mux_routes True True True @ inventory_routes demo_service) (lot_request ''c'' (drop 17 url)) demo_placed))\<rparr>"

definition joint_placed :: "pldb world" where
  "joint_placed = Placement_tick joint_env depot_work depot_peers joint_job"

lemma joint_reachable: "warehouse_reachable demo_uuid demo_service depot_peers demo_placed joint_placed"
proof -
  let ?reach = "warehouse_reachable demo_uuid demo_service depot_peers"
  have P: "pg_uuid depot_env = demo_uuid" "pg_uuid joint_env = demo_uuid"
    by (simp_all add: joint_env_def demo_depot_uuid demo_env_uuid)
  have "?reach demo_start depot_start"
    by (rule warehouse_reachable.start) (simp_all add: demo_start_def depot_start_def)
  then have "?reach demo_received depot_start"
    by (rule warehouse_reachable.step) (rule warehouse_step.inventory, rule demo_run)
  moreover have "outbox (db demo_received) \<noteq> []" by code_simp
  then have "placement_move demo_uuid demo_service depot_peers demo_received depot_start joint_job"
    unfolding joint_job_def by (intro placement_move.announcement P) simp
  ultimately have "?reach demo_received joint_job"
    by (rule warehouse_reachable.step [OF _ warehouse_step.placement])
  then have "?reach demo_placed joint_job"
    by (rule warehouse_reachable.step) (rule warehouse_step.inventory, rule demo_run)
  moreover have "placement_move demo_uuid demo_service depot_peers demo_placed joint_job joint_placed"
    unfolding joint_placed_def
  proof (rule placement_move.work [OF P(2) depot_scan])
    fix i
    have "drop 17 (InventoryURL depot_peers @ ''/inventory/lots/'' @ i) = i" by (simp add: depot_peers_def)
    then have "http_get joint_env (InventoryURL depot_peers @ ''/inventory/lots/'' @ i) = over_http [] [] (fst (serve demo_env
        (mux_routes True True True @ inventory_routes demo_service) (lot_request ''c'' i) demo_placed))"
      by (simp add: joint_env_def)
    then show "reads_lot demo_uuid demo_service demo_placed i (http_get joint_env (InventoryURL depot_peers @ ''/inventory/lots/'' @ i))"
      unfolding reads_lot_def using demo_env_uuid by blast
  qed
  ultimately show ?thesis by (rule warehouse_reachable.step [OF _ warehouse_step.placement])
qed

theorem closed_jobs_lie_somewhere_witness:
  "\<exists>job r. jobs (db joint_placed) = [job] \<and> jb_status job = ''PLACED''
    \<and> find_row st_ID (jb_stock job) (stocks (db demo_placed)) = Some r \<and> st_LocationID r \<noteq> None"
proof -
  have "map jb_status (jobs (db joint_placed)) = [''PLACED'']" by code_simp
  then obtain job where job: "jobs (db joint_placed) = [job]" "jb_status job = ''PLACED''" by auto
  from closed_jobs_lie_somewhere [OF demo_uuid_law joint_reachable, of job] job show ?thesis by auto
qed

end
